(* ===== verification/Contracts.thy ===== *)
theory Contracts
  imports Prelude
begin

text \<open>
  The shared contract models of \<^verbatim>\<open>packages/contracts/coaching_contracts/models.py\<close>: the
  enumerations, the request and response models, and the validators declared on them.
  A Pydantic model is a record; what its field constraints and \<^verbatim>\<open>model_validator\<close> accept is a
  predicate \<open>valid_...\<close>. Enumeration columns are stored by value in the database; since the
  values are the member names, they are modelled by the enumeration itself.
\<close>

subsection \<open>Enumerations\<close>

datatype SessionState =
    S_CREATED | S_UPLOADING | S_UPLOADED | S_TRANSCRIBING | S_RECONCILING
  | S_TRANSCRIPT_READY | S_EXTRACTING | S_AWAITING_REVIEW | S_COMPLETE
  | S_RETRY_PENDING | S_FAILED | S_CANCELLED | S_DELETE_PENDING | S_DELETED

datatype JobType = T_TRANSCRIBE | T_RECONCILE | T_EXTRACT | T_SUMMARIZE

datatype JobStatus = J_QUEUED | J_RUNNING | J_SUCCEEDED | J_FAILED | J_CANCELLED

datatype VerificationStatus = V_UNVERIFIED | V_VERIFIED | V_REJECTED | V_NEEDS_REVIEW

text \<open>
  The exceptions the services raise. \<^verbatim>\<open>InvalidStateTransition\<close>, \<^verbatim>\<open>EvidenceValidationError\<close> and
  Pydantic's \<^verbatim>\<open>ValidationError\<close> are subclasses of \<^verbatim>\<open>ValueError\<close>; the \<^verbatim>\<open>ArithmeticError\<close>s of \<^verbatim>\<open>decimal\<close> and
  \<^verbatim>\<open>KeyError\<close> and \<^verbatim>\<open>IndexError\<close> are not.
\<close>

datatype py_error =
    ValueError string
  | EvidenceValidationError string
  | InvalidStateTransition SessionState SessionState
  | ArithmeticError
  | KeyError string
  | IndexError
  | TypeError string

definition is_value_error :: "py_error \<Rightarrow> bool" where
  "is_value_error e = (case e of ValueError _ \<Rightarrow> True | EvidenceValidationError _ \<Rightarrow> True
     | InvalidStateTransition _ _ \<Rightarrow> True | _ \<Rightarrow> False)"

text \<open>Python's truth value of an optional string: \<open>None\<close> and \<open>""\<close> are false.\<close>

definition truthy :: "string option \<Rightarrow> bool" where
  "truthy v = (case v of None \<Rightarrow> False | Some s \<Rightarrow> s \<noteq> [])"

lemma truthy_simps [simp]: "\<not> truthy None" "truthy (Some s) \<longleftrightarrow> s \<noteq> []"
  by (simp_all add: truthy_def)

lemma truthyD: "truthy v \<Longrightarrow> \<exists>s. v = Some s \<and> s \<noteq> []"
  by (cases v) auto

subsection \<open>Sessions\<close>

record CreateSessionRequest =
  cs_title :: string
  cs_recorded_at :: "int option"
  cs_duration_ms :: "int option"
  cs_notes :: "string option"

definition valid_create_session :: "CreateSessionRequest \<Rightarrow> bool" where
  "valid_create_session b \<longleftrightarrow>
     1 \<le> length (cs_title b) \<and> length (cs_title b) \<le> 300 \<and>
     (case cs_duration_ms b of None \<Rightarrow> True | Some d \<Rightarrow> 1 \<le> d) \<and>
     (case cs_notes b of None \<Rightarrow> True | Some n \<Rightarrow> length n \<le> 10000)"

record SessionResponse =
  sr_id :: string
  sr_title :: string
  sr_state :: SessionState
  sr_recorded_at :: "int option"
  sr_duration_ms :: "int option"
  sr_original_filename :: "string option"
  sr_media_sha256 :: "string option"
  sr_speakr_recording_id :: "string option"
  sr_current_transcript_revision_id :: "string option"
  sr_last_reconciled_at :: "int option"
  sr_last_error :: "string option"
  sr_playback_url :: "string option"
  sr_ledger_entry_count :: nat
  sr_reviewed_ledger_entry_count :: nat
  sr_created_at :: int
  sr_updated_at :: int

subsection \<open>Jobs\<close>

record JobResponse =
  jr_id :: string
  jr_session_id :: string
  jr_type :: JobType
  jr_status :: JobStatus
  jr_attempts :: nat
  jr_max_attempts :: nat
  jr_error_code :: "string option"
  jr_error_message :: "string option"
  jr_created_at :: int
  jr_updated_at :: int

subsection \<open>Transcripts and evidence\<close>

record TranscriptSegment =
  ts_segment_id :: string
  ts_start_ms :: int
  ts_end_ms :: int
  ts_text :: string
  ts_provider_speaker_label :: "string option"

definition valid_segment :: "TranscriptSegment \<Rightarrow> bool" where
  "valid_segment s \<longleftrightarrow> 0 \<le> ts_start_ms s \<and> 0 < ts_end_ms s \<and> ts_start_ms s < ts_end_ms s"

record TranscriptRevisionResponse =
  tr_id :: string
  tr_session_id :: string
  tr_sha256 :: string
  tr_segments :: "TranscriptSegment list"
  tr_source :: string
  tr_created_at :: int

record EvidenceReference =
  er_transcript_revision_id :: string
  er_start_ms :: int
  er_end_ms :: int
  er_segment_ids :: "string list"

definition valid_reference :: "EvidenceReference \<Rightarrow> bool" where
  "valid_reference r \<longleftrightarrow>
     0 \<le> er_start_ms r \<and> 0 < er_end_ms r \<and> er_segment_ids r \<noteq> [] \<and>
     er_start_ms r < er_end_ms r \<and> distinct (er_segment_ids r)"

subsection \<open>The ledger\<close>

record LedgerEntryCreate =
  le_topic :: string
  le_exact_coach_feedback :: "string option"
  le_interpretation :: "string option"
  le_applies_to :: "string option"
  le_song_passage_measure :: "string option"
  le_problem_heard_before :: "string option"
  le_exercise_or_requested_change :: "string option"
  le_observed_result :: "string option"
  le_next_action_and_owner :: "string option"
  le_unresolved_question :: "string option"
  le_confidence :: rat
  le_evidence :: "EvidenceReference list"
  le_extraction_metadata :: "(string \<times> json) list"

definition valid_entry :: "LedgerEntryCreate \<Rightarrow> bool" where
  "valid_entry e \<longleftrightarrow>
     1 \<le> length (le_topic e) \<and> length (le_topic e) \<le> 300 \<and>
     0 \<le> le_confidence e \<and> le_confidence e \<le> 1 \<and>
     le_evidence e \<noteq> [] \<and> list_all valid_reference (le_evidence e)"

record LedgerEntryResponse = LedgerEntryCreate +
  lr_id :: string
  lr_session_id :: string
  lr_transcript_revision_id :: string
  lr_verification_status :: VerificationStatus
  lr_verified_by :: "string option"
  lr_verified_at :: "int option"
  lr_created_at :: int
  lr_updated_at :: int

record VerificationRequest =
  vr_status :: VerificationStatus
  vr_note :: "string option"

definition valid_verification :: "VerificationRequest \<Rightarrow> bool" where
  "valid_verification v \<longleftrightarrow>
     vr_status v \<notin> {V_UNVERIFIED, V_NEEDS_REVIEW} \<and>
     (case vr_note v of None \<Rightarrow> True | Some n \<Rightarrow> length n \<le> 5000)"

definition reviewed :: "VerificationStatus \<Rightarrow> bool" where
  "reviewed v \<longleftrightarrow> v \<in> {V_VERIFIED, V_REJECTED}"

lemma valid_verification_reviewed: "valid_verification v \<Longrightarrow> reviewed (vr_status v)"
  by (cases "vr_status v") (auto simp: valid_verification_def reviewed_def)

subsection \<open>Summaries\<close>

record SummaryThemeCreate =
  th_title :: string
  th_summary :: string
  th_ledger_entry_ids :: "string list"

definition valid_theme :: "SummaryThemeCreate \<Rightarrow> bool" where
  "valid_theme t \<longleftrightarrow>
     1 \<le> length (th_title t) \<and> length (th_title t) \<le> 200 \<and>
     1 \<le> length (th_summary t) \<and> length (th_summary t) \<le> 4000 \<and>
     th_ledger_entry_ids t \<noteq> [] \<and> distinct (th_ledger_entry_ids t)"

record SummaryMoment =
  mo_ledger_entry_id :: string
  mo_start_ms :: int
  mo_end_ms :: int

definition valid_moment :: "SummaryMoment \<Rightarrow> bool" where
  "valid_moment m \<longleftrightarrow> 0 \<le> mo_start_ms m \<and> 0 < mo_end_ms m"

record SummaryTheme = SummaryThemeCreate +
  st_rank :: nat
  st_moments :: "SummaryMoment list"
  st_start_ms :: int
  st_end_ms :: int

record SessionSummaryResponse =
  ss_id :: string
  ss_session_id :: string
  ss_transcript_revision_id :: string
  ss_themes :: "SummaryTheme list"
  ss_entry_count :: nat
  ss_stale :: bool
  ss_generated_at :: int

end
