(* ===== verification/Store.thy ===== *)
theory Store
  imports Contracts
begin

text \<open>
  The relational store: the rows of \<^verbatim>\<open>evidence_api/models.py\<close> and the database that holds
  them. A table is the list of its rows in insertion order, which is also the order in which
  a query with no \<^verbatim>\<open>ORDER BY\<close> returns them. A mapped class with a \<^verbatim>\<open>version_id_col\<close> gets its
  version and \<^verbatim>\<open>updated_at\<close> bumped by the flush of a changed object (\<open>save_session\<close>,
  \<open>save_job\<close>); an object whose attributes did not change is not written. Identifiers from
  \<^verbatim>\<open>uuid4\<close> and the clock are arguments of the operations.
\<close>

subsection \<open>Rows\<close>

record SessionRecord =
  s_id :: string
  s_title :: string
  s_state :: SessionState
  s_recorded_at :: "int option"
  s_duration_ms :: "int option"
  s_notes :: "string option"
  s_original_filename :: "string option"
  s_media_path :: "string option"
  s_media_sha256 :: "string option"
  s_media_size_bytes :: "nat option"
  s_speakr_recording_id :: "string option"
  s_transcription_submitted_at :: "int option"
  s_pending_operation_kind :: "string option"
  s_pending_operation_id :: "string option"
  s_pending_operation_started_at :: "int option"
  s_current_transcript_revision_id :: "string option"
  s_last_reconciled_at :: "int option"
  s_last_error :: "string option"
  s_created_at :: int
  s_updated_at :: int
  s_version :: nat

record JobRecord =
  j_id :: string
  j_session_id :: string
  j_type :: JobType
  j_status :: JobStatus
  j_attempts :: nat
  j_max_attempts :: nat
  j_error_code :: "string option"
  j_error_message :: "string option"
  j_ambiguous_operation_id :: "string option"
  j_available_at :: int
  j_created_at :: int
  j_updated_at :: int
  j_version :: nat

record TranscriptRevisionRecord =
  r_id :: string
  r_session_id :: string
  r_sha256 :: string
  r_segments :: "TranscriptSegment list"
  r_source :: string
  r_created_at :: int

record LedgerEntryRecord =
  e_id :: string
  e_session_id :: string
  e_transcript_revision_id :: string
  e_topic :: string
  e_exact_coach_feedback :: "string option"
  e_interpretation :: "string option"
  e_applies_to :: "string option"
  e_song_passage_measure :: "string option"
  e_problem_heard_before :: "string option"
  e_exercise_or_requested_change :: "string option"
  e_observed_result :: "string option"
  e_next_action_and_owner :: "string option"
  e_unresolved_question :: "string option"
  e_confidence_millis :: int
  e_evidence :: "EvidenceReference list"
  e_extraction_metadata :: "(string \<times> json) list"
  e_verification_status :: VerificationStatus
  e_verified_by :: "string option"
  e_verified_at :: "int option"
  e_created_at :: int
  e_updated_at :: int

record SessionSummaryRecord =
  m_id :: string
  m_session_id :: string
  m_transcript_revision_id :: string
  m_themes :: "SummaryTheme list"
  m_entry_count :: nat
  m_source_updated_at :: int
  m_generated_at :: int

record VerificationRecord =
  v_id :: string
  v_ledger_entry_id :: string
  v_reviewer :: string
  v_status :: VerificationStatus
  v_note :: "string option"
  v_created_at :: int

record DeletionTombstoneRecord =
  d_session_id :: string
  d_requested_at :: int
  d_compensated_recording_id :: "string option"
  d_compensated_at :: "int option"

datatype CompensationStatus = C_PENDING | C_FAILED | C_SUCCEEDED

record DeletionCompensationRecord =
  c_id :: string
  c_session_id :: string
  c_recording_id :: string
  c_status :: CompensationStatus
  c_attempts :: nat
  c_error_code :: "string option"
  c_error_message :: "string option"
  c_available_at :: int
  c_completed_at :: "int option"
  c_created_at :: int

record ProviderOperationResolutionRecord =
  p_id :: string
  p_session_id :: string
  p_job_id :: string
  p_operation_id :: "string option"
  p_operation_kind :: string
  p_outcome :: string
  p_remote_recording_id :: "string option"
  p_verification_method :: string
  p_override_reason :: "string option"
  p_resolved_by :: string
  p_resolved_at :: int

record WebhookDeliveryRecord =
  h_delivery_id :: string
  h_session_id :: "string option"
  h_event_type :: string
  h_payload_sha256 :: string
  h_payload :: "(string \<times> json) list"
  h_received_at :: int

record db =
  db_sessions :: "SessionRecord list"
  db_jobs :: "JobRecord list"
  db_revisions :: "TranscriptRevisionRecord list"
  db_entries :: "LedgerEntryRecord list"
  db_summaries :: "SessionSummaryRecord list"
  db_verifications :: "VerificationRecord list"
  db_tombstones :: "DeletionTombstoneRecord list"
  db_compensations :: "DeletionCompensationRecord list"
  db_resolutions :: "ProviderOperationResolutionRecord list"
  db_deliveries :: "WebhookDeliveryRecord list"

definition empty_db :: db where
  "empty_db = \<lparr>db_sessions = [], db_jobs = [], db_revisions = [], db_entries = [],
     db_summaries = [], db_verifications = [], db_tombstones = [], db_compensations = [],
     db_resolutions = [], db_deliveries = []\<rparr>"

text \<open>A row as the mapped class's column defaults make it.\<close>

definition new_session :: "string \<Rightarrow> int \<Rightarrow> CreateSessionRequest \<Rightarrow> SessionRecord" where
  "new_session i now b = \<lparr>s_id = i, s_title = cs_title b, s_state = S_CREATED,
     s_recorded_at = cs_recorded_at b, s_duration_ms = cs_duration_ms b, s_notes = cs_notes b,
     s_original_filename = None, s_media_path = None, s_media_sha256 = None,
     s_media_size_bytes = None, s_speakr_recording_id = None,
     s_transcription_submitted_at = None, s_pending_operation_kind = None,
     s_pending_operation_id = None, s_pending_operation_started_at = None,
     s_current_transcript_revision_id = None, s_last_reconciled_at = None,
     s_last_error = None, s_created_at = now, s_updated_at = now, s_version = 1\<rparr>"

definition new_job :: "string \<Rightarrow> int \<Rightarrow> string \<Rightarrow> JobType \<Rightarrow> nat \<Rightarrow> JobRecord" where
  "new_job i now sid t m = \<lparr>j_id = i, j_session_id = sid, j_type = t, j_status = J_QUEUED,
     j_attempts = 0, j_max_attempts = m, j_error_code = None, j_error_message = None,
     j_ambiguous_operation_id = None, j_available_at = now, j_created_at = now,
     j_updated_at = now, j_version = 1\<rparr>"

lemma new_session_simps [simp]:
  "s_id (new_session i now b) = i" "s_state (new_session i now b) = S_CREATED"
  "s_current_transcript_revision_id (new_session i now b) = None"
  "s_speakr_recording_id (new_session i now b) = None"
  "s_pending_operation_kind (new_session i now b) = None"
  "s_pending_operation_id (new_session i now b) = None"
  "s_media_path (new_session i now b) = None"
  by (simp_all add: new_session_def)

lemma new_job_simps [simp]:
  "j_id (new_job i now sid t m) = i" "j_session_id (new_job i now sid t m) = sid"
  "j_type (new_job i now sid t m) = t" "j_status (new_job i now sid t m) = J_QUEUED"
  "j_max_attempts (new_job i now sid t m) = m" "j_attempts (new_job i now sid t m) = 0"
  "j_error_code (new_job i now sid t m) = None"
  "j_ambiguous_operation_id (new_job i now sid t m) = None"
  by (simp_all add: new_job_def)

subsection \<open>Tables\<close>

definition tbl_get :: "('r \<Rightarrow> string) \<Rightarrow> 'r list \<Rightarrow> string \<Rightarrow> 'r option" where
  "tbl_get key rows i = find (\<lambda>r. key r = i) rows"

definition tbl_put :: "('r \<Rightarrow> string) \<Rightarrow> 'r list \<Rightarrow> 'r \<Rightarrow> 'r list" where
  "tbl_put key rows r = map (\<lambda>x. if key x = key r then r else x) rows"

definition tbl_add :: "'r list \<Rightarrow> 'r \<Rightarrow> 'r list" where
  "tbl_add rows r = rows @ [r]"

definition tbl_remove :: "('r \<Rightarrow> string) \<Rightarrow> 'r list \<Rightarrow> string \<Rightarrow> 'r list" where
  "tbl_remove key rows i = filter (\<lambda>r. key r \<noteq> i) rows"

text \<open>
  The interface the services use a table through: a primary-key lookup, and writes that
  keep the keys unique.
\<close>

locale row_table =
  fixes key :: "'r \<Rightarrow> string"
    and get :: "'r list \<Rightarrow> string \<Rightarrow> 'r option"
    and put :: "'r list \<Rightarrow> 'r \<Rightarrow> 'r list"
    and add :: "'r list \<Rightarrow> 'r \<Rightarrow> 'r list"
    and remove :: "'r list \<Rightarrow> string \<Rightarrow> 'r list"
  assumes get_in: "get rows i = Some r \<Longrightarrow> r \<in> set rows \<and> key r = i"
    and get_none: "get rows i = None \<longleftrightarrow> i \<notin> key ` set rows"
    and put_keys: "map key (put rows r) = map key rows"
    and put_set: "x \<in> set (put rows r) \<Longrightarrow> x = r \<or> (x \<in> set rows \<and> key x \<noteq> key r)"
    and put_other: "x \<in> set rows \<Longrightarrow> key x \<noteq> key r \<Longrightarrow> x \<in> set (put rows r)"
    and put_in: "key r \<in> key ` set rows \<Longrightarrow> r \<in> set (put rows r)"
    and add_set: "set (add rows r) = insert r (set rows)"
    and add_distinct: "distinct (map key (add rows r)) \<longleftrightarrow>
          distinct (map key rows) \<and> key r \<notin> key ` set rows"
    and remove_set: "set (remove rows i) = {r \<in> set rows. key r \<noteq> i}"
    and remove_distinct: "distinct (map key rows) \<Longrightarrow> distinct (map key (remove rows i))"
begin

lemma get_row:
  assumes "distinct (map key rows)" and "r \<in> set rows"
  shows "get rows (key r) = Some r"
proof (cases "get rows (key r)")
  case None
  with assms(2) show ?thesis by (simp add: get_none)
next
  case (Some x)
  with get_in [OF Some] assms show ?thesis by (metis distinct_map inj_onD)
qed

lemma put_distinct: "distinct (map key rows) \<Longrightarrow> distinct (map key (put rows r))"
  by (simp add: put_keys)

lemma put_key_set: "key ` set (put rows r) = key ` set rows"
  using put_keys by (metis list.set_map)

lemma get_put_same:
  assumes "distinct (map key rows)" and "key r \<in> key ` set rows"
  shows "get (put rows r) (key r) = Some r"
  using get_row [OF put_distinct [OF assms(1)] put_in [OF assms(2)]] .

lemma get_put_other:
  assumes "distinct (map key rows)" and "i \<noteq> key r"
  shows "get (put rows r) i = get rows i"
proof (cases "get rows i")
  case None
  then show ?thesis using get_none put_key_set by metis
next
  case (Some x)
  with get_in [OF Some] assms(2) have "x \<in> set (put rows r)" "key x = i"
    by (auto intro: put_other)
  with Some get_row [OF put_distinct [OF assms(1)]] show ?thesis by metis
qed

lemma get_add:
  assumes "distinct (map key (add rows r))"
  shows "get (add rows r) i = (if i = key r then Some r else get rows i)"
proof -
  have rows: "distinct (map key rows)" using assms by (simp add: add_distinct)
  show ?thesis
  proof (cases "get rows i")
    case None
    then have "i \<noteq> key r \<Longrightarrow> get (add rows r) i = None"
      using get_none [of rows i] get_none [of "add rows r" i] by (auto simp: add_set)
    with None get_row [OF assms, of r] show ?thesis by (simp add: add_set)
  next
    case (Some x)
    with get_in [OF Some] have x: "x \<in> set rows" "key x = i" by auto
    with assms have "i \<noteq> key r" by (metis add_distinct imageI)
    with x get_row [OF assms, of x] Some show ?thesis by (simp add: add_set)
  qed
qed

lemma get_remove: "get (remove rows i) i = None"
  by (auto simp: get_none remove_set)

end

lemma tbl_row_table: "row_table key (tbl_get key) (tbl_put key) tbl_add (tbl_remove key)"
proof unfold_locales
  fix rows i r
  show "tbl_get key rows i = Some r \<Longrightarrow> r \<in> set rows \<and> key r = i"
    by (auto simp: tbl_get_def find_Some_iff)
  show "(tbl_get key rows i = None) = (i \<notin> key ` set rows)"
    by (auto simp: tbl_get_def find_None_iff)
qed (auto simp: tbl_put_def tbl_add_def tbl_remove_def image_iff distinct_map_filter)

lemma tbl_get_put:
  "tbl_get key (tbl_put key rows r) i =
     (if i = key r then (if i \<in> key ` set rows then Some r else None) else tbl_get key rows i)"
  by (induction rows) (auto simp: tbl_get_def tbl_put_def)

interpretation sess: row_table s_id "tbl_get s_id" "tbl_put s_id" tbl_add "tbl_remove s_id"
  by (rule tbl_row_table)

interpretation job: row_table j_id "tbl_get j_id" "tbl_put j_id" tbl_add "tbl_remove j_id"
  by (rule tbl_row_table)

interpretation rev: row_table r_id "tbl_get r_id" "tbl_put r_id" tbl_add "tbl_remove r_id"
  by (rule tbl_row_table)

interpretation ent: row_table e_id "tbl_get e_id" "tbl_put e_id" tbl_add "tbl_remove e_id"
  by (rule tbl_row_table)

interpretation tomb: row_table d_session_id "tbl_get d_session_id" "tbl_put d_session_id"
    tbl_add "tbl_remove d_session_id"
  by (rule tbl_row_table)

interpretation comp: row_table c_id "tbl_get c_id" "tbl_put c_id" tbl_add "tbl_remove c_id"
  by (rule tbl_row_table)

subsection \<open>Flushing changed rows\<close>

definition get_session :: "db \<Rightarrow> string \<Rightarrow> SessionRecord option" where
  "get_session d i = tbl_get s_id (db_sessions d) i"

definition get_job :: "db \<Rightarrow> string \<Rightarrow> JobRecord option" where
  "get_job d i = tbl_get j_id (db_jobs d) i"

definition get_revision :: "db \<Rightarrow> string \<Rightarrow> TranscriptRevisionRecord option" where
  "get_revision d i = tbl_get r_id (db_revisions d) i"

definition get_entry :: "db \<Rightarrow> string \<Rightarrow> LedgerEntryRecord option" where
  "get_entry d i = tbl_get e_id (db_entries d) i"

definition save_session :: "int \<Rightarrow> SessionRecord \<Rightarrow> db \<Rightarrow> db" where
  "save_session now r d =
     (if get_session d (s_id r) = Some r then d
      else d\<lparr>db_sessions := tbl_put s_id (db_sessions d)
               (r\<lparr>s_updated_at := now, s_version := Suc (s_version r)\<rparr>)\<rparr>)"

text \<open>An explicit assignment to \<^verbatim>\<open>updated_at\<close> takes precedence over its \<^verbatim>\<open>onupdate\<close> default.\<close>

definition save_job :: "int \<Rightarrow> JobRecord \<Rightarrow> db \<Rightarrow> db" where
  "save_job now r d =
     (case get_job d (j_id r) of
        None \<Rightarrow> d
      | Some old \<Rightarrow>
          if old = r then d
          else d\<lparr>db_jobs := tbl_put j_id (db_jobs d)
                   (r\<lparr>j_updated_at := (if j_updated_at r = j_updated_at old then now
                                        else j_updated_at r),
                      j_version := Suc (j_version r)\<rparr>)\<rparr>)"

definition save_entry :: "int \<Rightarrow> LedgerEntryRecord \<Rightarrow> db \<Rightarrow> db" where
  "save_entry now r d =
     (if get_entry d (e_id r) = Some r then d
      else d\<lparr>db_entries := tbl_put e_id (db_entries d) (r\<lparr>e_updated_at := now\<rparr>)\<rparr>)"

text \<open>
  \<^verbatim>\<open>db.delete(session)\<close>: the foreign keys of the session's jobs, revisions, ledger entries,
  summary and webhook deliveries, and of the verifications of its entries, are declared
  \<^verbatim>\<open>ON DELETE CASCADE\<close>; tombstones, compensations and resolutions have no foreign key.
\<close>

definition delete_session :: "string \<Rightarrow> db \<Rightarrow> db" where
  "delete_session i d =
     (let revs = map r_id (filter (\<lambda>r. r_session_id r = i) (db_revisions d));
          gone = (\<lambda>e. e_session_id e = i \<or> e_transcript_revision_id e \<in> set revs);
          dead = map e_id (filter gone (db_entries d))
      in d\<lparr>db_sessions := tbl_remove s_id (db_sessions d) i,
           db_jobs := filter (\<lambda>j. j_session_id j \<noteq> i) (db_jobs d),
           db_revisions := filter (\<lambda>r. r_session_id r \<noteq> i) (db_revisions d),
           db_entries := filter (\<lambda>e. \<not> gone e) (db_entries d),
           db_summaries := filter (\<lambda>m. m_session_id m \<noteq> i \<and>
              m_transcript_revision_id m \<notin> set revs) (db_summaries d),
           db_verifications := filter (\<lambda>v. v_ledger_entry_id v \<notin> set dead) (db_verifications d),
           db_deliveries := filter (\<lambda>h. h_session_id h \<noteq> Some i) (db_deliveries d)\<rparr>)"

lemmas [row_eval] = get_session_def get_job_def get_revision_def get_entry_def tbl_get_def tbl_put_def
  tbl_add_def save_session_def save_job_def save_entry_def Let_def

end
