(* ===== verification/Session_State.thy ===== *)
theory Session_State
  imports Store
begin

text \<open>
  The session state machine of \<^verbatim>\<open>evidence_api/state.py\<close>: the table of allowed transitions,
  the guarded \<open>transition\<close>, and what the table alone guarantees about every chain of
  transitions.
\<close>

fun ALLOWED_TRANSITIONS :: "SessionState \<Rightarrow> SessionState set" where
  "ALLOWED_TRANSITIONS S_CREATED = {S_UPLOADING, S_CANCELLED, S_DELETE_PENDING}"
| "ALLOWED_TRANSITIONS S_UPLOADING = {S_UPLOADED, S_FAILED, S_CANCELLED, S_DELETE_PENDING}"
| "ALLOWED_TRANSITIONS S_UPLOADED = {S_TRANSCRIBING, S_CANCELLED, S_DELETE_PENDING}"
| "ALLOWED_TRANSITIONS S_TRANSCRIBING =
     {S_RECONCILING, S_TRANSCRIPT_READY, S_RETRY_PENDING, S_FAILED, S_CANCELLED,
      S_DELETE_PENDING}"
| "ALLOWED_TRANSITIONS S_RECONCILING =
     {S_TRANSCRIPT_READY, S_AWAITING_REVIEW, S_COMPLETE, S_RETRY_PENDING, S_FAILED,
      S_CANCELLED, S_DELETE_PENDING}"
| "ALLOWED_TRANSITIONS S_TRANSCRIPT_READY =
     {S_RECONCILING, S_EXTRACTING, S_AWAITING_REVIEW, S_CANCELLED, S_DELETE_PENDING}"
| "ALLOWED_TRANSITIONS S_EXTRACTING =
     {S_AWAITING_REVIEW, S_RETRY_PENDING, S_FAILED, S_CANCELLED, S_DELETE_PENDING}"
| "ALLOWED_TRANSITIONS S_AWAITING_REVIEW =
     {S_COMPLETE, S_RECONCILING, S_EXTRACTING, S_DELETE_PENDING}"
| "ALLOWED_TRANSITIONS S_COMPLETE = {S_AWAITING_REVIEW, S_RECONCILING, S_DELETE_PENDING}"
| "ALLOWED_TRANSITIONS S_RETRY_PENDING =
     {S_TRANSCRIBING, S_RECONCILING, S_EXTRACTING, S_FAILED, S_CANCELLED, S_DELETE_PENDING}"
| "ALLOWED_TRANSITIONS S_FAILED = {S_RETRY_PENDING, S_DELETE_PENDING}"
| "ALLOWED_TRANSITIONS S_CANCELLED = {S_RETRY_PENDING, S_DELETE_PENDING}"
| "ALLOWED_TRANSITIONS S_DELETE_PENDING = {S_DELETED}"
| "ALLOWED_TRANSITIONS S_DELETED = {}"

definition transition :: "SessionRecord \<Rightarrow> SessionState \<Rightarrow> (py_error, SessionRecord) result" where
  "transition r target =
     (let current = s_state r
      in if target = current then Inr r
         else if target \<notin> ALLOWED_TRANSITIONS current
         then Inl (InvalidStateTransition current target)
         else Inr (r\<lparr>s_state := target\<rparr>))"

lemma transition_Inr_iff:
  "transition r t = Inr r' \<longleftrightarrow>
     (t = s_state r \<or> t \<in> ALLOWED_TRANSITIONS (s_state r)) \<and> r' = r\<lparr>s_state := t\<rparr>"
  by (auto simp: transition_def Let_def)

lemma transition_same [simp]: "transition r (s_state r) = Inr r"
  by (simp add: transition_def)

lemma transition_Inl_iff:
  "transition r t = Inl e \<longleftrightarrow>
     t \<noteq> s_state r \<and> t \<notin> ALLOWED_TRANSITIONS (s_state r) \<and>
     e = InvalidStateTransition (s_state r) t"
  by (auto simp: transition_def Let_def)

subsection \<open>Chains of transitions\<close>

inductive state_step :: "SessionState \<Rightarrow> SessionState \<Rightarrow> bool" where
  state_step: "t \<in> ALLOWED_TRANSITIONS s \<Longrightarrow> state_step s t"

inductive_simps state_step_iff: "state_step s t"

inductive_cases state_stepE: "state_step s t"

abbreviation reaches :: "SessionState \<Rightarrow> SessionState \<Rightarrow> bool" where
  "reaches \<equiv> state_step\<^sup>*\<^sup>*"

text \<open>A set of states that no transition leaves holds every state reached from it.\<close>

lemma reaches_closed:
  assumes "reaches s t" and "s \<in> A" and "\<And>a b. a \<in> A \<Longrightarrow> b \<in> ALLOWED_TRANSITIONS a \<Longrightarrow> b \<in> A"
  shows "t \<in> A"
  using assms by (induction rule: rtranclp_induct) (auto elim: state_stepE)

text \<open>Dually, a set that no transition enters holds every state it is reached from.\<close>

lemma reaches_coclosed:
  assumes "reaches s t" and "t \<in> A" and "\<And>a b. b \<in> A \<Longrightarrow> b \<in> ALLOWED_TRANSITIONS a \<Longrightarrow> a \<in> A"
  shows "s \<in> A"
  using assms by (induction rule: converse_rtranclp_induct) (auto elim: state_stepE)

lemma allowed_target_cases:
  "S_COMPLETE \<in> ALLOWED_TRANSITIONS s \<longleftrightarrow> s \<in> {S_RECONCILING, S_AWAITING_REVIEW}"
  "S_UPLOADING \<in> ALLOWED_TRANSITIONS s \<longleftrightarrow> s = S_CREATED"
  "S_CREATED \<notin> ALLOWED_TRANSITIONS s"
  "S_DELETED \<in> ALLOWED_TRANSITIONS s \<longleftrightarrow> s = S_DELETE_PENDING"
  "S_DELETE_PENDING \<in> ALLOWED_TRANSITIONS s \<longleftrightarrow> s \<notin> {S_DELETE_PENDING, S_DELETED}"
  by (cases s; simp)+

subsection \<open>What the table alone guarantees\<close>

lemma reaches_one: "t \<in> ALLOWED_TRANSITIONS s \<Longrightarrow> reaches s t"
  by (simp add: r_into_rtranclp state_step)

text \<open>Deletion cannot be undone and is always possible: from a session pending deletion nothing but
  its deletion is reachable, a deleted session stays deleted, and every state reaches deletion.\<close>

theorem deletion_final:
  "(reaches S_DELETE_PENDING t \<longleftrightarrow> t \<in> {S_DELETE_PENDING, S_DELETED}) \<and>
   (reaches S_DELETED t \<longleftrightarrow> t = S_DELETED) \<and> reaches s S_DELETED"
proof (intro conjI iffI)
  assume "reaches S_DELETE_PENDING t"
  then show "t \<in> {S_DELETE_PENDING, S_DELETED}" by (rule reaches_closed) auto
next
  assume "reaches S_DELETED t"
  then have "t \<in> {S_DELETED}" by (rule reaches_closed) auto
  then show "t = S_DELETED" by simp
next
  have pending: "reaches S_DELETE_PENDING S_DELETED" by (rule reaches_one) simp
  show "reaches s S_DELETED"
  proof (cases "s \<in> {S_DELETE_PENDING, S_DELETED}")
    case False
    then have "reaches s S_DELETE_PENDING" by (intro reaches_one) (simp add: allowed_target_cases)
    with pending show ?thesis by simp
  qed (use pending in auto)
qed (auto intro: reaches_one)

text \<open>A session receives its recording once: only a newly created session leads to an upload, so no
  failure, cancellation or retry ever opens a session for a second recording.\<close>

theorem upload_only_first:
  "reaches s S_UPLOADING \<longleftrightarrow> s \<in> {S_CREATED, S_UPLOADING}"
proof
  assume "reaches s S_UPLOADING"
  then show "s \<in> {S_CREATED, S_UPLOADING}"
    by (rule reaches_coclosed) (auto simp: allowed_target_cases)
qed (auto intro: reaches_one)

end
