(* ===== verification/Transcripts.thy ===== *)
theory Transcripts
  imports Contracts
begin

text \<open>
  Import of provider transcripts, \<^verbatim>\<open>evidence_api/transcripts.py\<close>: timestamps in seconds
  become whole milliseconds through \<^verbatim>\<open>decimal.Decimal\<close>, raw segments become validated
  \<^typ>\<open>TranscriptSegment\<close>s, and a transcript is identified by the SHA-256 of its canonical
  JSON. The digest function is a parameter (\<open>sha256\<close>), and so is \<open>repr\<close>, Python's
  \<^verbatim>\<open>str\<close> of a float or container, which the sources apply only to malformed fields.
  Decimal arithmetic is exact here; Python's context rounds only operands of more than 25
  significant digits.
\<close>

subsection \<open>Decimal literals\<close>

datatype dec = DFin rat | DInf bool | DNan

definition is_digit :: "char \<Rightarrow> bool" where
  "is_digit c \<longleftrightarrow> 48 \<le> (of_char c :: nat) \<and> (of_char c :: nat) \<le> 57"

definition digits_val :: "string \<Rightarrow> nat" where
  "digits_val ds = foldl (\<lambda>a c. 10 * a + ((of_char c :: nat) - 48)) 0 ds"

fun parse_sign :: "string \<Rightarrow> bool \<times> string" where
  "parse_sign [] = (False, [])"
| "parse_sign (c # cs) =
     (if c = CHR ''-'' then (True, cs) else if c = CHR ''+'' then (False, cs) else (False, c # cs))"

fun parse_exponent :: "string \<Rightarrow> int option" where
  "parse_exponent [] = Some 0"
| "parse_exponent (c # cs) =
     (if lower_char c \<noteq> CHR ''e'' then None
      else let (neg, ds) = parse_sign cs
           in if ds = [] \<or> \<not> list_all is_digit ds then None
              else Some (if neg then - int (digits_val ds) else int (digits_val ds)))"

definition scale10 :: "rat \<Rightarrow> int \<Rightarrow> rat" where
  "scale10 x e = (if 0 \<le> e then x * 10 ^ nat e else x / 10 ^ nat (- e))"

definition parse_number :: "string \<Rightarrow> rat option" where
  "parse_number s =
     (let ip = takeWhile is_digit s;
          s1 = dropWhile is_digit s;
          (fp, s2) = (case s1 of
              [] \<Rightarrow> ([], [])
            | c # cs \<Rightarrow> if c = CHR ''.'' then (takeWhile is_digit cs, dropWhile is_digit cs)
                         else ([], s1))
      in if ip = [] \<and> fp = [] then None
         else map_option (\<lambda>e. scale10 (of_nat (digits_val (ip @ fp))) (e - int (length fp)))
                (parse_exponent s2))"

text \<open>\<^verbatim>\<open>Decimal(text)\<close>: surrounding blanks and underscores are dropped, then the grammar of
  the decimal module applies; \<^const>\<open>None\<close> is its syntax error.\<close>

definition parse_decimal :: "string \<Rightarrow> dec option" where
  "parse_decimal text =
     (let (neg, body) = parse_sign (filter (\<lambda>c. c \<noteq> CHR ''_'') (strip text));
          low = casefold body
      in if low = ''inf'' \<or> low = ''infinity'' then Some (DInf neg)
         else if (take 3 low = ''nan'' \<and> list_all is_digit (drop 3 low)) \<or>
                 (take 4 low = ''snan'' \<and> list_all is_digit (drop 4 low)) then Some DNan
         else map_option (\<lambda>x. DFin (if neg then - x else x)) (parse_number body))"

definition decimal_of :: "json \<Rightarrow> dec option" where
  "decimal_of v = (case v of
      JInt i \<Rightarrow> Some (DFin (of_int i))
    | JFloat x \<Rightarrow> Some (DFin x)
    | JNan \<Rightarrow> Some DNan
    | JInf neg \<Rightarrow> Some (DInf neg)
    | JStr s \<Rightarrow> parse_decimal s
    | _ \<Rightarrow> None)"

subsection \<open>Milliseconds\<close>

text \<open>
  Comparing a NaN, and quantizing an infinity or a result of more than 28 digits, raises an
  \<^verbatim>\<open>ArithmeticError\<close>, outside the \<^verbatim>\<open>try\<close> that turns syntax errors into \<^verbatim>\<open>ValueError\<close>.
\<close>

definition seconds_to_ms :: "json \<Rightarrow> (py_error, int) result" where
  "seconds_to_ms v = (case decimal_of v of
      None \<Rightarrow> Inl (ValueError ''invalid timestamp seconds'')
    | Some DNan \<Rightarrow> Inl ArithmeticError
    | Some (DInf neg) \<Rightarrow>
        Inl (if neg then ValueError ''timestamp seconds cannot be negative'' else ArithmeticError)
    | Some (DFin x) \<Rightarrow>
        if x < 0 then Inl (ValueError ''timestamp seconds cannot be negative'')
        else let ms = \<lfloor>x * 1000 + 1/2\<rfloor>
             in if 10 ^ 28 \<le> ms then Inl ArithmeticError else Inr ms)"

lemma seconds_to_ms_Inr:
  "seconds_to_ms v = Inr ms \<longleftrightarrow>
     (\<exists>x. decimal_of v = Some (DFin x) \<and> 0 \<le> x \<and> ms = \<lfloor>x * 1000 + 1/2\<rfloor> \<and> ms < 10 ^ 28)"
  by (auto simp: seconds_to_ms_def Let_def split: option.splits dec.splits if_splits)

lemma seconds_to_ms_nonneg: "seconds_to_ms v = Inr ms \<Longrightarrow> 0 \<le> ms"
  by (auto simp: seconds_to_ms_Inr)

subsection \<open>Segments\<close>

definition py_str :: "(json \<Rightarrow> string) \<Rightarrow> json \<Rightarrow> string" where
  "py_str repr v = (case v of
      JStr s \<Rightarrow> s
    | JInt i \<Rightarrow> int_str i
    | JNull \<Rightarrow> ''None''
    | JBool b \<Rightarrow> (if b then ''True'' else ''False'')
    | _ \<Rightarrow> repr v)"

definition mk_segment ::
  "string \<Rightarrow> int \<Rightarrow> int \<Rightarrow> string \<Rightarrow> string option \<Rightarrow> (py_error, TranscriptSegment) result" where
  "mk_segment sid s e txt lbl =
     (let seg = \<lparr>ts_segment_id = sid, ts_start_ms = s, ts_end_ms = e, ts_text = txt,
                  ts_provider_speaker_label = lbl\<rparr>
      in if valid_segment seg then Inr seg else Inl (ValueError ''invalid transcript segment''))"

lemma mk_segment_Inr:
  "mk_segment sid s e txt lbl = Inr seg \<longleftrightarrow>
     seg = \<lparr>ts_segment_id = sid, ts_start_ms = s, ts_end_ms = e, ts_text = txt,
            ts_provider_speaker_label = lbl\<rparr> \<and> valid_segment seg"
  by (auto simp: mk_segment_def Let_def)

definition raw_start :: "(string \<times> json) list \<Rightarrow> json" where
  "raw_start kvs = obj_get kvs ''start_time'' (obj_get kvs ''start'' JNull)"

definition raw_end :: "(string \<times> json) list \<Rightarrow> json" where
  "raw_end kvs = obj_get kvs ''end_time'' (obj_get kvs ''end'' JNull)"

definition raw_text :: "(json \<Rightarrow> string) \<Rightarrow> (string \<times> json) list \<Rightarrow> string" where
  "raw_text repr kvs = py_str repr (obj_get kvs ''sentence'' (obj_get kvs ''text'' (JStr [])))"

definition raw_speaker :: "(json \<Rightarrow> string) \<Rightarrow> (string \<times> json) list \<Rightarrow> string option" where
  "raw_speaker repr kvs =
     (case obj_get kvs ''speaker'' JNull of JNull \<Rightarrow> None | v \<Rightarrow> Some (py_str repr v))"

definition raw_id :: "(json \<Rightarrow> string) \<Rightarrow> nat \<Rightarrow> (string \<times> json) list \<Rightarrow> string" where
  "raw_id repr index kvs = py_str repr (obj_get kvs ''id'' (JInt (int index)))"

text \<open>The loop of \<^verbatim>\<open>normalize_speakr_segments\<close> from segment number \<open>index\<close> on, with the
  segment ids seen so far.\<close>

fun normalize_from ::
  "(json \<Rightarrow> string) \<Rightarrow> nat \<Rightarrow> string list \<Rightarrow> json list \<Rightarrow>
   (py_error, TranscriptSegment list) result" where
  "normalize_from repr index ids [] = Inr []"
| "normalize_from repr index ids (raw # raws) = (case raw of
      JObj kvs \<Rightarrow>
        if raw_start kvs = JNull \<or> raw_end kvs = JNull
        then Inl (ValueError ''segment omits start/end timestamps'')
        else rbind (seconds_to_ms (raw_start kvs)) (\<lambda>start_ms.
             rbind (seconds_to_ms (raw_end kvs)) (\<lambda>end_ms.
               if end_ms = start_ms then normalize_from repr (Suc index) ids raws
               else if raw_id repr index kvs \<in> set ids
               then Inl (ValueError ''duplicate segment id'')
               else rbind (mk_segment (raw_id repr index kvs) start_ms end_ms
                             (raw_text repr kvs) (raw_speaker repr kvs)) (\<lambda>seg.
                    rbind (normalize_from repr (Suc index) (raw_id repr index kvs # ids) raws)
                      (\<lambda>rest. Inr (seg # rest)))))
    | _ \<Rightarrow> Inl (ValueError ''segment is not an object''))"

definition normalize_speakr_segments ::
  "(json \<Rightarrow> string) \<Rightarrow> json list \<Rightarrow> (py_error, TranscriptSegment list) result" where
  "normalize_speakr_segments repr raws =
     rbind (normalize_from repr 0 [] raws) (\<lambda>normalized.
       if raws \<noteq> [] \<and> normalized = []
       then Inl (ValueError ''every transcript segment had zero length'')
       else Inr normalized)"

subsection \<open>Canonical JSON\<close>

definition hex_char :: "nat \<Rightarrow> char" where
  "hex_char n = (if n < 10 then char_of (48 + n) else char_of (87 + n))"

definition json_esc :: "char \<Rightarrow> string" where
  "json_esc c =
     (if c = CHR 0x22 then [CHR 0x5C, CHR 0x22]
      else if c = CHR 0x5C then [CHR 0x5C, CHR 0x5C]
      else if c = CHR 0x0A then [CHR 0x5C, CHR ''n'']
      else if c = CHR 0x0D then [CHR 0x5C, CHR ''r'']
      else if c = CHR 0x09 then [CHR 0x5C, CHR ''t'']
      else if c = CHR 0x0C then [CHR 0x5C, CHR ''f'']
      else if c = CHR 0x08 then [CHR 0x5C, CHR ''b'']
      else if (of_char c :: nat) < 32
      then [CHR 0x5C, CHR ''u'', CHR ''0'', CHR ''0'',
            hex_char ((of_char c :: nat) div 16), hex_char ((of_char c :: nat) mod 16)]
      else [c])"

definition json_str :: "string \<Rightarrow> string" where
  "json_str s = CHR 0x22 # concat (map json_esc s) @ [CHR 0x22]"

definition json_opt_str :: "string option \<Rightarrow> string" where
  "json_opt_str v = (case v of None \<Rightarrow> ''null'' | Some s \<Rightarrow> json_str s)"

definition segment_json :: "TranscriptSegment \<Rightarrow> string" where
  "segment_json g =
     ''{'' @ json_str ''end_ms'' @ '':'' @ int_str (ts_end_ms g) @ '','' @
     json_str ''provider_speaker_label'' @ '':'' @ json_opt_str (ts_provider_speaker_label g) @ '','' @
     json_str ''segment_id'' @ '':'' @ json_str (ts_segment_id g) @ '','' @
     json_str ''start_ms'' @ '':'' @ int_str (ts_start_ms g) @ '','' @
     json_str ''text'' @ '':'' @ json_str (ts_text g) @ ''}''"

definition canonical_json :: "TranscriptSegment list \<Rightarrow> string" where
  "canonical_json gs = ''['' @ py_join '','' (map segment_json gs) @ '']''"

definition transcript_sha256 :: "(string \<Rightarrow> string) \<Rightarrow> TranscriptSegment list \<Rightarrow> string" where
  "transcript_sha256 sha256 gs = sha256 (canonical_json gs)"

subsection \<open>Reference definition of the import\<close>

text \<open>What a raw segment, by itself, contributes to the transcript.\<close>

definition keep_segment :: "(json \<Rightarrow> string) \<Rightarrow> nat \<times> json \<Rightarrow> TranscriptSegment option" where
  "keep_segment repr p = (case p of (i, JObj kvs) \<Rightarrow>
      (case (seconds_to_ms (raw_start kvs), seconds_to_ms (raw_end kvs)) of
         (Inr s, Inr e) \<Rightarrow>
           if s = e then None
           else Some \<lparr>ts_segment_id = raw_id repr i kvs, ts_start_ms = s, ts_end_ms = e,
                      ts_text = raw_text repr kvs,
                      ts_provider_speaker_label = raw_speaker repr kvs\<rparr>
       | _ \<Rightarrow> None)
    | _ \<Rightarrow> None)"

subsection \<open>Facts\<close>

lemma seconds_to_ms_mono:
  assumes "seconds_to_ms v = Inr m" "seconds_to_ms w = Inr n"
    and "decimal_of v = Some (DFin x)" "decimal_of w = Some (DFin y)" "x \<le> y"
  shows "m \<le> n"
  using assms by (auto simp: seconds_to_ms_Inr intro!: floor_mono)

lemma seconds_to_ms_exact:
  assumes "decimal_of v = Some (DFin (of_int n / 1000))" "0 \<le> n" "n < 10 ^ 28"
  shows "seconds_to_ms v = Inr n"
proof -
  have "\<lfloor>(of_int n :: rat) + 1/2\<rfloor> = n" by (simp add: floor_eq_iff)
  with assms show ?thesis by (simp add: seconds_to_ms_def Let_def)
qed

lemma seconds_to_ms_error:
  assumes "seconds_to_ms v = Inr ms" "decimal_of v = Some (DFin x)"
  shows "\<bar>of_int ms - 1000 * x\<bar> \<le> 1/2"
proof -
  from assms have "ms = \<lfloor>x * 1000 + 1/2\<rfloor>" by (auto simp: seconds_to_ms_Inr)
  then have "of_int ms \<le> x * 1000 + 1/2" "x * 1000 + 1/2 < of_int ms + 1" by linarith+
  then show ?thesis by linarith
qed

lemma normalize_from_spec:
  "normalize_from repr i ids raws = Inr segs \<Longrightarrow>
     segs = List.map_filter (keep_segment repr) (enumerate i raws) \<and>
     list_all valid_segment segs \<and>
     distinct (map ts_segment_id segs) \<and> set (map ts_segment_id segs) \<inter> set ids = {}"
proof (induction repr i ids raws arbitrary: segs rule: normalize_from.induct)
  case (1 repr index ids)
  then show ?case by (simp add: List.map_filter_def)
next
  case (2 repr index ids raw raws)
  show ?case
  proof (cases "\<exists>kvs. raw = JObj kvs")
    case False
    with "2.prems" show ?thesis by (cases raw) auto
  next
    case True
    then obtain kvs where raw: "raw = JObj kvs" by blast
    with "2.prems" obtain s e where se: "seconds_to_ms (raw_start kvs) = Inr s"
      "seconds_to_ms (raw_end kvs) = Inr e" "raw_start kvs \<noteq> JNull" "raw_end kvs \<noteq> JNull"
      by (auto split: if_splits)
    show ?thesis
    proof (cases "s = e")
      case True
      with raw se "2.prems" have "normalize_from repr (Suc index) ids raws = Inr segs" by simp
      note IH = "2.IH"(1) [OF raw _ True [symmetric] this]
      have "keep_segment repr (index, raw) = None" using raw se True by (simp add: keep_segment_def)
      with IH se(3,4) show ?thesis by (auto simp: List.map_filter_simps)
    next
      case False
      with raw se "2.prems" obtain seg rest where
        *: "raw_id repr index kvs \<notin> set ids"
          "mk_segment (raw_id repr index kvs) s e (raw_text repr kvs) (raw_speaker repr kvs) = Inr seg"
          "normalize_from repr (Suc index) (raw_id repr index kvs # ids) raws = Inr rest"
          "segs = seg # rest"
        by (auto split: if_splits)
      from "2.IH"(2) [OF raw _ False [THEN not_sym] *(1) *(3)] se(3,4) have
        "rest = List.map_filter (keep_segment repr) (enumerate (Suc index) raws)"
        "list_all valid_segment rest" "distinct (map ts_segment_id rest)"
        "set (map ts_segment_id rest) \<inter> set (raw_id repr index kvs # ids) = {}"
        by auto
      moreover have "keep_segment repr (index, raw) = Some seg" "valid_segment seg"
        "ts_segment_id seg = raw_id repr index kvs"
        using raw se False *(2) by (auto simp: keep_segment_def mk_segment_Inr)
      ultimately show ?thesis using *(1,4) by (auto simp: List.map_filter_simps)
    qed
  qed
qed

lemma normalize_from_total:
  assumes "\<And>i raw. (i, raw) \<in> set (enumerate k raws) \<Longrightarrow>
     \<exists>kvs s e. raw = JObj kvs \<and> map_of kvs ''id'' = None \<and> raw_start kvs \<noteq> JNull \<and> raw_end kvs \<noteq> JNull \<and>
       seconds_to_ms (raw_start kvs) = Inr s \<and> seconds_to_ms (raw_end kvs) = Inr e \<and> s \<le> e"
    and "\<And>i. i \<in> set ids \<Longrightarrow> \<exists>j<k. i = nat_str j"
  shows "\<exists>segs. normalize_from repr k ids raws = Inr segs"
  using assms
proof (induction raws arbitrary: k ids)
  case Nil
  then show ?case by simp
next
  case (Cons raw raws)
  from Cons.prems(1) [of k raw] obtain kvs s e where
    raw: "raw = JObj kvs" "map_of kvs ''id'' = None" "raw_start kvs \<noteq> JNull" "raw_end kvs \<noteq> JNull"
      "seconds_to_ms (raw_start kvs) = Inr s" "seconds_to_ms (raw_end kvs) = Inr e" "s \<le> e"
    by auto
  have rid: "raw_id repr k kvs = nat_str k"
    using raw(2) by (simp add: raw_id_def obj_get_def py_str_def int_str_def)
  have fresh: "nat_str k \<notin> set ids" using Cons.prems(2) by (auto dest: nat_str_inj)
  have ids: "\<exists>segs. normalize_from repr (Suc k) ids' raws = Inr segs"
    if "set ids' \<subseteq> insert (nat_str k) (set ids)" for ids'
    using that Cons.prems by (intro Cons.IH) (auto, metis lessI, metis Cons.prems(2) less_SucI in_mono insertE lessI)
  from ids [of ids] ids [of "nat_str k # ids"] raw rid fresh seconds_to_ms_nonneg [OF raw(5)]
  show ?case by (auto simp: mk_segment_def valid_segment_def)
qed

subsection \<open>The canonical form identifies a transcript\<close>

lemma hex_char_inj: "hex_char a = hex_char b \<Longrightarrow> a < 16 \<Longrightarrow> b < 16 \<Longrightarrow> a = b"
proof -
  assume eq: "hex_char a = hex_char b" and lt: "a < 16" "b < 16"
  from eq have "(of_char (hex_char a) :: nat) = of_char (hex_char b)" by simp
  with lt show "a = b" by (auto simp: hex_char_def split: if_splits)
qed

lemma json_esc_control_inj:
  assumes "(of_char c :: nat) < 32" "(of_char d :: nat) < 32"
    "hex_char ((of_char c :: nat) div 16) = hex_char ((of_char d :: nat) div 16)"
    "hex_char ((of_char c :: nat) mod 16) = hex_char ((of_char d :: nat) mod 16)"
  shows "c = d"
proof -
  from assms hex_char_inj have "(of_char c :: nat) div 16 = of_char d div 16" by simp
  moreover from assms hex_char_inj have "(of_char c :: nat) mod 16 = of_char d mod 16" by simp
  ultimately have "(of_char c :: nat) = of_char d" by (metis div_mult_mod_eq)
  then show ?thesis by simp
qed

lemma json_esc_cancel: "json_esc c @ x = json_esc d @ y \<Longrightarrow> c = d \<and> x = y"
  by (auto simp: json_esc_def dest: json_esc_control_inj split: if_splits)

lemma json_esc_not_quote [simp]: "json_esc c @ x \<noteq> CHR 0x22 # y" "CHR 0x22 # y \<noteq> json_esc c @ x"
  by (auto simp: json_esc_def)

lemma json_str_cancel: "json_str s @ x = json_str t @ y \<longleftrightarrow> s = t \<and> x = y"
proof -
  have "concat (map json_esc s) @ CHR 0x22 # x = concat (map json_esc t) @ CHR 0x22 # y \<Longrightarrow>
      s = t \<and> x = y"
  proof (induction s arbitrary: t)
    case Nil
    then show ?case by (cases t) auto
  next
    case (Cons c s)
    then show ?case by (cases t) (auto dest: json_esc_cancel)
  qed
  then show ?thesis by (auto simp: json_str_def)
qed

lemma json_opt_str_cancel: "json_opt_str s @ x = json_opt_str t @ y \<longleftrightarrow> s = t \<and> x = y"
  by (cases s; cases t) (auto simp: json_opt_str_def json_str_cancel, auto simp: json_str_def)

abbreviation numeric :: "char \<Rightarrow> bool" where
  "numeric c \<equiv> is_digit c \<or> c = CHR ''-''"

lemma digit_char_digit: "d < 10 \<Longrightarrow> is_digit (digit_char d)"
  by (simp add: digit_char_def is_digit_def)

lemma nat_str_digits: "c \<in> set (nat_str n) \<Longrightarrow> is_digit c"
  by (induction n rule: nat_str.induct)
    (subst (asm) (2) nat_str.simps, auto simp: digit_char_digit split: if_splits)

lemma int_str_numeric: "c \<in> set (int_str i) \<Longrightarrow> numeric c"
  by (auto simp: int_str_def dest: nat_str_digits split: if_splits)

lemma minus_not_digit [simp]: "\<not> is_digit (CHR ''-'')"
  by (simp add: is_digit_def)

lemma int_str_inj: "int_str i = int_str j \<Longrightarrow> i = j"
  by (auto simp: int_str_def split: if_splits dest!: nat_str_inj)
    (metis list.set_intros(1) minus_not_digit nat_str_digits)+

lemma int_str_cancel:
  assumes "int_str i @ c # x = int_str j @ d # y" "\<not> numeric c" "\<not> numeric d"
  shows "i = j \<and> c = d \<and> x = y"
proof -
  have "takeWhile numeric (int_str i @ c # x) = int_str i" "takeWhile numeric (int_str j @ d # y) = int_str j"
    using assms(2,3) by (simp_all add: int_str_numeric takeWhile_append2)
  with assms(1) have "int_str i = int_str j" by metis
  with assms(1) show ?thesis by (auto dest: int_str_inj)
qed

lemma segment_json_cancel: "segment_json g @ x = segment_json h @ y \<Longrightarrow> g = h \<and> x = y"
proof -
  assume "segment_json g @ x = segment_json h @ y"
  then have *: "int_str (ts_end_ms g) @ CHR '','' # json_str ''provider_speaker_label'' @ CHR '':'' #
       json_opt_str (ts_provider_speaker_label g) @ CHR '','' # json_str ''segment_id'' @ CHR '':'' #
       json_str (ts_segment_id g) @ CHR '','' # json_str ''start_ms'' @ CHR '':'' #
       int_str (ts_start_ms g) @ CHR '','' # json_str ''text'' @ CHR '':'' #
       json_str (ts_text g) @ CHR ''}'' # x =
     int_str (ts_end_ms h) @ CHR '','' # json_str ''provider_speaker_label'' @ CHR '':'' #
       json_opt_str (ts_provider_speaker_label h) @ CHR '','' # json_str ''segment_id'' @ CHR '':'' #
       json_str (ts_segment_id h) @ CHR '','' # json_str ''start_ms'' @ CHR '':'' #
       int_str (ts_start_ms h) @ CHR '','' # json_str ''text'' @ CHR '':'' #
       json_str (ts_text h) @ CHR ''}'' # y"
    by (simp add: segment_json_def)
  have comma: "\<not> numeric (CHR '','')" by (simp add: is_digit_def)
  from int_str_cancel [OF * comma comma] have e: "ts_end_ms g = ts_end_ms h"
    and **: "int_str (ts_start_ms g) @ CHR '','' # json_str ''text'' @ CHR '':'' #
       json_str (ts_text g) @ CHR ''}'' # x =
       int_str (ts_start_ms h) @ CHR '','' # json_str ''text'' @ CHR '':'' #
       json_str (ts_text h) @ CHR ''}'' # y"
    and f: "ts_provider_speaker_label g = ts_provider_speaker_label h" "ts_segment_id g = ts_segment_id h"
    by (auto simp: json_str_cancel json_opt_str_cancel)
  from int_str_cancel [OF ** comma comma] e f show ?thesis
    by (auto simp: json_str_cancel)
qed

lemma segment_json_hd: "\<exists>r. segment_json g = CHR ''{'' # r"
  by (simp add: segment_json_def)

lemma joined_json_hd:
  assumes "gs \<noteq> []"
  shows "\<exists>r. py_join '','' (map segment_json gs) = CHR ''{'' # r"
proof -
  from assms obtain g gs' where gs: "gs = g # gs'" by (cases gs) auto
  obtain r where "segment_json g = CHR ''{'' # r" using segment_json_hd by blast
  with gs show ?thesis by (cases gs') auto
qed

lemma segments_json_cancel:
  "py_join '','' (map segment_json gs) @ '']'' = py_join '','' (map segment_json hs) @ '']'' \<Longrightarrow> gs = hs"
proof (induction gs arbitrary: hs)
  case Nil
  then show ?case using joined_json_hd [of hs] by (cases "hs = []") auto
next
  case (Cons g gs)
  show ?case
  proof (cases hs)
    case Nil
    with Cons.prems joined_json_hd [of "g # gs"] show ?thesis by auto
  next
    case (Cons h hs')
    obtain x where x: "py_join '','' (map segment_json (g # gs)) @ '']'' = segment_json g @ x"
      "x = (if gs = [] then '']'' else '','' @ py_join '','' (map segment_json gs) @ '']'')"
      by (cases gs) auto
    obtain y where y: "py_join '','' (map segment_json hs) @ '']'' = segment_json h @ y"
      "y = (if hs' = [] then '']'' else '','' @ py_join '','' (map segment_json hs') @ '']'')"
      using Cons by (cases hs') auto
    have "segment_json g @ x = segment_json h @ y"
      unfolding x(1) [symmetric] y(1) [symmetric] by (rule Cons.prems)
    then have gh: "g = h" "x = y" using segment_json_cancel by blast+
    have "gs = hs'"
    proof (cases "gs = [] \<or> hs' = []")
      case True
      with gh(2) x(2) y(2) show ?thesis by (auto split: if_splits)
    next
      case False
      with gh(2) x(2) y(2) show ?thesis by (intro Cons.IH) simp
    qed
    with gh(1) Cons show ?thesis by simp
  qed
qed

lemma canonical_json_inj: "canonical_json gs = canonical_json hs \<Longrightarrow> gs = hs"
  by (rule segments_json_cancel) (simp add: canonical_json_def)
lemma seconds_to_ms_JNull [simp]: "seconds_to_ms JNull = Inl (ValueError ''invalid timestamp seconds'')"
  by (simp add: seconds_to_ms_def decimal_of_def)

lemma map_filter_nonempty: "x \<in> set xs \<Longrightarrow> f x = Some y \<Longrightarrow> List.map_filter f xs \<noteq> []"
  by (induction xs) (auto simp: List.map_filter_simps split: option.splits)

lemma seconds_to_ms_JInt:
  assumes "0 \<le> i" "i < 10 ^ 25"
  shows "seconds_to_ms (JInt i) = Inr (1000 * i)"
  using assms by (intro seconds_to_ms_exact) (simp_all add: decimal_of_def)

subsection \<open>Properties\<close>

text \<open>A finite timestamp is imported to within half a millisecond, whole milliseconds
  exactly, and later instants never get an earlier millisecond.\<close>

theorem seconds_to_ms_correct:
  assumes "decimal_of v = Some (DFin x)" "decimal_of w = Some (DFin y)"
    and "seconds_to_ms v = Inr m" "seconds_to_ms w = Inr n"
  shows "\<bar>of_int m - 1000 * x\<bar> \<le> 1/2 \<and> (x \<le> y \<longrightarrow> m \<le> n) \<and>
    (\<forall>k. x = of_int k / 1000 \<longrightarrow> m = k)"
proof (intro conjI allI impI)
  show "\<bar>of_int m - 1000 * x\<bar> \<le> 1/2" by (rule seconds_to_ms_error [OF assms(3,1)])
  show "m \<le> n" if "x \<le> y" by (rule seconds_to_ms_mono [OF assms(3,4,1,2) that])
  fix k assume k: "x = of_int k / 1000"
  have "x * 1000 = of_int k" using k by simp
  then have "\<lfloor>x * 1000 + 1/2\<rfloor> = k" by (simp add: floor_eq_iff)
  with assms(1,3) show "m = k" by (auto simp: seconds_to_ms_Inr)
qed

text \<open>C25: an imported transcript is exactly the raw segments of non-zero length, in their
  order, each with the identifier of its own position; identifiers are unique, every segment
  satisfies the contract, and only an empty input gives an empty transcript.\<close>

theorem normalize_speakr_segments_spec:
  assumes "normalize_speakr_segments repr raws = Inr segs"
  shows "segs = List.map_filter (keep_segment repr) (enumerate 0 raws) \<and>
    list_all valid_segment segs \<and> distinct (map ts_segment_id segs) \<and> (segs = [] \<longleftrightarrow> raws = [])"
proof -
  from assms have n: "normalize_from repr 0 [] raws = Inr segs" and e: "\<not> (raws \<noteq> [] \<and> segs = [])"
    by (auto simp: normalize_speakr_segments_def split: if_splits)
  from e n have "segs = [] \<longleftrightarrow> raws = []" by (cases raws) auto
  with normalize_from_spec [OF n] show ?thesis by metis
qed

theorem normalize_speakr_segments_spec_witness:
  "map ts_segment_id (List.map_filter (keep_segment (\<lambda>_. []))
     (enumerate 0 [JObj [(''start_time'', JInt 3), (''end_time'', JInt 3)],
        JObj [(''start'', JInt 4), (''end'', JInt 5)]])) = [''1'']"
proof -
  let ?raws = "[JObj [(''start_time'', JInt 3), (''end_time'', JInt 3)],
        JObj [(''start'', JInt 4), (''end'', JInt 5)]]"
  have s: "normalize_speakr_segments (\<lambda>_. []) ?raws =
      Inr [\<lparr>ts_segment_id = ''1'', ts_start_ms = 4000, ts_end_ms = 5000, ts_text = [],
            ts_provider_speaker_label = None\<rparr>]"
    by (simp add: normalize_speakr_segments_def raw_start_def raw_end_def raw_text_def raw_id_def
        raw_speaker_def obj_get_def seconds_to_ms_JInt py_str_def mk_segment_def
        valid_segment_def int_str_def nat_str_digit)
  show ?thesis
    unfolding normalize_speakr_segments_spec [OF s, THEN conjunct1, symmetric] by simp
qed

text \<open>A provider transcript without explicit ids, whose segments are objects with
  readable timestamps that do not run backwards and are not all of zero length, is always
  imported: position numbers never collide.\<close>

theorem normalize_speakr_segments_total:
  assumes "\<And>raw. raw \<in> set raws \<Longrightarrow> \<exists>kvs s e. raw = JObj kvs \<and> map_of kvs ''id'' = None \<and>
      seconds_to_ms (raw_start kvs) = Inr s \<and> seconds_to_ms (raw_end kvs) = Inr e \<and> s \<le> e"
    and "raws = [] \<or> (\<exists>kvs s e. JObj kvs \<in> set raws \<and>
      seconds_to_ms (raw_start kvs) = Inr s \<and> seconds_to_ms (raw_end kvs) = Inr e \<and> s \<noteq> e)"
  shows "\<exists>segs. normalize_speakr_segments repr raws = Inr segs"
proof -
  have "\<exists>segs. normalize_from repr 0 [] raws = Inr segs"
  proof (rule normalize_from_total)
    fix i raw assume "(i, raw) \<in> set (enumerate 0 raws)"
    then have "raw \<in> set raws" by (rule enumerate_value)
    from assms(1) [OF this] show "\<exists>kvs s e. raw = JObj kvs \<and> map_of kvs ''id'' = None \<and>
      raw_start kvs \<noteq> JNull \<and> raw_end kvs \<noteq> JNull \<and>
      seconds_to_ms (raw_start kvs) = Inr s \<and> seconds_to_ms (raw_end kvs) = Inr e \<and> s \<le> e"
      by (metis Inl_Inr_False seconds_to_ms_JNull)
  qed simp
  then obtain segs where segs: "normalize_from repr 0 [] raws = Inr segs" by blast
  have "raws = [] \<or> segs \<noteq> []"
  proof (cases "raws = []")
    case False
    with assms(2) obtain kvs s e where k: "JObj kvs \<in> set raws"
      "seconds_to_ms (raw_start kvs) = Inr s" "seconds_to_ms (raw_end kvs) = Inr e" "s \<noteq> e" by blast
    from enumerate_index [OF k(1)] obtain i where i: "(i, JObj kvs) \<in> set (enumerate 0 raws)"
      by blast
    from k have "\<exists>y. keep_segment repr (i, JObj kvs) = Some y" by (simp add: keep_segment_def)
    with i map_filter_nonempty normalize_from_spec [OF segs] show ?thesis by metis
  qed simp
  with segs show ?thesis by (auto simp: normalize_speakr_segments_def)
qed

text \<open>C26: two transcripts have the same canonical JSON, the text that is hashed into the
  revision's identity, only if they are the same segments.\<close>

theorem canonical_json_identifies:
  "canonical_json gs = canonical_json hs \<longleftrightarrow> gs = hs"
  by (auto dest: canonical_json_inj)

end
