(* ===== verification/Services.thy ===== *)
theory Services
  imports Session_State Transcripts
begin

text \<open>
  The shared services of \<^verbatim>\<open>evidence_api/services.py\<close>: reconciliation of a fetched transcript
  into an immutable revision, evidence validation, ledger entries, jobs, the durable marker of
  a pending provider operation, and the deletion tombstone and compensation records. Each
  service is a function from the database (and the session row the caller holds) to its result
  and the new database; the caller flushes the session row.
\<close>

definition AMBIGUOUS_OPERATION_ERROR_CODE :: string where
  "AMBIGUOUS_OPERATION_ERROR_CODE = ''ambiguous_provider_operation''"

subsection \<open>Response models\<close>

definition entries_of :: "db \<Rightarrow> string \<Rightarrow> string option \<Rightarrow> LedgerEntryRecord list" where
  "entries_of d sid rid =
     filter (\<lambda>e. e_session_id e = sid \<and> Some (e_transcript_revision_id e) = rid) (db_entries d)"

definition session_response :: "db \<Rightarrow> SessionRecord \<Rightarrow> SessionResponse" where
  "session_response d r =
     (let ledger = entries_of d (s_id r) (s_current_transcript_revision_id r)
      in \<lparr>sr_id = s_id r, sr_title = s_title r, sr_state = s_state r,
          sr_recorded_at = s_recorded_at r, sr_duration_ms = s_duration_ms r,
          sr_original_filename = s_original_filename r, sr_media_sha256 = s_media_sha256 r,
          sr_speakr_recording_id = s_speakr_recording_id r,
          sr_current_transcript_revision_id = s_current_transcript_revision_id r,
          sr_last_reconciled_at = s_last_reconciled_at r, sr_last_error = s_last_error r,
          sr_playback_url =
            (if truthy (s_media_path r) then Some (''/api/sessions/'' @ s_id r @ ''/media'')
             else None),
          sr_ledger_entry_count = length ledger,
          sr_reviewed_ledger_entry_count =
            length (filter (\<lambda>e. reviewed (e_verification_status e)) ledger),
          sr_created_at = s_created_at r, sr_updated_at = s_updated_at r\<rparr>)"

definition job_response :: "JobRecord \<Rightarrow> JobResponse" where
  "job_response j =
     \<lparr>jr_id = j_id j, jr_session_id = j_session_id j, jr_type = j_type j,
      jr_status = j_status j, jr_attempts = j_attempts j, jr_max_attempts = j_max_attempts j,
      jr_error_code = j_error_code j, jr_error_message = j_error_message j,
      jr_created_at = j_created_at j, jr_updated_at = j_updated_at j\<rparr>"

definition revision_response ::
  "TranscriptRevisionRecord \<Rightarrow> (py_error, TranscriptRevisionResponse) result" where
  "revision_response r =
     (if list_all valid_segment (r_segments r)
      then Inr \<lparr>tr_id = r_id r, tr_session_id = r_session_id r, tr_sha256 = r_sha256 r,
                tr_segments = r_segments r, tr_source = r_source r, tr_created_at = r_created_at r\<rparr>
      else Inl (ValueError ''invalid transcript segment''))"

definition ledger_response :: "LedgerEntryRecord \<Rightarrow> LedgerEntryResponse" where
  "ledger_response e =
     \<lparr>le_topic = e_topic e, le_exact_coach_feedback = e_exact_coach_feedback e,
      le_interpretation = e_interpretation e, le_applies_to = e_applies_to e,
      le_song_passage_measure = e_song_passage_measure e,
      le_problem_heard_before = e_problem_heard_before e,
      le_exercise_or_requested_change = e_exercise_or_requested_change e,
      le_observed_result = e_observed_result e,
      le_next_action_and_owner = e_next_action_and_owner e,
      le_unresolved_question = e_unresolved_question e,
      le_confidence = of_int (e_confidence_millis e) / 1000,
      le_evidence = e_evidence e, le_extraction_metadata = e_extraction_metadata e,
      lr_id = e_id e, lr_session_id = e_session_id e,
      lr_transcript_revision_id = e_transcript_revision_id e,
      lr_verification_status = e_verification_status e, lr_verified_by = e_verified_by e,
      lr_verified_at = e_verified_at e, lr_created_at = e_created_at e,
      lr_updated_at = e_updated_at e\<rparr>"

subsection \<open>Reconciliation\<close>

definition statuses_of :: "db \<Rightarrow> string \<Rightarrow> string option \<Rightarrow> VerificationStatus set" where
  "statuses_of d sid rid = e_verification_status ` set (entries_of d sid rid)"

text \<open>Superseding a revision sends the review of its entries back to the reviewers.\<close>

definition reopen_entry :: "int \<Rightarrow> LedgerEntryRecord \<Rightarrow> LedgerEntryRecord" where
  "reopen_entry now e =
     (let e' = e\<lparr>e_verification_status := V_NEEDS_REVIEW, e_verified_by := None,
                 e_verified_at := None\<rparr>
      in if e' = e then e else e'\<lparr>e_updated_at := now\<rparr>)"

definition reopen_entries :: "int \<Rightarrow> string \<Rightarrow> string option \<Rightarrow> db \<Rightarrow> db" where
  "reopen_entries now sid rid d =
     d\<lparr>db_entries := map (\<lambda>e. if e_session_id e = sid \<and> Some (e_transcript_revision_id e) = rid
                               then reopen_entry now e else e) (db_entries d)\<rparr>"

definition find_revision :: "db \<Rightarrow> string \<Rightarrow> string \<Rightarrow> TranscriptRevisionRecord option" where
  "find_revision d sid digest =
     find (\<lambda>r. r_session_id r = sid \<and> r_sha256 r = digest) (db_revisions d)"

text \<open>Where a session that was being reconciled goes when its transcript is already stored.\<close>

definition resume_existing ::
  "db \<Rightarrow> SessionRecord \<Rightarrow> TranscriptRevisionRecord \<Rightarrow> (py_error, SessionRecord) result" where
  "resume_existing d sess existing =
     (if s_state sess = S_RECONCILING
      then let statuses = statuses_of d (s_id sess) (Some (r_id existing))
           in if statuses = {} then transition sess S_TRANSCRIPT_READY
              else if statuses \<subseteq> {V_VERIFIED, V_REJECTED} then transition sess S_COMPLETE
              else transition sess S_AWAITING_REVIEW
      else Inr sess)"

definition adopt_new_revision ::
  "SessionRecord \<Rightarrow> string \<Rightarrow> (py_error, SessionRecord) result" where
  "adopt_new_revision sess rid =
     (let had_revision = s_current_transcript_revision_id sess \<noteq> None;
          sess' = sess\<lparr>s_current_transcript_revision_id := Some rid\<rparr>
      in if s_state sess' \<in> {S_TRANSCRIBING, S_RECONCILING}
         then transition sess' S_TRANSCRIPT_READY
         else if had_revision \<and> s_state sess' = S_COMPLETE
         then transition sess' S_AWAITING_REVIEW
         else Inr sess')"

definition reconcile_transcript_data ::
  "(json \<Rightarrow> string) \<Rightarrow> (string \<Rightarrow> string) \<Rightarrow> string \<Rightarrow> int \<Rightarrow> db \<Rightarrow> SessionRecord \<Rightarrow> json list \<Rightarrow>
   (py_error, TranscriptRevisionRecord \<times> bool \<times> SessionRecord \<times> db) result" where
  "reconcile_transcript_data repr sha256 new_id now d sess raw_segments =
     rbind (normalize_speakr_segments repr raw_segments) (\<lambda>segments.
       let digest = transcript_sha256 sha256 segments;
           sess1 = sess\<lparr>s_last_reconciled_at := Some now\<rparr>
       in case find_revision d (s_id sess) digest of
            Some existing \<Rightarrow>
              rbind (resume_existing d sess1 existing) (\<lambda>sess2. Inr (existing, False, sess2, d))
          | None \<Rightarrow>
              let revision = \<lparr>r_id = new_id, r_session_id = s_id sess, r_sha256 = digest,
                              r_segments = segments, r_source = ''speakr'', r_created_at = now\<rparr>;
                  d1 = d\<lparr>db_revisions := tbl_add (db_revisions d) revision\<rparr>;
                  previous = s_current_transcript_revision_id sess
              in rbind (adopt_new_revision sess1 new_id) (\<lambda>sess2.
                   Inr (revision, True, sess2,
                        if previous \<noteq> None then reopen_entries now (s_id sess) previous d1
                        else d1)))"

text \<open>\<^verbatim>\<open>reconcile_transcript\<close> fetches first; the adapter's answer is an argument.\<close>

definition reconcile_transcript ::
  "(json \<Rightarrow> string) \<Rightarrow> (string \<Rightarrow> string) \<Rightarrow> string \<Rightarrow> int \<Rightarrow> db \<Rightarrow> SessionRecord \<Rightarrow>
   (string \<Rightarrow> (py_error, json list) result) \<Rightarrow>
   (py_error, TranscriptRevisionRecord \<times> bool \<times> SessionRecord \<times> db) result" where
  "reconcile_transcript repr sha256 new_id now d sess get_transcript =
     (case s_speakr_recording_id sess of
        Some rid \<Rightarrow>
          if rid = [] then Inl (EvidenceValidationError ''session has no Speakr recording id'')
          else rbind (get_transcript rid)
                 (reconcile_transcript_data repr sha256 new_id now d sess)
      | None \<Rightarrow> Inl (EvidenceValidationError ''session has no Speakr recording id''))"

subsection \<open>Evidence\<close>

definition normalize_text :: "string \<Rightarrow> string" where
  "normalize_text v = casefold (strip (collapse_ws v))"

definition check_reference ::
  "db \<Rightarrow> SessionRecord \<Rightarrow> EvidenceReference \<Rightarrow> (py_error, string list) result" where
  "check_reference d sess ref =
     (case get_revision d (er_transcript_revision_id ref) of
        None \<Rightarrow> Inl (EvidenceValidationError
                  ''evidence transcript revision does not belong to the session'')
      | Some revision \<Rightarrow>
          if r_session_id revision \<noteq> s_id sess
          then Inl (EvidenceValidationError
                  ''evidence transcript revision does not belong to the session'')
          else if (case s_duration_ms sess of None \<Rightarrow> False | Some dur \<Rightarrow> dur < er_end_ms ref)
          then Inl (EvidenceValidationError ''evidence exceeds the recording duration'')
          else (case those (map (dict_by ts_segment_id (r_segments revision)) (er_segment_ids ref)) of
              None \<Rightarrow> Inl (EvidenceValidationError ''unknown evidence segment id'')
            | Some chosen \<Rightarrow>
                let lo = Min (set (map ts_start_ms chosen));
                    hi = Max (set (map ts_end_ms chosen))
                in if \<not> list_all (\<lambda>g. ts_start_ms g < er_end_ms ref \<and> er_start_ms ref < ts_end_ms g)
                          chosen
                   then Inl (EvidenceValidationError
                          ''every referenced segment must overlap the evidence time range'')
                   else if chosen = [] then Inl (ValueError ''min() arg is an empty sequence'')
                   else if er_start_ms ref < lo
                   then Inl (EvidenceValidationError
                          ''evidence starts before its earliest referenced segment'')
                   else if hi < er_end_ms ref
                   then Inl (EvidenceValidationError
                          ''evidence ends after its latest referenced segment'')
                   else if lo < er_start_ms ref
                   then Inl (EvidenceValidationError
                          ''evidence must start at the beginning of its earliest segment'')
                   else if er_end_ms ref < hi
                   then Inl (EvidenceValidationError
                          ''evidence must end at the end of its latest segment'')
                   else Inr (map ts_text chosen)))"

definition validate_evidence ::
  "db \<Rightarrow> SessionRecord \<Rightarrow> LedgerEntryCreate \<Rightarrow> (py_error, unit) result" where
  "validate_evidence d sess entry =
     (let revision_ids = remdups (map er_transcript_revision_id (le_evidence entry))
      in if length revision_ids \<noteq> 1
         then Inl (EvidenceValidationError
                ''all evidence references in an entry must use one transcript revision'')
         else if map Some revision_ids \<noteq> [s_current_transcript_revision_id sess]
         then Inl (EvidenceValidationError
                ''new ledger entries must reference the current transcript revision'')
         else rbind (map_result (check_reference d sess) (le_evidence entry)) (\<lambda>referenced.
                if truthy (le_exact_coach_feedback entry) \<and>
                   \<not> py_in (normalize_text (the (le_exact_coach_feedback entry)))
                       (normalize_text (py_join '' '' (concat referenced)))
                then Inl (EvidenceValidationError
                       ''exact_coach_feedback is not present in referenced transcript text'')
                else Inr ()))"

definition entry_row ::
  "string \<Rightarrow> int \<Rightarrow> string \<Rightarrow> string \<Rightarrow> LedgerEntryCreate \<Rightarrow> LedgerEntryRecord" where
  "entry_row new_id now sid rid entry =
     \<lparr>e_id = new_id, e_session_id = sid, e_transcript_revision_id = rid,
      e_topic = le_topic entry, e_exact_coach_feedback = le_exact_coach_feedback entry,
      e_interpretation = le_interpretation entry, e_applies_to = le_applies_to entry,
      e_song_passage_measure = le_song_passage_measure entry,
      e_problem_heard_before = le_problem_heard_before entry,
      e_exercise_or_requested_change = le_exercise_or_requested_change entry,
      e_observed_result = le_observed_result entry,
      e_next_action_and_owner = le_next_action_and_owner entry,
      e_unresolved_question = le_unresolved_question entry,
      e_confidence_millis = py_round (le_confidence entry * 1000),
      e_evidence = le_evidence entry, e_extraction_metadata = le_extraction_metadata entry,
      e_verification_status = V_UNVERIFIED, e_verified_by = None, e_verified_at = None,
      e_created_at = now, e_updated_at = now\<rparr>"

text \<open>Validation has established that the session has a current revision.\<close>

definition create_ledger_entry ::
  "string \<Rightarrow> int \<Rightarrow> db \<Rightarrow> SessionRecord \<Rightarrow> LedgerEntryCreate \<Rightarrow>
   (py_error, LedgerEntryRecord \<times> db) result" where
  "create_ledger_entry new_id now d sess entry =
     rbind (validate_evidence d sess entry) (\<lambda>_.
       let row = entry_row new_id now (s_id sess)
                   (the (s_current_transcript_revision_id sess)) entry
       in Inr (row, d\<lparr>db_entries := tbl_add (db_entries d) row\<rparr>))"

subsection \<open>Jobs\<close>

definition active_status :: "JobStatus \<Rightarrow> bool" where
  "active_status s \<longleftrightarrow> s \<in> {J_QUEUED, J_RUNNING}"

definition ensure_job ::
  "string \<Rightarrow> int \<Rightarrow> db \<Rightarrow> string \<Rightarrow> JobType \<Rightarrow> nat \<Rightarrow> JobRecord \<times> bool \<times> db" where
  "ensure_job new_id now d sid t max_attempts =
     (case find (\<lambda>j. j_session_id j = sid \<and> j_type j = t \<and> active_status (j_status j))
             (db_jobs d) of
        Some active \<Rightarrow> (active, False, d)
      | None \<Rightarrow>
          let job = new_job new_id now sid t max_attempts
          in (job, True, d\<lparr>db_jobs := tbl_add (db_jobs d) job\<rparr>))"

definition has_active_job :: "int \<Rightarrow> db \<Rightarrow> string \<Rightarrow> int \<Rightarrow> JobType option \<Rightarrow> bool" where
  "has_active_job now d sid lease_seconds t =
     (let cutoff = now - lease_seconds
      in list_ex (\<lambda>j. j_session_id j = sid \<and> j_status j = J_RUNNING \<and> cutoff \<le> j_updated_at j \<and>
            (case t of None \<Rightarrow> True | Some t' \<Rightarrow> j_type j = t')) (db_jobs d))"

definition has_running_pending_provider_operation :: "db \<Rightarrow> string \<Rightarrow> bool" where
  "has_running_pending_provider_operation d sid =
     list_ex (\<lambda>j. j_session_id j = sid \<and> j_type j = T_TRANSCRIBE \<and> j_status j = J_RUNNING \<and>
        list_ex (\<lambda>s. s_id s = j_session_id j \<and>
            s_pending_operation_kind s \<in> {Some ''upload'', Some ''queue_transcription''})
          (db_sessions d)) (db_jobs d)"

subsection \<open>The pending-operation marker\<close>

definition begin_pending_operation ::
  "string \<Rightarrow> int \<Rightarrow> SessionRecord \<Rightarrow> string \<Rightarrow> SessionRecord" where
  "begin_pending_operation operation_id now r kind =
     r\<lparr>s_pending_operation_kind := Some kind, s_pending_operation_id := Some operation_id,
       s_pending_operation_started_at := Some now\<rparr>"

definition clear_pending_operation :: "SessionRecord \<Rightarrow> SessionRecord" where
  "clear_pending_operation r =
     r\<lparr>s_pending_operation_kind := None, s_pending_operation_id := None,
       s_pending_operation_started_at := None\<rparr>"

subsection \<open>Deletion\<close>

definition new_tombstone :: "int \<Rightarrow> string \<Rightarrow> DeletionTombstoneRecord" where
  "new_tombstone now sid = \<lparr>d_session_id = sid, d_requested_at = now,
     d_compensated_recording_id = None, d_compensated_at = None\<rparr>"

definition record_deletion_intent :: "int \<Rightarrow> db \<Rightarrow> string \<Rightarrow> db" where
  "record_deletion_intent now d sid =
     (case tbl_get d_session_id (db_tombstones d) sid of
        None \<Rightarrow> d\<lparr>db_tombstones := tbl_add (db_tombstones d) (new_tombstone now sid)\<rparr>
      | Some _ \<Rightarrow> d)"

definition deletion_requested :: "db \<Rightarrow> string \<Rightarrow> bool" where
  "deletion_requested d sid \<longleftrightarrow> tbl_get d_session_id (db_tombstones d) sid \<noteq> None"

definition find_compensation :: "db \<Rightarrow> string \<Rightarrow> string \<Rightarrow> DeletionCompensationRecord option" where
  "find_compensation d sid rid =
     find (\<lambda>c. c_session_id c = sid \<and> c_recording_id c = rid) (db_compensations d)"

definition ensure_deletion_compensation ::
  "string \<Rightarrow> int \<Rightarrow> db \<Rightarrow> string \<Rightarrow> string \<Rightarrow> DeletionCompensationRecord \<times> db" where
  "ensure_deletion_compensation new_id now d sid rid =
     (let d1 = record_deletion_intent now d sid
      in case find_compensation d1 sid rid of
           Some c \<Rightarrow> (c, d1)
         | None \<Rightarrow>
             let c = \<lparr>c_id = new_id, c_session_id = sid, c_recording_id = rid,
                      c_status = C_PENDING, c_attempts = 0, c_error_code = None,
                      c_error_message = None, c_available_at = now, c_completed_at = None,
                      c_created_at = now\<rparr>
             in (c, d1\<lparr>db_compensations := tbl_add (db_compensations d1) c\<rparr>))"

definition has_pending_deletion_compensation :: "db \<Rightarrow> string \<Rightarrow> bool" where
  "has_pending_deletion_compensation d sid =
     list_ex (\<lambda>c. c_session_id c = sid \<and> c_status c \<noteq> C_SUCCEEDED) (db_compensations d)"

definition record_deletion_compensation :: "int \<Rightarrow> db \<Rightarrow> string \<Rightarrow> string \<Rightarrow> db" where
  "record_deletion_compensation now d sid rid =
     (let d1 = record_deletion_intent now d sid
      in d1\<lparr>db_tombstones :=
             map (\<lambda>t. if d_session_id t = sid
                      then t\<lparr>d_compensated_recording_id := Some rid, d_compensated_at := Some now\<rparr>
                      else t) (db_tombstones d1)\<rparr>)"

text \<open>
  A provider error carries a code and a message. The source searches
  \<^verbatim>\<open>\b404\b|not[_ -]found\<close> in the case-folded \<^verbatim>\<open>"{code} {message}"\<close>.
\<close>

record AdapterError =
  ae_code :: string
  ae_message :: string

definition word_char :: "char \<Rightarrow> bool" where
  "word_char c \<longleftrightarrow> is_digit c \<or> c = CHR ''_'' \<or>
     (97 \<le> (of_char (lower_char c) :: nat) \<and> (of_char (lower_char c) :: nat) \<le> 122)"

fun search_word :: "bool \<Rightarrow> string \<Rightarrow> string \<Rightarrow> bool" where
  "search_word boundary w [] \<longleftrightarrow> False"
| "search_word boundary w (c # cs) \<longleftrightarrow>
     (boundary \<and> prefix w (c # cs) \<and>
        (case drop (length w) (c # cs) of [] \<Rightarrow> True | x # _ \<Rightarrow> \<not> word_char x)) \<or>
     search_word (\<not> word_char c) w cs"

definition provider_deletion_not_found :: "AdapterError \<Rightarrow> bool" where
  "provider_deletion_not_found exc =
     (let code = casefold (ae_code exc); message = casefold (ae_message exc);
          full = code @ '' '' @ message
      in code \<in> {''not_found'', ''recording_not_found'', ''provider_not_found'', ''http_404''} \<or>
         search_word True ''404'' full \<or> py_in ''not_found'' full \<or> py_in ''not found'' full \<or>
         py_in ''not-found'' full)"

subsection \<open>Specification vocabulary and the example\<close>

definition cited :: "TranscriptSegment list \<Rightarrow> EvidenceReference \<Rightarrow> TranscriptSegment set" where
  "cited segs ref = {g \<in> set segs. ts_segment_id g \<in> set (er_segment_ids ref)}"

definition span_exact :: "TranscriptSegment list \<Rightarrow> EvidenceReference \<Rightarrow> bool" where
  "span_exact segs ref \<longleftrightarrow>
     set (er_segment_ids ref) \<subseteq> ts_segment_id ` set segs \<and>
     er_start_ms ref = Min (ts_start_ms ` cited segs ref) \<and>
     er_end_ms ref = Max (ts_end_ms ` cited segs ref)"

definition cited_text :: "TranscriptSegment list \<Rightarrow> EvidenceReference \<Rightarrow> string list" where
  "cited_text segs ref = map (\<lambda>i. ts_text (the (dict_by ts_segment_id segs i))) (er_segment_ids ref)"

definition quote_supported :: "string option \<Rightarrow> string list \<Rightarrow> bool" where
  "quote_supported quote texts \<longleftrightarrow>
     (truthy quote \<longrightarrow> py_in (normalize_text (the quote)) (normalize_text (py_join '' '' texts)))"

definition grounded ::
  "TranscriptRevisionRecord \<Rightarrow> EvidenceReference list \<Rightarrow> string option \<Rightarrow> bool" where
  "grounded rv refs quote \<longleftrightarrow>
     refs \<noteq> [] \<and>
     (\<forall>ref \<in> set refs. er_transcript_revision_id ref = r_id rv \<and> span_exact (r_segments rv) ref) \<and>
     quote_supported quote (concat (map (cited_text (r_segments rv)) refs))"

definition revision_ok :: "TranscriptRevisionRecord \<Rightarrow> bool" where
  "revision_ok rv \<longleftrightarrow>
     list_all valid_segment (r_segments rv) \<and> distinct (map ts_segment_id (r_segments rv))"

definition within_duration :: "SessionRecord \<Rightarrow> EvidenceReference \<Rightarrow> bool" where
  "within_duration sess ref \<longleftrightarrow>
     (case s_duration_ms sess of None \<Rightarrow> True | Some dur \<Rightarrow> er_end_ms ref \<le> dur)"

definition demo_segment :: TranscriptSegment where
  "demo_segment = \<lparr>ts_segment_id = ''s0'', ts_start_ms = 0, ts_end_ms = 1000,
     ts_text = ''Go low'', ts_provider_speaker_label = None\<rparr>"

definition demo_revision :: TranscriptRevisionRecord where
  "demo_revision = \<lparr>r_id = ''r1'', r_session_id = ''a'', r_sha256 = ''h'',
     r_segments = [demo_segment], r_source = ''speakr'', r_created_at = 5\<rparr>"

definition demo_session :: SessionRecord where
  "demo_session = (new_session ''a'' 1
      \<lparr>cs_title = ''Lesson'', cs_recorded_at = None, cs_duration_ms = None, cs_notes = None\<rparr>)
     \<lparr>s_state := S_TRANSCRIPT_READY, s_current_transcript_revision_id := Some ''r1''\<rparr>"

definition demo_db :: db where
  "demo_db = empty_db\<lparr>db_sessions := [demo_session], db_revisions := [demo_revision]\<rparr>"

definition demo_reference :: EvidenceReference where
  "demo_reference = \<lparr>er_transcript_revision_id = ''r1'', er_start_ms = 0, er_end_ms = 1000,
     er_segment_ids = [''s0'']\<rparr>"

definition demo_entry :: LedgerEntryCreate where
  "demo_entry = \<lparr>le_topic = ''Breath'', le_exact_coach_feedback = Some ''go  low'',
     le_interpretation = None, le_applies_to = None, le_song_passage_measure = None,
     le_problem_heard_before = None, le_exercise_or_requested_change = None,
     le_observed_result = None, le_next_action_and_owner = None, le_unresolved_question = None,
     le_confidence = 1, le_evidence = [demo_reference], le_extraction_metadata = []\<rparr>"

definition demo_raw :: "json list" where
  "demo_raw = [JObj [(''start'', JInt 4), (''end'', JInt 5)]]"

definition reopened :: "string \<Rightarrow> string \<Rightarrow> LedgerEntryRecord \<Rightarrow> LedgerEntryRecord \<Rightarrow> bool" where
  "reopened sid old e e' \<longleftrightarrow>
     (if e_session_id e = sid \<and> e_transcript_revision_id e = old
      then e' = e\<lparr>e_verification_status := V_NEEDS_REVIEW, e_verified_by := None,
                  e_verified_at := None, e_updated_at := e_updated_at e'\<rparr>
      else e' = e)"

definition active_jobs :: "db \<Rightarrow> string \<Rightarrow> JobType \<Rightarrow> JobRecord list" where
  "active_jobs d sid t =
     filter (\<lambda>j. j_session_id j = sid \<and> j_type j = t \<and> active_status (j_status j)) (db_jobs d)"

lemma chosen_lookup:
  assumes "those (map (dict_by ts_segment_id segs) ids) = Some chosen"
  shows "chosen = map (\<lambda>i. the (dict_by ts_segment_id segs i)) ids" "set ids \<subseteq> ts_segment_id ` set segs"
proof -
  from assms have eq: "map (dict_by ts_segment_id segs) ids = map Some chosen" by (simp add: those_eq_Some)
  then have "map the (map (dict_by ts_segment_id segs) ids) = map the (map Some chosen)" by simp
  then show "chosen = map (\<lambda>i. the (dict_by ts_segment_id segs i)) ids" by (simp add: comp_def)
  show "set ids \<subseteq> ts_segment_id ` set segs"
  proof
    fix i assume "i \<in> set ids"
    then have "dict_by ts_segment_id segs i \<in> Some ` set chosen" using eq by (metis image_eqI list.set_map)
    then show "i \<in> ts_segment_id ` set segs" using dict_by_None [of ts_segment_id segs i] by auto
  qed
qed

lemma chosen_exists:
  assumes "set ids \<subseteq> ts_segment_id ` set segs"
  shows "those (map (dict_by ts_segment_id segs) ids) =
     Some (map (\<lambda>i. the (dict_by ts_segment_id segs i)) ids)"
proof -
  have "dict_by ts_segment_id segs i = Some (the (dict_by ts_segment_id segs i))" if "i \<in> set ids" for i
    using that assms dict_by_None [of ts_segment_id segs i] by auto
  then show ?thesis by (auto simp: those_eq_Some)
qed

lemma chosen_set:
  assumes "distinct (map ts_segment_id segs)" "set (er_segment_ids ref) \<subseteq> ts_segment_id ` set segs"
  shows "(\<lambda>i. the (dict_by ts_segment_id segs i)) ` set (er_segment_ids ref) = cited segs ref"
proof (intro set_eqI iffI)
  fix g assume "g \<in> (\<lambda>i. the (dict_by ts_segment_id segs i)) ` set (er_segment_ids ref)"
  then obtain i where i: "i \<in> set (er_segment_ids ref)" "g = the (dict_by ts_segment_id segs i)" by blast
  with assms(2) obtain h where "h \<in> set segs" "i = ts_segment_id h" by auto
  with i dict_by_distinct [OF assms(1)] show "g \<in> cited segs ref" by (simp add: cited_def)
next
  fix g assume "g \<in> cited segs ref"
  then show "g \<in> (\<lambda>i. the (dict_by ts_segment_id segs i)) ` set (er_segment_ids ref)"
    using dict_by_distinct [OF assms(1)] by (force simp: cited_def)
qed

text \<open>On a stored revision, the seven checks of one reference amount to an exact span.\<close>

lemma check_reference_iff:
  assumes rv: "get_revision d (er_transcript_revision_id ref) = Some rv" "revision_ok rv"
    and ids: "er_segment_ids ref \<noteq> []"
  shows "check_reference d sess ref = Inr texts \<longleftrightarrow>
     r_session_id rv = s_id sess \<and> within_duration sess ref \<and>
     span_exact (r_segments rv) ref \<and> texts = cited_text (r_segments rv) ref"
proof (cases "r_session_id rv = s_id sess \<and> within_duration sess ref \<and>
    set (er_segment_ids ref) \<subseteq> ts_segment_id ` set (r_segments rv)")
  case False
  then show ?thesis using rv(1)
    by (auto simp: check_reference_def within_duration_def span_exact_def
        dest: chosen_lookup(2) split: option.splits if_splits)
next
  case True
  let ?segs = "r_segments rv"
  define chosen where "chosen = map (\<lambda>i. the (dict_by ts_segment_id ?segs i)) (er_segment_ids ref)"
  have look: "those (map (dict_by ts_segment_id ?segs) (er_segment_ids ref)) = Some chosen"
    unfolding chosen_def using True by (intro chosen_exists) simp
  have ne: "chosen \<noteq> []" using ids by (simp add: chosen_def)
  have set: "set chosen = cited ?segs ref"
    using chosen_set [of ?segs ref] rv(2) True by (simp add: revision_ok_def chosen_def)
  have texts: "map ts_text chosen = cited_text ?segs ref"
    by (simp add: cited_text_def chosen_def)
  let ?lo = "Min (ts_start_ms ` cited ?segs ref)" and ?hi = "Max (ts_end_ms ` cited ?segs ref)"
  have bounds: "?lo \<le> ts_start_ms g \<and> ts_end_ms g \<le> ?hi" if "g \<in> cited ?segs ref" for g
    using that by (simp add: cited_def)
  have valid: "ts_start_ms g < ts_end_ms g" if "g \<in> cited ?segs ref" for g
    using that rv(2) by (auto simp: revision_ok_def list_all_iff valid_segment_def cited_def)
  have overlap: "\<forall>g \<in> cited ?segs ref. ts_start_ms g < ?hi \<and> ?lo < ts_end_ms g"
    using bounds valid by fastforce
  have dur: "(case s_duration_ms sess of None \<Rightarrow> False | Some dur \<Rightarrow> dur < er_end_ms ref) \<longleftrightarrow> False"
    using True by (auto simp: within_duration_def split: option.splits)
  have "check_reference d sess ref = Inr texts \<longleftrightarrow>
      er_start_ms ref = ?lo \<and> er_end_ms ref = ?hi \<and> texts = cited_text ?segs ref"
    using rv(1) True ne overlap unfolding check_reference_def
    by (simp add: look set texts dur list_all_iff Let_def) force
  then show ?thesis using True by (auto simp: span_exact_def)
qed

lemma all_checked_iff:
  assumes "\<And>ref. ref \<in> set refs \<Longrightarrow>
      er_segment_ids ref \<noteq> [] \<and> get_revision d (er_transcript_revision_id ref) = Some rv"
    and "revision_ok rv"
  shows "map_result (check_reference d sess) refs = Inr tss \<longleftrightarrow>
     (\<forall>ref \<in> set refs. r_session_id rv = s_id sess \<and> within_duration sess ref \<and>
        span_exact (r_segments rv) ref) \<and>
     tss = map (cited_text (r_segments rv)) refs"
  using assms(1)
proof (induction refs arbitrary: tss)
  case (Cons ref refs)
  then show ?case by (auto simp: check_reference_iff [OF _ assms(2)])
qed auto

lemma validate_evidence_grounded:
  assumes "valid_entry entry" and "list_all revision_ok (db_revisions d)"
  shows "validate_evidence d sess entry = Inr () \<longleftrightarrow>
    (\<exists>rv. s_current_transcript_revision_id sess = Some (r_id rv) \<and>
          get_revision d (r_id rv) = Some rv \<and> r_session_id rv = s_id sess \<and>
          (\<forall>ref \<in> set (le_evidence entry). within_duration sess ref) \<and>
          grounded rv (le_evidence entry) (le_exact_coach_feedback entry))"
  (is "?lhs \<longleftrightarrow> ?rhs")
proof -
  let ?refs = "le_evidence entry" and ?q = "le_exact_coach_feedback entry"
  have refs: "?refs \<noteq> []" and ids: "\<And>ref. ref \<in> set ?refs \<Longrightarrow> er_segment_ids ref \<noteq> []"
    using assms(1) by (auto simp: valid_entry_def list_all_iff valid_reference_def)
  obtain ref0 where r0: "ref0 \<in> set ?refs" using refs hd_in_set by blast
  show ?thesis
  proof (cases "\<exists>rid. s_current_transcript_revision_id sess = Some rid \<and>
                  er_transcript_revision_id ` set ?refs = {rid}")
    case False
    then have "\<not> ?lhs"
      by (auto simp: validate_evidence_def Let_def length_Suc_conv remdups_singleton_iff split: if_splits)
    moreover have "\<not> ?rhs" using False r0 by (auto simp: grounded_def image_iff)
    ultimately show ?thesis by blast
  next
    case True
    then obtain rid where cur: "s_current_transcript_revision_id sess = Some rid"
      and one: "er_transcript_revision_id ` set ?refs = {rid}" by blast
    then have single: "remdups (map er_transcript_revision_id ?refs) = [rid]"
      using refs by (simp add: remdups_singleton_iff)
    have one_rid: "er_transcript_revision_id ref = rid" if "ref \<in> set ?refs" for ref
      using one that by blast
    show ?thesis
    proof (cases "get_revision d rid")
      case None
      obtain ref rest where "?refs = ref # rest" using refs by (cases ?refs) auto
      with one None have "map_result (check_reference d sess) ?refs =
          Inl (EvidenceValidationError ''evidence transcript revision does not belong to the session'')"
        by (simp add: check_reference_def)
      then have "\<not> ?lhs" by (simp add: validate_evidence_def single cur)
      with None cur show ?thesis by auto
    next
      case (Some rv)
      then have rv: "rv \<in> set (db_revisions d)" "r_id rv = rid"
        using rev.get_in by (auto simp: get_revision_def)
      with assms(2) have ok: "revision_ok rv" by (simp add: list_all_iff)
      have each: "\<And>ref. ref \<in> set ?refs \<Longrightarrow>
          er_segment_ids ref \<noteq> [] \<and> get_revision d (er_transcript_revision_id ref) = Some rv"
        using ids one_rid Some by simp
      let ?texts = "concat (map (cited_text (r_segments rv)) ?refs)"
      let ?each = "\<forall>ref \<in> set ?refs. r_session_id rv = s_id sess \<and> within_duration sess ref \<and>
          span_exact (r_segments rv) ref"
      have "?lhs \<longleftrightarrow> (\<exists>tss. map_result (check_reference d sess) ?refs = Inr tss \<and>
          quote_supported ?q (concat tss))"
        by (auto simp: validate_evidence_def single cur quote_supported_def)
      then have "?lhs \<longleftrightarrow> ?each \<and> quote_supported ?q ?texts"
        by (simp add: all_checked_iff [OF each ok])
      moreover have only: "s_current_transcript_revision_id sess = Some (r_id x) \<and>
          get_revision d (r_id x) = Some x \<longleftrightarrow> x = rv" for x
        using cur Some rv(2) by (metis option.inject)
      then have "?rhs \<longleftrightarrow> r_session_id rv = s_id sess \<and>
          (\<forall>ref \<in> set ?refs. within_duration sess ref) \<and> grounded rv ?refs ?q"
        unfolding conj_assoc [symmetric] only by simp
      ultimately show ?thesis using refs r0 one_rid rv(2) by (auto simp: grounded_def)
    qed
  qed
qed

text \<open>
  C9: A proposed ledger entry passes \<^verbatim>\<open>validate_evidence\<close> exactly when the session's current
  transcript revision is stored for that session and the entry is grounded in it: every
  evidence reference names that revision, cites only segments of it, spans exactly from the
  start of the earliest cited segment to the end of the latest within the recording, and a
  quoted feedback occurs in the cited text up to white space and case.
\<close>

theorem validate_evidence_iff:
  assumes "valid_entry entry" and "list_all revision_ok (db_revisions d)"
  shows "validate_evidence d sess entry = Inr () \<longleftrightarrow>
    (\<exists>rv. s_current_transcript_revision_id sess = Some (r_id rv) \<and>
          get_revision d (r_id rv) = Some rv \<and> r_session_id rv = s_id sess \<and>
          (\<forall>ref \<in> set (le_evidence entry). within_duration sess ref) \<and>
          grounded rv (le_evidence entry) (le_exact_coach_feedback entry))"
  by (rule validate_evidence_grounded [OF assms])

subsection \<open>A concrete session\<close>

lemmas demo_defs = demo_segment_def demo_revision_def demo_session_def demo_db_def
  demo_reference_def demo_entry_def

lemma demo_normalize: "normalize_text ''go  low'' = ''go low''"
  "normalize_text ''Go low'' = ''go low''"
  by (simp_all add: normalize_text_def casefold_def strip_def lower_char_def char_of_def bit_0 is_ws_def)

lemma demo_ok: "valid_entry demo_entry" "list_all revision_ok (db_revisions demo_db)"
  by (simp_all add: demo_defs valid_entry_def valid_reference_def revision_ok_def valid_segment_def
      empty_db_def)

lemma demo_grounded: "grounded demo_revision [demo_reference] (Some ''go  low'')"
proof -
  have c: "cited [demo_segment] demo_reference = {demo_segment}"
    by (auto simp: cited_def demo_segment_def demo_reference_def)
  show ?thesis unfolding grounded_def span_exact_def quote_supported_def cited_text_def
    by (simp add: c demo_revision_def)
      (simp add: demo_segment_def demo_reference_def dict_by_def demo_normalize truthy_def)
qed

theorem validate_evidence_iff_witness:
  "valid_entry demo_entry \<and> list_all revision_ok (db_revisions demo_db) \<and>
   validate_evidence demo_db demo_session demo_entry = Inr ()"
proof -
  have "validate_evidence demo_db demo_session demo_entry = Inr ()"
    unfolding validate_evidence_iff [OF demo_ok]
    by (rule exI [of _ demo_revision], intro conjI)
      (use demo_grounded in \<open>simp_all add: demo_defs get_revision_def tbl_get_def within_duration_def
         new_session_def\<close>)
  with demo_ok show ?thesis by simp
qed

subsection \<open>Reconciliation\<close>

lemma resume_existing_total:
  "\<exists>sess'. resume_existing d sess rv = Inr sess' \<and> s_id sess' = s_id sess \<and>
     s_current_transcript_revision_id sess' = s_current_transcript_revision_id sess \<and>
     s_state sess' \<noteq> S_RECONCILING"
  by (simp add: resume_existing_def transition_def Let_def)

lemma adopt_new_revision_total:
  "\<exists>sess'. adopt_new_revision sess rid = Inr sess' \<and> s_id sess' = s_id sess \<and>
     s_current_transcript_revision_id sess' = Some rid \<and> s_state sess' \<noteq> S_RECONCILING"
  by (cases "s_state sess") (simp_all add: adopt_new_revision_def transition_def Let_def)

lemma find_revision_Some: "find_revision d sid digest = Some rv \<Longrightarrow>
    rv \<in> set (db_revisions d) \<and> r_session_id rv = sid \<and> r_sha256 rv = digest"
  by (auto simp: find_revision_def find_Some_iff)

lemma reopen_entries_frame [simp]:
  "db_revisions (reopen_entries now sid rid d) = db_revisions d"
  "db_sessions (reopen_entries now sid rid d) = db_sessions d"
  "db_jobs (reopen_entries now sid rid d) = db_jobs d"
  "db_tombstones (reopen_entries now sid rid d) = db_tombstones d"
  by (simp_all add: reopen_entries_def)

text \<open>What a successful reconciliation did, as two cases with the session unlocked.\<close>

lemma reconcile_cases:
  assumes "reconcile_transcript_data repr sha256 new_id now d sess raw = Inr (rv, created, sess', d')"
  obtains (existing) segments where
      "normalize_speakr_segments repr raw = Inr segments" "\<not> created"
      "find_revision d (s_id sess) (transcript_sha256 sha256 segments) = Some rv" "d' = d"
      "resume_existing d (sess\<lparr>s_last_reconciled_at := Some now\<rparr>) rv = Inr sess'"
  | (adopted) segments where
      "normalize_speakr_segments repr raw = Inr segments" "created"
      "find_revision d (s_id sess) (transcript_sha256 sha256 segments) = None"
      "rv = \<lparr>r_id = new_id, r_session_id = s_id sess,
             r_sha256 = transcript_sha256 sha256 segments,
             r_segments = segments, r_source = ''speakr'', r_created_at = now\<rparr>"
      "adopt_new_revision (sess\<lparr>s_last_reconciled_at := Some now\<rparr>) new_id = Inr sess'"
      "d' = (if s_current_transcript_revision_id sess \<noteq> None
             then reopen_entries now (s_id sess) (s_current_transcript_revision_id sess)
                    (d\<lparr>db_revisions := db_revisions d @ [rv]\<rparr>)
             else d\<lparr>db_revisions := db_revisions d @ [rv]\<rparr>)"
  using assms unfolding reconcile_transcript_data_def
  by (auto simp: Let_def tbl_add_def split: option.splits if_splits)

lemma demo_raw_normalized: "normalize_speakr_segments (\<lambda>_. []) demo_raw =
    Inr [\<lparr>ts_segment_id = ''0'', ts_start_ms = 4000, ts_end_ms = 5000, ts_text = [],
          ts_provider_speaker_label = None\<rparr>]"
  by (simp add: demo_raw_def normalize_speakr_segments_def raw_start_def raw_end_def raw_text_def
      raw_id_def raw_speaker_def obj_get_def seconds_to_ms_JInt py_str_def mk_segment_def
      valid_segment_def int_str_def nat_str_digit)

text \<open>The stored revision of the example has digest \<^verbatim>\<open>h\<close>; a hash that gives \<^verbatim>\<open>q\<close> is new to it.\<close>

lemma demo_reconciled:
  "\<exists>rv sess' d'. reconcile_transcript_data (\<lambda>_. []) (\<lambda>_. ''q'') ''r2'' 9 demo_db demo_session demo_raw =
     Inr (rv, True, sess', d')"
  using adopt_new_revision_total [of "demo_session\<lparr>s_last_reconciled_at := Some 9\<rparr>" "''r2''"]
  by (auto simp: reconcile_transcript_data_def demo_raw_normalized find_revision_def demo_db_def
      demo_revision_def transcript_sha256_def Let_def)

text \<open>
  Once Speakr's segments normalize, reconciliation always succeeds: whatever state the
  session is in, no branch of \<^verbatim>\<open>reconcile_transcript_data\<close> attempts a forbidden transition, and
  the session is left outside RECONCILING with its reconciliation time set.
\<close>

theorem reconcile_transcript_data_total:
  assumes "normalize_speakr_segments repr raw = Inr segments"
  shows "\<exists>rv created sess' d'.
    reconcile_transcript_data repr sha256 new_id now d sess raw = Inr (rv, created, sess', d') \<and>
    s_state sess' \<noteq> S_RECONCILING"
proof (cases "find_revision d (s_id sess) (transcript_sha256 sha256 segments)")
  case None
  then show ?thesis
    using adopt_new_revision_total [of "sess\<lparr>s_last_reconciled_at := Some now\<rparr>" new_id] assms
    by (auto simp: reconcile_transcript_data_def Let_def)
next
  case (Some rv)
  then show ?thesis
    using resume_existing_total [of d "sess\<lparr>s_last_reconciled_at := Some now\<rparr>" rv] assms
    by (auto simp: reconcile_transcript_data_def Let_def)
qed

lemma resume_existing_idle: "s_state sess \<noteq> S_RECONCILING \<Longrightarrow> resume_existing d sess rv = Inr sess"
  by (simp add: resume_existing_def)

text \<open>
  C14: Reconciling the same transcript again is idempotent: the second call finds the revision
  the first one returned, creates nothing, changes no row of the database and only refreshes
  the session's reconciliation time.
\<close>

theorem reconcile_idempotent:
  assumes "reconcile_transcript_data repr sha256 new_id now d sess raw = Inr (rv, created, sess', d')"
  shows "reconcile_transcript_data repr sha256 new_id' now' d' sess' raw =
     Inr (rv, False, sess'\<lparr>s_last_reconciled_at := Some now'\<rparr>, d')"
  using assms
proof (cases rule: reconcile_cases)
  case (existing segments)
  with resume_existing_total [of d "sess\<lparr>s_last_reconciled_at := Some now\<rparr>" rv] show ?thesis
    by (auto simp: reconcile_transcript_data_def Let_def resume_existing_idle)
next
  case (adopted segments)
  then have "find_revision d' (s_id sess) (transcript_sha256 sha256 segments) = Some rv"
    by (auto simp: find_revision_def find_append)
  with adopted adopt_new_revision_total [of "sess\<lparr>s_last_reconciled_at := Some now\<rparr>" new_id]
  show ?thesis by (auto simp: reconcile_transcript_data_def Let_def resume_existing_idle)
qed

theorem reconcile_idempotent_witness:
  "\<exists>rv sess' d'. reconcile_transcript_data (\<lambda>_. []) (\<lambda>_. ''q'') ''r3'' 10 d' sess' demo_raw =
     Inr (rv, False, sess'\<lparr>s_last_reconciled_at := Some 10\<rparr>, d')"
  using demo_reconciled reconcile_idempotent by blast

lemma reopen_entry_fields:
  "reopen_entry now e = e\<lparr>e_verification_status := V_NEEDS_REVIEW, e_verified_by := None,
     e_verified_at := None, e_updated_at := e_updated_at (reopen_entry now e)\<rparr>"
  by (simp add: reopen_entry_def Let_def)

lemma reopen_entries_rel:
  "list_all2 (reopened sid old) (db_entries d) (db_entries (reopen_entries now sid (Some old) d))"
  unfolding reopen_entries_def
  by (simp add: reopened_def list_all2_map2 reopen_entry_fields [symmetric] list_all2_same)

text \<open>
  C13: A transcript that changed never overwrites the evidence it replaces: the earlier
  revisions stay as they were, the new revision becomes the current one, every entry of the
  replaced revision goes back to NEEDS_REVIEW with its reviewer cleared, every other entry is
  untouched, and the session is no longer COMPLETE.
\<close>

theorem reconcile_supersedes:
  assumes "reconcile_transcript_data repr sha256 new_id now d sess raw = Inr (rv, True, sess', d')"
    and "s_current_transcript_revision_id sess = Some old"
  shows "db_revisions d' = db_revisions d @ [rv] \<and>
    s_current_transcript_revision_id sess' = Some (r_id rv) \<and> s_state sess' \<noteq> S_COMPLETE \<and>
    list_all2 (reopened (s_id sess) old) (db_entries d) (db_entries d')"
  using assms(1)
proof (cases rule: reconcile_cases)
  case (adopted segments)
  have "s_state sess' \<noteq> S_COMPLETE"
    using adopted(5) assms(2)
    by (cases "s_state sess") (auto simp: adopt_new_revision_def transition_def)
  moreover have "s_current_transcript_revision_id sess' = Some (r_id rv)"
    using adopted adopt_new_revision_total [of "sess\<lparr>s_last_reconciled_at := Some now\<rparr>" new_id]
    by auto
  ultimately show ?thesis 
    using adopted(6) assms(2) reopen_entries_rel [of "s_id sess" old "d\<lparr>db_revisions := db_revisions d @ [rv]\<rparr>"]
    by simp
qed simp

theorem reconcile_supersedes_witness:
  "\<exists>rv sess' d'.
     reconcile_transcript_data (\<lambda>_. []) (\<lambda>_. ''q'') ''r2'' 9 demo_db demo_session demo_raw =
       Inr (rv, True, sess', d') \<and> s_current_transcript_revision_id sess' = Some (r_id rv)"
proof -
  have cur: "s_current_transcript_revision_id demo_session = Some ''r1''"
    by (simp add: demo_session_def)
  show ?thesis using demo_reconciled reconcile_supersedes [OF _ cur] by blast
qed

subsection \<open>Ledger entries\<close>

lemma validate_evidence_current:
  "validate_evidence d sess entry = Inr u \<Longrightarrow> s_current_transcript_revision_id sess \<noteq> None"
  by (cases "s_current_transcript_revision_id sess") (auto simp: validate_evidence_def Let_def split: if_splits)

text \<open>
  C27: Storing an accepted entry and reading it back returns what was submitted: every text
  field, the evidence and the metadata unchanged, the confidence within half a thousandth and
  still within [0, 1], the entry attached to the session and its current revision, unverified.
\<close>

theorem create_ledger_entry_roundtrip:
  assumes "create_ledger_entry new_id now d sess entry = Inr (row, d')" and "valid_entry entry"
  shows "LedgerEntryCreate.truncate (ledger_response row) =
           entry\<lparr>le_confidence := le_confidence (ledger_response row)\<rparr> \<and>
    \<bar>le_confidence (ledger_response row) - le_confidence entry\<bar> \<le> 1 / 2000 \<and>
    0 \<le> le_confidence (ledger_response row) \<and> le_confidence (ledger_response row) \<le> 1 \<and>
    Some (lr_transcript_revision_id (ledger_response row)) = s_current_transcript_revision_id sess \<and>
    lr_session_id (ledger_response row) = s_id sess \<and>
    lr_verification_status (ledger_response row) = V_UNVERIFIED \<and>
    d' = d\<lparr>db_entries := db_entries d @ [row]\<rparr>"
proof -
  let ?c = "le_confidence entry"
  have v: "validate_evidence d sess entry = Inr ()"
    and row: "row = entry_row new_id now (s_id sess) (the (s_current_transcript_revision_id sess)) entry"
    and d': "d' = d\<lparr>db_entries := db_entries d @ [row]\<rparr>"
    using assms(1) by (auto simp: create_ledger_entry_def tbl_add_def Let_def)
  have cur: "s_current_transcript_revision_id sess \<noteq> None"
    using validate_evidence_current [OF v] by simp
  have "\<bar>of_int (py_round (?c * 1000)) - ?c * 1000\<bar> \<le> 1/2" by (rule py_round_error)
  then have err: "\<bar>of_int (py_round (?c * 1000)) / 1000 - ?c\<bar> \<le> 1/2000"
    by (simp add: abs_le_iff field_simps)
  have range: "0 \<le> py_round (?c * 1000)" "py_round (?c * 1000) \<le> 1000"
    using assms(2) py_round_mono_bounds [of 0 "?c * 1000" 1000] by (simp_all add: valid_entry_def)
  show ?thesis unfolding row d' using err range cur
    by (auto simp: ledger_response_def entry_row_def LedgerEntryCreate.truncate_def)
qed

lemma demo_created:
  "\<exists>row d'. create_ledger_entry ''e1'' 9 demo_db demo_session demo_entry = Inr (row, d')"
proof -
  have "validate_evidence demo_db demo_session demo_entry = Inr ()"
    unfolding validate_evidence_def
    by (simp add: demo_defs check_reference_def get_revision_def tbl_get_def new_session_def
        dict_by_def Let_def demo_normalize truthy_def)
  then show ?thesis by (simp add: create_ledger_entry_def Let_def)
qed

theorem create_ledger_entry_roundtrip_witness:
  "\<exists>row d'. create_ledger_entry ''e1'' 9 demo_db demo_session demo_entry = Inr (row, d') \<and>
     \<bar>le_confidence (ledger_response row) - le_confidence demo_entry\<bar> \<le> 1 / 2000"
  using demo_created create_ledger_entry_roundtrip [OF _ demo_ok(1)] by blast

subsection \<open>Jobs and deletion records\<close>

text \<open>
  C15: \<^verbatim>\<open>ensure_job\<close> returns an active job of the requested session and type that is stored, adds
  a job only if there was none, and so keeps at most one active job per session and type
  wherever there was at most one.
\<close>

theorem ensure_job_single_active:
  assumes "ensure_job new_id now d sid t max_attempts = (job, created, d')"
  shows "job \<in> set (active_jobs d' sid t) \<and> (created \<longleftrightarrow> active_jobs d sid t = []) \<and>
    (created \<longrightarrow> active_jobs d' sid t = [job]) \<and> (\<not> created \<longrightarrow> d' = d) \<and>
    (\<forall>sid' t'. (sid', t') \<noteq> (sid, t) \<longrightarrow> active_jobs d' sid' t' = active_jobs d sid' t')"
proof (cases "find (\<lambda>j. j_session_id j = sid \<and> j_type j = t \<and> active_status (j_status j)) (db_jobs d)")
  case None
  with assms have "job = new_job new_id now sid t max_attempts" "created"
    "d' = d\<lparr>db_jobs := db_jobs d @ [job]\<rparr>"
    by (auto simp: ensure_job_def tbl_add_def Let_def)
  moreover have "active_jobs d sid t = []"
    using None by (auto simp: active_jobs_def find_None_iff filter_empty_conv)
  ultimately show ?thesis by (auto simp: active_jobs_def active_status_def)
next
  case (Some j)
  with assms show ?thesis
    by (auto simp: ensure_job_def active_jobs_def filter_empty_conv dest: find_SomeD)
qed

theorem ensure_job_single_active_witness:
  "\<exists>job d'. ensure_job ''j1'' 9 demo_db ''a'' T_EXTRACT 3 = (job, True, d') \<and>
     active_jobs d' ''a'' T_EXTRACT = [job]"
proof -
  have e: "\<exists>job d'. ensure_job ''j1'' 9 demo_db ''a'' T_EXTRACT 3 = (job, True, d')"
    by (simp add: ensure_job_def demo_db_def empty_db_def Let_def)
  show ?thesis using e ensure_job_single_active by blast
qed

end
