(* ===== verification/Gateway.thy ===== *)
theory Gateway
  imports Services "HOL-Library.Char_ord" "HOL-Library.List_Lexorder"
begin

text \<open>
  The extraction gateway, \<^verbatim>\<open>extraction_gateway/app.py\<close>: it cuts a transcript into overlapping
  windows, has the language model read each, and lets through only what the evidence supports.
  The model's answer and pydantic's decoding of it are parameters: \<open>validate\<close> stands for
  \<^verbatim>\<open>model_validate\<close> and gives \<open>None\<close> where it raises \<^verbatim>\<open>ValidationError\<close>.
\<close>

subsection \<open>Requests and responses\<close>

record ExtractionRequest =
  x_session_id :: string
  x_session_title :: string
  x_transcript_revision_id :: string
  x_instructions :: "string list"
  x_segments :: "TranscriptSegment list"

record SummaryLedgerEntry =
  sl_id :: string
  sl_topic :: string
  sl_exact_coach_feedback :: "string option"
  sl_interpretation :: "string option"
  sl_applies_to :: "string option"
  sl_exercise_or_requested_change :: "string option"
  sl_next_action_and_owner :: "string option"
  sl_start_ms :: int
  sl_end_ms :: int

record SummaryRequest =
  sq_session_id :: string
  sq_session_title :: string
  sq_transcript_revision_id :: string
  sq_theme_count :: "int option"
  sq_pre_groups :: "(string \<times> json) list list option"
  sq_entries :: "SummaryLedgerEntry list"

record ConsolidationGroup =
  cg_canonical_topic :: string
  cg_entry_ids :: "string list"

definition valid_group :: "ConsolidationGroup \<Rightarrow> bool" where
  "valid_group g \<longleftrightarrow> 1 \<le> length (cg_canonical_topic g) \<and> length (cg_canonical_topic g) \<le> 200 \<and>
     cg_entry_ids g \<noteq> []"

record ConsolidationRequest =
  cq_session_id :: string
  cq_session_title :: string
  cq_entries :: "SummaryLedgerEntry list"

record ConsolidationResponse =
  cr_groups :: "ConsolidationGroup list"
  cr_ungrouped_entry_ids :: "string list"

record GatewayExtractionResponse =
  gx_entries :: "LedgerEntryCreate list"
  gx_model_entry_count :: nat
  gx_rejected_entry_count :: nat

datatype rejection_reason = unknown_segment_id | revision_mismatch | range_mismatch

record EntryRejection =
  rj_reason :: rejection_reason
  rj_topic :: string
  rj_segment_ids :: "string list"

datatype gw_error =
    GwHttp nat string
  | GwValidationError
  | GwValueError
  | GwTypeError
  | GwStopIteration
  | GwKeyError string

record gateway_settings =
  gs_window_segment_count :: nat
  gs_window_overlap_segments :: nat
  gs_window_concurrency :: nat
  gs_inbound_api_key :: "string option"
  gs_openai_api_key :: "string option"

definition valid_gateway_settings :: "gateway_settings \<Rightarrow> bool" where
  "valid_gateway_settings s \<longleftrightarrow>
     0 < gs_window_segment_count s \<and>
     gs_window_overlap_segments s < gs_window_segment_count s \<and>
     0 < gs_window_concurrency s \<and>
     (case gs_inbound_api_key s of None \<Rightarrow> True | Some k \<Rightarrow> 16 \<le> length k)"

subsection \<open>Authorization\<close>

definition bearer :: string where
  "bearer = ''Bearer ''"

definition authorize :: "gateway_settings \<Rightarrow> string option \<Rightarrow> (gw_error, unit) result" where
  "authorize settings authorization =
     (if \<not> truthy (gs_inbound_api_key settings) then Inl (GwHttp 401 ''gateway_not_configured'')
      else if \<not> truthy authorization \<or> \<not> prefix bearer (the authorization)
      then Inl (GwHttp 401 ''unauthorized'')
      else if drop (length bearer) (the authorization) \<noteq> the (gs_inbound_api_key settings)
      then Inl (GwHttp 401 ''unauthorized'')
      else Inr ())"

subsection \<open>Lexical support\<close>

definition token_start :: "char \<Rightarrow> bool" where
  "token_start c \<longleftrightarrow> is_digit c \<or> (97 \<le> (of_char (lower_char c) :: nat) \<and> (of_char (lower_char c) :: nat) \<le> 122)"

definition token_char :: "char \<Rightarrow> bool" where
  "token_char c \<longleftrightarrow> token_start c \<or> c = CHR 0x27 \<or> c = CHR ''-''"

text \<open>\<^verbatim>\<open>findall\<close> of \<^verbatim>\<open>[a-z0-9][a-z0-9'-]{2,}\<close>: leftmost, greedy, without overlap.\<close>

function significant_tokens :: "string \<Rightarrow> string list" where
  "significant_tokens [] = []"
| "significant_tokens (c # cs) =
     (let run = takeWhile token_char cs
      in if token_start c \<and> 2 \<le> length run
         then (c # run) # significant_tokens (drop (length run) cs)
         else significant_tokens cs)"
  by pat_completeness auto
termination by (relation "measure length") auto

definition SUPPORTED_APPLIES_TO_SHORT_VALUES :: "string list" where
  "SUPPORTED_APPLIES_TO_SHORT_VALUES = [''lead'', ''tenor'', ''baritone'', ''bass'', ''coach'']"

text \<open>
  The share of supported tokens is compared with 0.6 as floats in the source; on token counts
  below \<open>2 ^ 50\<close> that is the comparison of the fractions.
\<close>

definition supported_by_evidence :: "string list \<Rightarrow> string option \<Rightarrow> string \<Rightarrow> bool" where
  "supported_by_evidence allowed_short_values v evidence_text =
     (case v of None \<Rightarrow> True
      | Some text \<Rightarrow>
          let value_tokens = remdups (significant_tokens (casefold text));
              evidence_tokens = significant_tokens (casefold evidence_text)
          in if value_tokens = [] then False
             else if length value_tokens = 1
             then hd value_tokens \<in> set allowed_short_values \<and> hd value_tokens \<in> set evidence_tokens
             else 3 * length value_tokens
                    \<le> 5 * length (filter (\<lambda>t. t \<in> set evidence_tokens) value_tokens))"

definition normalize_quote_text :: "string \<Rightarrow> string" where
  "normalize_quote_text v = casefold (strip (collapse_ws v))"

definition is_verbatim_quote :: "string option \<Rightarrow> string list \<Rightarrow> bool" where
  "is_verbatim_quote v texts =
     (case v of None \<Rightarrow> True
      | Some text \<Rightarrow>
          let quote = normalize_quote_text text
          in quote \<noteq> [] \<and> py_in quote (normalize_quote_text (py_join '' '' texts)))"

subsection \<open>One entry\<close>

definition reject :: "rejection_reason \<Rightarrow> string \<Rightarrow> EvidenceReference \<Rightarrow> gw_error + EntryRejection" where
  "reject reason topic evidence =
     Inr \<lparr>rj_reason = reason, rj_topic = topic, rj_segment_ids = er_segment_ids evidence\<rparr>"

text \<open>One turn of the evidence loop: the rewritten reference and the text it cites. An early
  return and a raised error are both left results, told apart inside.\<close>

definition normalize_evidence ::
  "ExtractionRequest \<Rightarrow> string \<Rightarrow> EvidenceReference \<Rightarrow>
   (gw_error + EntryRejection, EvidenceReference \<times> string list) result" where
  "normalize_evidence body topic evidence =
     (if er_transcript_revision_id evidence \<noteq> x_transcript_revision_id body
      then Inl (reject revision_mismatch topic evidence)
      else case those (map (dict_by ts_segment_id (x_segments body)) (er_segment_ids evidence)) of
          None \<Rightarrow> Inl (reject unknown_segment_id topic evidence)
        | Some cited_segments \<Rightarrow>
            if list_ex (\<lambda>g. ts_end_ms g \<le> er_start_ms evidence \<or> er_end_ms evidence \<le> ts_start_ms g)
                 cited_segments
            then Inl (reject range_mismatch topic evidence)
            else if cited_segments = [] then Inl (Inl GwValueError)
            else Inr (\<lparr>er_transcript_revision_id = x_transcript_revision_id body,
                       er_start_ms = Min (set (map ts_start_ms cited_segments)),
                       er_end_ms = Max (set (map ts_end_ms cited_segments)),
                       er_segment_ids = er_segment_ids evidence\<rparr>,
                      map ts_text cited_segments))"

definition normalize_entry ::
  "LedgerEntryCreate \<Rightarrow> ExtractionRequest \<Rightarrow> (gw_error + EntryRejection, LedgerEntryCreate) result" where
  "normalize_entry entry body =
     rbind (map_result (normalize_evidence body (le_topic entry)) (le_evidence entry)) (\<lambda>cited.
       let cited_text = concat (map snd cited);
           evidence_text = py_join [CHR 0x0A] cited_text;
           data = entry\<lparr>le_evidence := map fst cited\<rparr>;
           data1 = (if is_verbatim_quote (le_exact_coach_feedback entry) cited_text then data
                    else data\<lparr>le_exact_coach_feedback := None\<rparr>);
           data2 = (if supported_by_evidence SUPPORTED_APPLIES_TO_SHORT_VALUES (le_applies_to entry)
                         evidence_text then data1
                    else data1\<lparr>le_applies_to := None\<rparr>);
           data3 = (if supported_by_evidence [] (le_observed_result entry) evidence_text then data2
                    else data2\<lparr>le_observed_result := None\<rparr>)
       in if valid_entry data3 then Inr data3 else Inl (Inl GwValidationError))"

subsection \<open>Windows\<close>

function windows_from :: "'a list \<Rightarrow> nat \<Rightarrow> nat \<Rightarrow> nat \<Rightarrow> 'a list list" where
  "windows_from segments width step start =
     (if step = 0 \<or> length segments \<le> start then []
      else take width (drop start segments) #
           (if length segments \<le> start + width then []
            else windows_from segments width step (start + step)))"
  by pat_completeness auto
termination by (relation "measure (\<lambda>(segments, _, _, start). length segments - start)") auto

declare windows_from.simps [simp del]

definition split_windows :: "'a list \<Rightarrow> nat \<Rightarrow> nat \<Rightarrow> (gw_error, 'a list list) result" where
  "split_windows segments width overlap =
     (if length segments \<le> width then Inr [segments]
      else if width = overlap then Inl GwValueError
      else if width < overlap then Inr []
      else Inr (windows_from segments width (width - overlap) 0))"

subsection \<open>Collecting the windows' entries\<close>

definition entry_identity :: "LedgerEntryCreate \<Rightarrow> string \<times> string set" where
  "entry_identity entry =
     (normalize_quote_text (le_topic entry), \<Union> (set ` er_segment_ids ` set (le_evidence entry)))"

record coerce_state =
  cst_entries :: "LedgerEntryCreate list"
  cst_seen :: "(string \<times> string set) list"
  cst_rejected :: nat
  cst_duplicates :: nat

definition coerce_entry ::
  "ExtractionRequest \<Rightarrow> coerce_state \<Rightarrow> LedgerEntryCreate \<Rightarrow> (gw_error, coerce_state) result" where
  "coerce_entry body st entry =
     (case normalize_entry entry body of
        Inl (Inl e) \<Rightarrow> Inl e
      | Inl (Inr rejection) \<Rightarrow> Inr (st\<lparr>cst_rejected := Suc (cst_rejected st)\<rparr>)
      | Inr normalized \<Rightarrow>
          if entry_identity normalized \<in> set (cst_seen st)
          then Inr (st\<lparr>cst_duplicates := Suc (cst_duplicates st)\<rparr>)
          else Inr (st\<lparr>cst_seen := entry_identity normalized # cst_seen st,
                       cst_entries := cst_entries st @ [normalized]\<rparr>))"

definition coerce_payload ::
  "(json \<Rightarrow> LedgerEntryCreate list option) \<Rightarrow> ExtractionRequest \<Rightarrow> coerce_state \<times> nat \<Rightarrow> json \<Rightarrow>
   (gw_error, coerce_state \<times> nat) result" where
  "coerce_payload validate body acc payload =
     (case validate payload of
        None \<Rightarrow> Inl (GwHttp 502 ''invalid_model_response'')
      | Some entries \<Rightarrow>
          rbind (fold_result (coerce_entry body) (fst acc) entries) (\<lambda>st.
            Inr (st, snd acc + length entries)))"

definition gateway_metadata :: "nat \<Rightarrow> nat \<Rightarrow> LedgerEntryCreate \<Rightarrow> LedgerEntryCreate" where
  "gateway_metadata model_count rejected entry =
     entry\<lparr>le_extraction_metadata :=
       obj_set (obj_set (le_extraction_metadata entry) ''gateway_model_entry_count''
                  (JInt (int model_count)))
         ''gateway_rejected_entry_count'' (JInt (int rejected))\<rparr>"

definition coerce_entries ::
  "(json \<Rightarrow> LedgerEntryCreate list option) \<Rightarrow> json list \<Rightarrow> ExtractionRequest \<Rightarrow>
   (gw_error, GatewayExtractionResponse) result" where
  "coerce_entries validate payloads body =
     rbind (fold_result (coerce_payload validate body)
              (\<lparr>cst_entries = [], cst_seen = [], cst_rejected = 0, cst_duplicates = 0\<rparr>, 0) payloads)
       (\<lambda>(st, model_count).
         Inr \<lparr>gx_entries = map (gateway_metadata model_count (cst_rejected st)) (cst_entries st),
              gx_model_entry_count = model_count, gx_rejected_entry_count = cst_rejected st\<rparr>)"

text \<open>
  The endpoint: \<open>extract_json\<close> stands for the model client on one window; its error becomes
  504 for a time-out and 502 otherwise. The windows are read in parallel, and the first error in
  window order is the one the pool's iterator raises.
\<close>

datatype client_error = OpenAIClientError | OpenAITimeoutError | SchemaKeyError string

definition openai_error_handler :: "client_error \<Rightarrow> gw_error" where
  "openai_error_handler e = (case e of
      OpenAITimeoutError \<Rightarrow> GwHttp 504 ''openai_timeout''
    | OpenAIClientError \<Rightarrow> GwHttp 502 ''openai_error''
    | SchemaKeyError k \<Rightarrow> GwKeyError k)"

definition client_result :: "(client_error, 'a) result \<Rightarrow> (gw_error, 'a) result" where
  "client_result r = (case r of Inl e \<Rightarrow> Inl (openai_error_handler e) | Inr x \<Rightarrow> Inr x)"

definition gateway_extract ::
  "gateway_settings \<Rightarrow> (TranscriptSegment list \<Rightarrow> (client_error, json) result) \<Rightarrow>
   (json \<Rightarrow> LedgerEntryCreate list option) \<Rightarrow> string option \<Rightarrow> ExtractionRequest \<Rightarrow>
   (gw_error, GatewayExtractionResponse) result" where
  "gateway_extract settings extract_json validate authorization body =
     rbind (authorize settings authorization) (\<lambda>_.
       rbind (split_windows (x_segments body) (gs_window_segment_count settings)
                (gs_window_overlap_segments settings)) (\<lambda>windows.
         rbind (map_result (\<lambda>w. client_result (extract_json w)) windows) (\<lambda>payloads.
           coerce_entries validate payloads body)))"

subsection \<open>Consolidation\<close>

text \<open>The loop over the model's groups, with the ids claimed so far.\<close>

fun claim_groups :: "string list \<Rightarrow> string list \<Rightarrow> ConsolidationGroup list \<Rightarrow>
    ConsolidationGroup list \<times> string list" where
  "claim_groups known claimed [] = ([], claimed)"
| "claim_groups known claimed (g # gs) =
     (let valid_ids = filter (\<lambda>i. i \<in> set known \<and> i \<notin> set claimed) (cg_entry_ids g)
      in if valid_ids = [] then claim_groups known claimed gs
         else let (groups, claimed') = claim_groups known (claimed @ valid_ids) gs
              in (g\<lparr>cg_entry_ids := valid_ids\<rparr> # groups, claimed'))"

definition short_topic :: "string \<Rightarrow> string" where
  "short_topic topic = (if 197 < length topic then take 197 topic @ ellipsis else topic)"

definition mk_group :: "string \<Rightarrow> string list \<Rightarrow> (gw_error, ConsolidationGroup) result" where
  "mk_group topic ids =
     (let g = \<lparr>cg_canonical_topic = topic, cg_entry_ids = ids\<rparr>
      in if valid_group g then Inr g else Inl GwValidationError)"

definition entry_topic :: "SummaryLedgerEntry list \<Rightarrow> string \<Rightarrow> (gw_error, string) result" where
  "entry_topic entries i = (case find (\<lambda>e. sl_id e = i) entries of
      None \<Rightarrow> Inl GwStopIteration | Some e \<Rightarrow> Inr (sl_topic e))"

text \<open>\<^verbatim>\<open>known_ids\<close> is a Python set: \<open>order\<close> is the order in which iterating over it yields its
  members.\<close>

definition coerce_consolidation ::
  "(json \<Rightarrow> ConsolidationGroup list option) \<Rightarrow> (string list \<Rightarrow> string list) \<Rightarrow> json \<Rightarrow>
   ConsolidationRequest \<Rightarrow> (gw_error, ConsolidationResponse) result" where
  "coerce_consolidation validate order payload body =
     (case validate payload of
        None \<Rightarrow> Inl (GwHttp 502 ''invalid_model_response'')
      | Some model_groups \<Rightarrow>
          let known_ids = remdups (map sl_id (cq_entries body));
              (groups, claimed) = claim_groups known_ids [] model_groups;
              ungrouped = filter (\<lambda>i. i \<notin> set claimed) (order known_ids)
          in rbind (map_result (\<lambda>i. rbind (entry_topic (cq_entries body) i) (\<lambda>topic.
                      mk_group (short_topic topic) [i])) ungrouped) (\<lambda>singles.
               Inr \<lparr>cr_groups = groups @ singles, cr_ungrouped_entry_ids = ungrouped\<rparr>))"

definition gateway_consolidate ::
  "gateway_settings \<Rightarrow> (ConsolidationRequest \<Rightarrow> (client_error, json) result) \<Rightarrow>
   (json \<Rightarrow> ConsolidationGroup list option) \<Rightarrow> (string list \<Rightarrow> string list) \<Rightarrow> string option \<Rightarrow>
   ConsolidationRequest \<Rightarrow> (gw_error, ConsolidationResponse) result" where
  "gateway_consolidate settings extract_json validate order authorization body =
     rbind (authorize settings authorization) (\<lambda>_.
       if cq_entries body = [] then Inr \<lparr>cr_groups = [], cr_ungrouped_entry_ids = []\<rparr>
       else rbind (client_result (extract_json body)) (\<lambda>payload.
              coerce_consolidation validate order payload body))"

subsection \<open>Summaries\<close>

fun claim_themes :: "string list \<Rightarrow> string list \<Rightarrow> SummaryThemeCreate list \<Rightarrow>
    SummaryThemeCreate list \<times> string list" where
  "claim_themes known claimed [] = ([], claimed)"
| "claim_themes known claimed (t # ts) =
     (let entry_ids = filter (\<lambda>i. i \<in> set known \<and> i \<notin> set claimed) (th_ledger_entry_ids t)
      in if entry_ids = [] then claim_themes known claimed ts
         else let (themes, claimed') = claim_themes known (claimed @ entry_ids) ts
              in (t\<lparr>th_ledger_entry_ids := entry_ids\<rparr> # themes, claimed'))"

text \<open>
  \<^verbatim>\<open>for eid in (group.get("entry_ids") or []) if eid in known_ids\<close>, for a group that is any JSON
  object: a string iterates over its characters, an object over its keys, a number is not
  iterable, and a member that is a list or an object is not hashable.
\<close>

fun json_falsy :: "json \<Rightarrow> bool" where
  "json_falsy JNull \<longleftrightarrow> True"
| "json_falsy (JBool b) \<longleftrightarrow> \<not> b"
| "json_falsy (JInt i) \<longleftrightarrow> i = 0"
| "json_falsy (JFloat r) \<longleftrightarrow> r = 0"
| "json_falsy JNan \<longleftrightarrow> False"
| "json_falsy (JInf _) \<longleftrightarrow> False"
| "json_falsy (JStr s) \<longleftrightarrow> s = []"
| "json_falsy (JList xs) \<longleftrightarrow> xs = []"
| "json_falsy (JObj kvs) \<longleftrightarrow> kvs = []"

fun known_member :: "string list \<Rightarrow> json \<Rightarrow> (gw_error, string list) result" where
  "known_member known (JStr s) = Inr (if s \<in> set known then [s] else [])"
| "known_member known (JList _) = Inl GwTypeError"
| "known_member known (JObj _) = Inl GwTypeError"
| "known_member known _ = Inr []"

definition pre_group_members :: "string list \<Rightarrow> (string \<times> json) list \<Rightarrow> (gw_error, string list) result" where
  "pre_group_members known grp =
     (let v = obj_get grp ''entry_ids'' JNull
      in if json_falsy v then Inr []
         else case v of
             JStr s \<Rightarrow> Inr (filter (\<lambda>i. i \<in> set known) (map (\<lambda>c. [c]) s))
           | JList xs \<Rightarrow> rbind (map_result (known_member known) xs) (\<lambda>ys. Inr (concat ys))
           | JObj kvs \<Rightarrow> Inr (filter (\<lambda>i. i \<in> set known) (map fst kvs))
           | _ \<Rightarrow> Inl GwTypeError)"

definition pre_group_ids ::
  "string list \<Rightarrow> (string \<times> json) list list option \<Rightarrow> (gw_error, string list) result" where
  "pre_group_ids known pre_groups =
     (case pre_groups of None \<Rightarrow> Inr []
      | Some gs \<Rightarrow> rbind (map_result (pre_group_members known) gs) (\<lambda>ids. Inr (remdups (concat ids))))"

definition mk_theme :: "string \<Rightarrow> string \<Rightarrow> string list \<Rightarrow> (gw_error, SummaryThemeCreate) result" where
  "mk_theme title summary ids =
     (let t = \<lparr>th_title = title, th_summary = summary, th_ledger_entry_ids = ids\<rparr>
      in if valid_theme t then Inr t else Inl GwValidationError)"

text \<open>\<^verbatim>\<open>themes[:max_themes]\<close> for any integer bound.\<close>

definition slice_to :: "int \<Rightarrow> 'a list \<Rightarrow> 'a list" where
  "slice_to n xs = take (nat (if n < 0 then int (length xs) + n else n)) xs"

definition max_themes :: "int option \<Rightarrow> int" where
  "max_themes theme_count =
     (case theme_count of None \<Rightarrow> 25 | Some n \<Rightarrow> if n = 0 then 25 else n)"

definition coerce_summary ::
  "(json \<Rightarrow> SummaryThemeCreate list option) \<Rightarrow> json \<Rightarrow> SummaryRequest \<Rightarrow>
   (gw_error, SummaryThemeCreate list) result" where
  "coerce_summary validate payload body =
     (case validate payload of
        None \<Rightarrow> Inl (GwHttp 502 ''invalid_model_response'')
      | Some model_themes \<Rightarrow>
          let known_ids = map sl_id (sq_entries body);
              (themes, claimed) = claim_themes known_ids [] model_themes
          in rbind (pre_group_ids known_ids (sq_pre_groups body)) (\<lambda>ids.
             rbind (map_result (\<lambda>i. rbind (entry_topic (sq_entries body) i) (\<lambda>topic.
                      mk_theme (short_topic topic) topic [i]))
                    (sort (filter (\<lambda>i. i \<notin> set claimed) ids))) (\<lambda>fallback.
             let all = themes @ fallback; limit = max_themes (sq_theme_count body)
             in Inr (if limit < int (length all) then slice_to limit all else all))))"

definition gateway_summarize ::
  "gateway_settings \<Rightarrow> (SummaryRequest \<Rightarrow> (client_error, json) result) \<Rightarrow>
   (json \<Rightarrow> SummaryThemeCreate list option) \<Rightarrow> string option \<Rightarrow> SummaryRequest \<Rightarrow>
   (gw_error, SummaryThemeCreate list) result" where
  "gateway_summarize settings extract_json validate authorization body =
     rbind (authorize settings authorization) (\<lambda>_.
       if sq_entries body = [] then Inr []
       else rbind (client_result (extract_json body)) (\<lambda>payload.
              coerce_summary validate payload body))"

subsection \<open>Specification vocabulary and the example\<close>

definition request_for :: "ExtractionRequest \<Rightarrow> TranscriptRevisionRecord \<Rightarrow> bool" where
  "request_for body rv \<longleftrightarrow>
     x_transcript_revision_id body = r_id rv \<and> x_segments body = r_segments rv"

definition kept_entries :: "ExtractionRequest \<Rightarrow> LedgerEntryCreate list \<Rightarrow> LedgerEntryCreate set" where
  "kept_entries body es = {n. \<exists>e \<in> set es. normalize_entry e body = Inr n}"

definition seen_ok :: "coerce_state \<Rightarrow> bool" where
  "seen_ok st \<longleftrightarrow> map entry_identity (cst_entries st) = rev (cst_seen st) \<and> distinct (cst_seen st)"

definition handled :: "coerce_state \<Rightarrow> nat" where
  "handled st = length (cst_entries st) + cst_rejected st + cst_duplicates st"

text \<open>The validation of the model's answers, as pydantic documents it: what it returns satisfies
  the constraints declared on the model's fields.\<close>

definition validates :: "('a \<Rightarrow> bool) \<Rightarrow> (json \<Rightarrow> 'a list option) \<Rightarrow> bool" where
  "validates valid validate \<longleftrightarrow> (\<forall>p xs. validate p = Some xs \<longrightarrow> list_all valid xs)"

text \<open>Iterating over a Python set visits each member once, in an order the language leaves
  open.\<close>

definition iteration_order :: "(string list \<Rightarrow> string list) \<Rightarrow> bool" where
  "iteration_order order \<longleftrightarrow> (\<forall>xs. distinct xs \<longrightarrow> distinct (order xs) \<and> set (order xs) = set xs)"

definition demo_request :: ExtractionRequest where
  "demo_request = \<lparr>x_session_id = ''a'', x_session_title = ''Lesson'',
     x_transcript_revision_id = ''r1'', x_instructions = [], x_segments = [demo_segment]\<rparr>"

definition demo_validate :: "json \<Rightarrow> LedgerEntryCreate list option" where
  "demo_validate p = (if p = JNull then Some [demo_entry] else None)"

definition demo_line :: SummaryLedgerEntry where
  "demo_line = \<lparr>sl_id = ''e1'', sl_topic = ''Breath'', sl_exact_coach_feedback = None,
     sl_interpretation = None, sl_applies_to = None, sl_exercise_or_requested_change = None,
     sl_next_action_and_owner = None, sl_start_ms = 0, sl_end_ms = 1000\<rparr>"

subsection \<open>Windows cover the transcript\<close>

lemma windows_from_cover:
  assumes "width = step + overlap" "start \<le> i" "k \<le> overlap + 1" "i + k \<le> length xs" "0 < step" "0 < k"
  shows "\<exists>w \<in> set (windows_from xs width step start). sublist (take k (drop i xs)) w"
  using assms
proof (induction xs width step start rule: windows_from.induct)
  case (1 xs width step start)
  show ?case
  proof (cases "i + k \<le> start + width")
    case True
    with 1(3,5-7) take_drop_sublist [of start i k width xs] show ?thesis
      by (simp add: windows_from.simps [of xs width step start])
  next
    case False
    with 1(2-7) have "start + step \<le> i" "\<not> length xs \<le> start + width" by linarith+
    moreover have "\<not> (step = 0 \<or> length xs \<le> start)" using 1(3,5-7) by linarith
    ultimately show ?thesis
      using 1(1) 1(2,4-7) by (subst windows_from.simps) simp
  qed
qed

lemma windows_from_contiguous:
  "w \<in> set (windows_from xs width step start) \<Longrightarrow> sublist w xs \<and> length w \<le> width"
proof (induction xs width step start rule: windows_from.induct)
  case (1 xs width step start)
  then show ?case
    by (subst (asm) (2) windows_from.simps)
      (auto split: if_splits intro: sublist_order.order.trans [OF sublist_take sublist_drop])
qed

text \<open>
  C19: With any valid configuration the windows lose nothing: every window is a stretch of the
  transcript of at most the configured size, and every run of consecutive segments no longer
  than the overlap plus one, in particular every single segment, is seen whole by one window.
\<close>

theorem split_windows_cover:
  assumes "valid_gateway_settings s"
    and "split_windows segments (gs_window_segment_count s) (gs_window_overlap_segments s) = Inr ws"
  shows "(\<forall>w \<in> set ws. sublist w segments \<and> length w \<le> gs_window_segment_count s) \<and>
    (\<forall>i k. 0 < k \<and> k \<le> gs_window_overlap_segments s + 1 \<and> i + k \<le> length segments \<longrightarrow>
       (\<exists>w \<in> set ws. sublist (take k (drop i segments)) w))"
proof (cases "length segments \<le> gs_window_segment_count s")
  case True
  with assms(2) have "ws = [segments]" by (simp add: split_windows_def)
  with True show ?thesis
    by (auto intro: sublist_order.order.trans [OF sublist_take sublist_drop])
next
  case False
  let ?w = "gs_window_segment_count s" and ?o = "gs_window_overlap_segments s"
  from assms(1) have lt: "?o < ?w" by (simp add: valid_gateway_settings_def)
  with False assms(2) have ws: "ws = windows_from segments ?w (?w - ?o) 0"
    by (simp add: split_windows_def)
  show ?thesis unfolding ws
    using windows_from_contiguous windows_from_cover [of ?w "?w - ?o" ?o 0 _ _ segments] lt
    by (simp add: Ball_def) blast
qed

theorem split_windows_cover_witness:
  "\<exists>ws. split_windows [1::nat, 2, 3, 4, 5] 3 1 = Inr ws \<and> (\<exists>w \<in> set ws. sublist [3, 4] w)"
proof -
  let ?s = "\<lparr>gs_window_segment_count = 3, gs_window_overlap_segments = 1, gs_window_concurrency = 4,
     gs_inbound_api_key = None, gs_openai_api_key = None\<rparr>"
  have v: "valid_gateway_settings ?s" by (simp add: valid_gateway_settings_def)
  have ws: "split_windows [1::nat, 2, 3, 4, 5] 3 1 = Inr [[1, 2, 3], [3, 4, 5]]"
    by (simp add: split_windows_def windows_from.simps)
  have "\<exists>w \<in> set [[1::nat, 2, 3], [3, 4, 5]]. sublist (take 2 (drop 2 [1::nat, 2, 3, 4, 5])) w"
    using split_windows_cover [OF v, of "[1::nat, 2, 3, 4, 5]" "[[1, 2, 3], [3, 4, 5]]",
        simplified gateway_settings.select_convs, OF ws, THEN conjunct2, THEN spec [of _ 2], THEN spec [of _ 2]]
    by simp
  with ws show ?thesis by simp
qed

subsection \<open>What the gateway lets through\<close>

lemma normalize_quote_text_eq: "normalize_quote_text = normalize_text"
  by (rule ext) (simp add: normalize_quote_text_def normalize_text_def)

lemma normalize_evidence_Inr:
  assumes "normalize_evidence body topic ev = Inr (ev', texts)" and "valid_reference ev"
    and "request_for body rv" "revision_ok rv"
  shows "valid_reference ev' \<and> er_transcript_revision_id ev' = r_id rv \<and>
    er_segment_ids ev' = er_segment_ids ev \<and>
    span_exact (r_segments rv) ev' \<and> texts = cited_text (r_segments rv) ev'"
proof -
  let ?segs = "r_segments rv"
  have body: "x_transcript_revision_id body = r_id rv" "x_segments body = ?segs"
    using assms(3) by (simp_all add: request_for_def)
  have segs: "list_all valid_segment ?segs" "distinct (map ts_segment_id ?segs)"
    using assms(4) by (simp_all add: revision_ok_def)
  from assms(1) obtain chosen where look:
      "those (map (dict_by ts_segment_id ?segs) (er_segment_ids ev)) = Some chosen"
    and ne: "chosen \<noteq> []"
    and ev': "ev' = \<lparr>er_transcript_revision_id = r_id rv,
        er_start_ms = Min (set (map ts_start_ms chosen)),
        er_end_ms = Max (set (map ts_end_ms chosen)), er_segment_ids = er_segment_ids ev\<rparr>"
    and texts: "texts = map ts_text chosen"
    by (auto simp: normalize_evidence_def body split: if_splits option.splits)
  note ids = chosen_lookup [OF look]
  have chosen: "set chosen = cited ?segs ev'"
    using chosen_set [of ?segs ev', OF segs(2)] ids ev' by simp
  then have "list_all valid_segment chosen"
    using segs(1) by (auto simp: list_all_iff cited_def)
  then have pos: "\<forall>g \<in> set chosen. 0 \<le> ts_start_ms g \<and> ts_start_ms g < ts_end_ms g"
    by (auto simp: list_all_iff valid_segment_def)
  obtain g where g: "g \<in> set chosen" using ne by (cases chosen) auto
  have "0 \<le> er_start_ms ev'" using pos ne by (simp add: ev')
  moreover have "er_start_ms ev' \<le> ts_start_ms g" "ts_end_ms g \<le> er_end_ms ev'"
    using g by (simp_all add: ev')
  moreover have "er_segment_ids ev' = er_segment_ids ev" by (simp add: ev')
  ultimately have "valid_reference ev'"
    using pos g assms(2) by (fastforce simp: valid_reference_def)
  moreover have "span_exact ?segs ev'"
    using ids(2) unfolding span_exact_def chosen [symmetric] by (simp add: ev')
  ultimately show ?thesis
    by (simp add: ev' texts ids(1) cited_text_def comp_def)
qed

lemma normalize_evidence_list:
  assumes "map_result (normalize_evidence body topic) refs = Inr cts"
    and "list_all valid_reference refs" "request_for body rv" "revision_ok rv"
  shows "list_all valid_reference (map fst cts) \<and>
    map er_segment_ids (map fst cts) = map er_segment_ids refs \<and>
    (\<forall>ref \<in> set (map fst cts). er_transcript_revision_id ref = r_id rv \<and>
       span_exact (r_segments rv) ref) \<and>
    map snd cts = map (cited_text (r_segments rv)) (map fst cts)"
  using assms(1,2)
proof (induction refs arbitrary: cts)
  case (Cons ref refs)
  then obtain ev' texts rest where "normalize_evidence body topic ref = Inr (ev', texts)"
    "map_result (normalize_evidence body topic) refs = Inr rest" "cts = (ev', texts) # rest"
    by auto
  with Cons normalize_evidence_Inr [OF _ _ assms(3,4), of topic ref ev' texts] show ?case by auto
qed simp

text \<open>A validated entry never makes the gateway raise: it is kept or rejected.\<close>

lemma normalize_evidence_no_raise:
  assumes "valid_reference ev" shows "normalize_evidence body topic ev \<noteq> Inl (Inl e)"
proof
  assume "normalize_evidence body topic ev = Inl (Inl e)"
  then have "those (map (dict_by ts_segment_id (x_segments body)) (er_segment_ids ev)) = Some []"
    by (auto simp: normalize_evidence_def reject_def split: if_splits option.splits)
  with assms show False by (simp add: those_eq_Some valid_reference_def)
qed

lemma normalize_entry_data:
  assumes "map_result (normalize_evidence body (le_topic entry)) (le_evidence entry) = Inr cts"
  obtains q a r where
    "normalize_entry entry body =
       (let e = entry\<lparr>le_evidence := map fst cts, le_exact_coach_feedback := q,
                     le_applies_to := a, le_observed_result := r\<rparr>
        in if valid_entry e then Inr e else Inl (Inl GwValidationError))"
    "q = None \<or> q = le_exact_coach_feedback entry \<and> is_verbatim_quote q (concat (map snd cts))"
    "a = None \<or> a = le_applies_to entry \<and> supported_by_evidence SUPPORTED_APPLIES_TO_SHORT_VALUES a
        (py_join [CHR 0x0A] (concat (map snd cts)))"
    "r = None \<or> r = le_observed_result entry \<and> supported_by_evidence [] r
        (py_join [CHR 0x0A] (concat (map snd cts)))"
proof -
  let ?t = "concat (map snd cts)"
  let ?q = "if is_verbatim_quote (le_exact_coach_feedback entry) ?t
      then le_exact_coach_feedback entry else None"
  let ?a = "if supported_by_evidence SUPPORTED_APPLIES_TO_SHORT_VALUES (le_applies_to entry)
        (py_join [CHR 0x0A] ?t) then le_applies_to entry else None"
  let ?r = "if supported_by_evidence [] (le_observed_result entry) (py_join [CHR 0x0A] ?t)
      then le_observed_result entry else None"
  show thesis
    by (rule that [where q = ?q and a = ?a and r = ?r]) (cases entry, use assms in \<open>simp add: normalize_entry_def Let_def\<close>, simp_all)
qed

lemma normalize_entry_Inr:
  assumes "normalize_entry entry body = Inr e" and "valid_entry entry"
    and "request_for body rv" "revision_ok rv"
  shows "valid_entry e \<and> grounded rv (le_evidence e) (le_exact_coach_feedback e) \<and>
    le_topic e = le_topic entry \<and>
    map er_segment_ids (le_evidence e) = map er_segment_ids (le_evidence entry)"
proof -
  obtain cts where cts:
    "map_result (normalize_evidence body (le_topic entry)) (le_evidence entry) = Inr cts"
    using assms(1) by (auto simp: normalize_entry_def)
  have refs: "list_all valid_reference (le_evidence entry)" "le_evidence entry \<noteq> []"
    using assms(2) by (simp_all add: valid_entry_def)
  note facts = normalize_evidence_list [OF cts refs(1) assms(3,4)]
  from cts obtain q a r where e: "e = entry\<lparr>le_evidence := map fst cts,
      le_exact_coach_feedback := q, le_applies_to := a, le_observed_result := r\<rparr>" "valid_entry e"
    and q: "q = None \<or> q = le_exact_coach_feedback entry \<and> is_verbatim_quote q (concat (map snd cts))"
    by (rule normalize_entry_data) (use assms(1) in \<open>auto simp: Let_def split: if_splits\<close>)
  have "quote_supported q (concat (map snd cts))"
    using q by (auto simp: quote_supported_def is_verbatim_quote_def truthy_def normalize_quote_text_eq
        Let_def split: option.splits)
  moreover have "cts \<noteq> []" using facts refs(2) by auto
  ultimately show ?thesis using facts e by (simp add: grounded_def)
qed

lemma normalize_entry_no_raise:
  assumes "valid_entry entry" "request_for body rv" "revision_ok rv"
  shows "normalize_entry entry body \<noteq> Inl (Inl err)"
proof
  assume err: "normalize_entry entry body = Inl (Inl err)"
  have refs: "list_all valid_reference (le_evidence entry)" "le_evidence entry \<noteq> []"
    using assms(1) by (simp_all add: valid_entry_def)
  show False
  proof (cases "map_result (normalize_evidence body (le_topic entry)) (le_evidence entry)")
    case (Inl x)
    with err have "x = Inl err" by (simp add: normalize_entry_def)
    with Inl map_result_Inl refs(1) normalize_evidence_no_raise show False
      by (fastforce simp: list_all_iff)
  next
    case (Inr cts)
    note facts = normalize_evidence_list [OF Inr refs(1) assms(2,3)]
    have "cts \<noteq> []" using facts refs(2) by auto
    with facts assms(1) have "valid_entry (entry\<lparr>le_evidence := map fst cts,
        le_exact_coach_feedback := q, le_applies_to := a, le_observed_result := r\<rparr>)" for q a r
      by (simp add: valid_entry_def)
    with Inr err show False by (elim normalize_entry_data) (simp add: Let_def)
  qed
qed

subsection \<open>Collecting entries\<close>

lemma coerce_entry_step:
  assumes "coerce_entry body st e = Inr st'" and "seen_ok st"
  shows "seen_ok st' \<and> handled st' = Suc (handled st) \<and> set (cst_seen st) \<subseteq> set (cst_seen st') \<and>
    set (cst_entries st') \<subseteq> set (cst_entries st) \<union> kept_entries body [e] \<and>
    entry_identity ` kept_entries body [e] \<subseteq> set (cst_seen st')"
  using assms unfolding coerce_entry_def
  by (auto simp: seen_ok_def handled_def kept_entries_def split: sum.splits if_splits)

lemma coerce_entries_fold:
  assumes "fold_result (coerce_entry body) st es = Inr st'" and "seen_ok st"
  shows "seen_ok st' \<and> handled st' = handled st + length es \<and> set (cst_seen st) \<subseteq> set (cst_seen st') \<and>
    set (cst_entries st') \<subseteq> set (cst_entries st) \<union> kept_entries body es \<and>
    entry_identity ` kept_entries body es \<subseteq> set (cst_seen st')"
  using assms
proof (induction es arbitrary: st)
  case Nil
  then show ?case by (simp add: kept_entries_def)
next
  case (Cons e es)
  then obtain st1 where 1: "coerce_entry body st e = Inr st1"
    and 2: "fold_result (coerce_entry body) st1 es = Inr st'" by auto
  have "kept_entries body (e # es) = kept_entries body [e] \<union> kept_entries body es"
    by (auto simp: kept_entries_def)
  with coerce_entry_step [OF 1 Cons.prems(2)] Cons.IH [OF 2] show ?case by auto
qed

lemma coerce_payloads_fold:
  assumes "fold_result (coerce_payload validate body) (st, n) payloads = Inr (st', m)"
  shows "fold_result (coerce_entry body) st (concat (map (the \<circ> validate) payloads)) = Inr st' \<and>
    m = n + length (concat (map (the \<circ> validate) payloads)) \<and>
    (\<forall>p \<in> set payloads. validate p \<noteq> None)"
  using assms
proof (induction payloads arbitrary: st n)
  case (Cons p payloads)
  then obtain acc where acc: "coerce_payload validate body (st, n) p = Inr acc"
    and 0: "fold_result (coerce_payload validate body) acc payloads = Inr (st', m)" by auto
  then obtain es st1 where es: "validate p = Some es"
    and 1: "fold_result (coerce_entry body) st es = Inr st1" and st1: "acc = (st1, n + length es)"
    by (auto simp: coerce_payload_def split: option.splits)
  note 2 = 0 [unfolded st1]
  have "fold_result (coerce_entry body) st (es @ xs) = fold_result (coerce_entry body) st1 xs" for xs
    using 1 by (induction es arbitrary: st) auto
  with es Cons.IH [OF 2] show ?case by auto
qed simp

lemma gateway_metadata_simps [simp]:
  "valid_entry (gateway_metadata m r e) = valid_entry e"
  "le_evidence (gateway_metadata m r e) = le_evidence e"
  "le_exact_coach_feedback (gateway_metadata m r e) = le_exact_coach_feedback e"
  "entry_identity (gateway_metadata m r e) = entry_identity e"
  by (simp_all add: gateway_metadata_def valid_entry_def entry_identity_def)

lemma coerce_entries_cases:
  assumes "coerce_entries validate payloads body = Inr resp"
  obtains st where
    "seen_ok st" "handled st = gx_model_entry_count resp"
    "gx_model_entry_count resp = length (concat (map (the \<circ> validate) payloads))"
    "\<forall>p \<in> set payloads. validate p \<noteq> None"
    "gx_entries resp = map (gateway_metadata (gx_model_entry_count resp) (cst_rejected st)) (cst_entries st)"
    "gx_rejected_entry_count resp = cst_rejected st"
    "set (cst_entries st) \<subseteq> kept_entries body (concat (map (the \<circ> validate) payloads))"
    "entry_identity ` kept_entries body (concat (map (the \<circ> validate) payloads)) \<subseteq>
       entry_identity ` set (cst_entries st)"
proof -
  let ?init = "\<lparr>cst_entries = [], cst_seen = [], cst_rejected = 0, cst_duplicates = 0\<rparr> :: coerce_state"
  from assms obtain st m where f:
      "fold_result (coerce_payload validate body) (?init, 0) payloads = Inr (st, m)"
    and resp: "resp = \<lparr>gx_entries = map (gateway_metadata m (cst_rejected st)) (cst_entries st),
        gx_model_entry_count = m, gx_rejected_entry_count = cst_rejected st\<rparr>"
    by (auto simp: coerce_entries_def)
  have init: "seen_ok ?init" by (simp add: seen_ok_def)
  note pay = coerce_payloads_fold [OF f]
  note ent = coerce_entries_fold [OF conjunct1 [OF pay] init]
  have seen: "set (cst_seen st) = entry_identity ` set (cst_entries st)"
    using ent by (metis seen_ok_def list.set_map set_rev)
  show thesis
    by (rule that [of st]) (use pay ent seen resp in \<open>auto simp: handled_def\<close>)
qed


text \<open>
  The gateway accounts for every entry of the model. The reported count is the number of
  entries in all windows; kept and rejected entries never exceed it, the difference being
  duplicates; no two entries of the response are the same observation; and no observation that
  survives normalization is lost, whichever window reported it.
\<close>

theorem coerce_entries_accounting:
  assumes "coerce_entries validate payloads body = Inr resp"
  shows "gx_model_entry_count resp = (\<Sum>p\<leftarrow>payloads. length (the (validate p))) \<and>
    length (gx_entries resp) + gx_rejected_entry_count resp \<le> gx_model_entry_count resp \<and>
    distinct (map entry_identity (gx_entries resp)) \<and>
    (\<forall>p \<in> set payloads. \<forall>entry \<in> set (the (validate p)). \<forall>n. normalize_entry entry body = Inr n \<longrightarrow>
       entry_identity n \<in> entry_identity ` set (gx_entries resp))"
  using assms
proof (rule coerce_entries_cases)
  fix st
  assume st: "seen_ok st" "handled st = gx_model_entry_count resp"
    "gx_model_entry_count resp = length (concat (map (the \<circ> validate) payloads))"
    "gx_entries resp = map (gateway_metadata (gx_model_entry_count resp) (cst_rejected st)) (cst_entries st)"
    "gx_rejected_entry_count resp = cst_rejected st"
    "entry_identity ` kept_entries body (concat (map (the \<circ> validate) payloads)) \<subseteq>
       entry_identity ` set (cst_entries st)"
  have ids: "map entry_identity (gx_entries resp) = map entry_identity (cst_entries st)"
    by (simp add: st(4))
  then have ids': "entry_identity ` set (gx_entries resp) = entry_identity ` set (cst_entries st)"
    by (metis list.set_map)
  have "\<forall>p \<in> set payloads. \<forall>entry \<in> set (the (validate p)). \<forall>n. normalize_entry entry body = Inr n \<longrightarrow>
       entry_identity n \<in> entry_identity ` set (gx_entries resp)"
    unfolding ids' using st(6) by (fastforce simp: kept_entries_def)
  moreover have "distinct (map entry_identity (gx_entries resp))"
    unfolding ids using st(1) by (metis seen_ok_def distinct_rev)
  ultimately show ?thesis using st(2,4,5)
    by (simp add: st(3) length_concat comp_def handled_def)
qed

lemma coerce_entry_total:
  assumes "valid_entry e" "request_for body rv" "revision_ok rv"
  shows "\<exists>st'. coerce_entry body st e = Inr st'"
  using normalize_entry_no_raise [OF assms]
  by (auto simp: coerce_entry_def split: sum.splits)

lemma coerce_entries_total:
  assumes "validates valid_entry validate" "request_for body rv" "revision_ok rv"
    and "\<forall>p \<in> set payloads. validate p \<noteq> None"
  shows "\<exists>resp. coerce_entries validate payloads body = Inr resp"
proof -
  have "\<exists>acc'. coerce_payload validate body acc p = Inr acc'" if "p \<in> set payloads" for acc p
  proof -
    from that assms(4) obtain es where es: "validate p = Some es" by fastforce
    with assms(1) have "\<And>e. e \<in> set es \<Longrightarrow> valid_entry e" by (auto simp: validates_def list_all_iff)
    then have "\<exists>st'. fold_result (coerce_entry body) (fst acc) es = Inr st'"
      by (intro fold_result_total coerce_entry_total [OF _ assms(2,3)])
    with es show ?thesis by (auto simp: coerce_payload_def)
  qed
  then have "\<exists>acc. fold_result (coerce_payload validate body) acc0 payloads = Inr acc" for acc0
    by (intro fold_result_total)
  then show ?thesis unfolding coerce_entries_def
    by (metis (no_types, lifting) case_prod_beta rbind.simps(2))
qed

text \<open>
  C24: The extraction endpoint answers exactly when the caller is authorized and every window
  of the transcript was read and decoded: a single failed window fails the whole extraction
  rather than leave a stretch of the session silently uncovered, and nothing else makes it fail.
\<close>

theorem gateway_extract_all_or_nothing:
  assumes "valid_gateway_settings settings" and "validates valid_entry validate"
    and "request_for body rv" and "revision_ok rv"
  shows "(\<exists>resp. gateway_extract settings extract_json validate authorization body = Inr resp) \<longleftrightarrow>
    authorize settings authorization = Inr () \<and>
    (\<exists>ws. split_windows (x_segments body) (gs_window_segment_count settings)
              (gs_window_overlap_segments settings) = Inr ws \<and>
          (\<forall>w \<in> set ws. \<exists>p. extract_json w = Inr p \<and> validate p \<noteq> None))"
  (is "?lhs \<longleftrightarrow> ?rhs")
proof
  assume ?lhs
  then obtain resp ws payloads where auth: "authorize settings authorization = Inr ()"
    and ws: "split_windows (x_segments body) (gs_window_segment_count settings)
              (gs_window_overlap_segments settings) = Inr ws"
    and pay: "list_all2 (\<lambda>w p. client_result (extract_json w) = Inr p) ws payloads"
    and resp: "coerce_entries validate payloads body = Inr resp"
    by (auto simp: gateway_extract_def map_result_Inr_iff)
  have "\<forall>p \<in> set payloads. validate p \<noteq> None"
    using resp by (rule coerce_entries_cases)
  then have "\<forall>w \<in> set ws. \<exists>p. extract_json w = Inr p \<and> validate p \<noteq> None"
    using list_all2_left [OF pay] by (fastforce simp: client_result_def split: sum.splits)
  with auth ws show ?rhs by blast
next
  assume ?rhs
  then obtain ws where auth: "authorize settings authorization = Inr ()"
    and ws: "split_windows (x_segments body) (gs_window_segment_count settings)
              (gs_window_overlap_segments settings) = Inr ws"
    and each: "\<forall>w \<in> set ws. \<exists>p. extract_json w = Inr p \<and> validate p \<noteq> None" by blast
  let ?read = "\<lambda>w. projr (extract_json w)"
  have "client_result (extract_json w) = Inr (?read w) \<and> validate (?read w) \<noteq> None"
    if "w \<in> set ws" for w using each that by (fastforce simp: client_result_def)
  then have "map_result (\<lambda>w. client_result (extract_json w)) ws = Inr (map ?read ws)"
    "\<forall>p \<in> set (map ?read ws). validate p \<noteq> None"
    by (auto intro!: map_result_total)
  with auth ws coerce_entries_total [OF assms(2-4)] show ?lhs
    by (auto simp: gateway_extract_def)
qed

subsection \<open>Claiming ids\<close>

text \<open>
  Consolidation and summary share a loop: each item keeps the ids that are known and not yet
  claimed, and is dropped when none is left.
\<close>

locale claim_loop =
  fixes ids :: "'g \<Rightarrow> string list"
    and with_ids :: "string list \<Rightarrow> 'g \<Rightarrow> 'g"
    and loop :: "string list \<Rightarrow> string list \<Rightarrow> 'g list \<Rightarrow> 'g list \<times> string list"
  assumes ids_with: "ids (with_ids xs g) = xs"
    and loop_Nil: "loop known claimed [] = ([], claimed)"
    and loop_Cons: "loop known claimed (g # gs) =
      (let valid = filter (\<lambda>i. i \<in> set known \<and> i \<notin> set claimed) (ids g)
       in if valid = [] then loop known claimed gs
          else let (out, claimed') = loop known (claimed @ valid) gs
               in (with_ids valid g # out, claimed'))"
begin

lemma loop_claimed:
  "loop known claimed gs = (out, claimed') \<Longrightarrow> claimed' = claimed @ concat (map ids out)"
  by (induction gs arbitrary: claimed out)
    (fastforce simp: loop_Nil loop_Cons ids_with Let_def split: if_splits prod.splits)+

lemma loop_item:
  assumes "loop known claimed gs = (out, claimed')" and "h \<in> set out"
  shows "ids h \<noteq> [] \<and> set (ids h) \<subseteq> set known - set claimed \<and>
    (\<exists>g \<in> set gs. h = with_ids (ids h) g \<and> (distinct (ids g) \<longrightarrow> distinct (ids h)))"
  using assms
proof (induction gs arbitrary: claimed out)
  case (Cons g gs)
  let ?valid = "filter (\<lambda>i. i \<in> set known \<and> i \<notin> set claimed) (ids g)"
  show ?case
  proof (cases "?valid = []")
    case True
    with Cons.prems(1) have "loop known claimed gs = (out, claimed')" by (simp add: loop_Cons)
    from Cons.IH [OF this Cons.prems(2)] show ?thesis by auto
  next
    case False
    then obtain out' where rest: "loop known (claimed @ ?valid) gs = (out', claimed')"
      and out: "out = with_ids ?valid g # out'"
      using Cons.prems(1) by (auto simp: loop_Cons Let_def split: prod.splits)
    show ?thesis
    proof (cases "h = with_ids ?valid g")
      case True
      then have "ids h = ?valid" by (simp add: ids_with)
      with True False show ?thesis by auto
    next
      case False
      with Cons.prems(2) out Cons.IH [OF rest] show ?thesis by auto
    qed
  qed
qed (simp add: loop_Nil)

lemma loop_valid:
  assumes "loop known claimed gs = (out, claimed')" and "list_all V gs"
    and "\<And>xs g. V g \<Longrightarrow> xs \<noteq> [] \<Longrightarrow> (distinct (ids g) \<Longrightarrow> distinct xs) \<Longrightarrow> V (with_ids xs g)"
  shows "list_all V out"
  unfolding list_all_iff
proof
  fix h assume "h \<in> set out"
  from loop_item [OF assms(1) this] obtain g where g: "ids h \<noteq> []" "g \<in> set gs"
    "h = with_ids (ids h) g" "distinct (ids g) \<longrightarrow> distinct (ids h)" by blast
  then have "V (with_ids (ids h) g)" using assms(2) by (intro assms(3)) (auto simp: list_all_iff)
  then show "V h" by (simp only: g(3) [symmetric])
qed

lemma loop_disjoint:
  "loop known claimed gs = (out, claimed') \<Longrightarrow>
     sorted_wrt (\<lambda>g h. set (ids g) \<inter> set (ids h) = {}) out"
proof (induction gs arbitrary: claimed out)
  case (Cons g gs)
  let ?valid = "filter (\<lambda>i. i \<in> set known \<and> i \<notin> set claimed) (ids g)"
  show ?case
  proof (cases "?valid = []")
    case True
    with Cons show ?thesis by (simp add: loop_Cons)
  next
    case False
    then obtain out' where rest: "loop known (claimed @ ?valid) gs = (out', claimed')"
      and out: "out = with_ids ?valid g # out'"
      using Cons.prems by (auto simp: loop_Cons Let_def split: prod.splits)
    have "set ?valid \<inter> set (ids h) = {}" if "h \<in> set out'" for h
      using loop_item [OF rest that] by auto
    with Cons.IH [OF rest] out show ?thesis by (simp add: ids_with)
  qed
qed (simp add: loop_Nil)

end

interpretation cg: claim_loop cg_entry_ids "\<lambda>xs g. g\<lparr>cg_entry_ids := xs\<rparr>" claim_groups
  by unfold_locales (simp_all add: Let_def)

interpretation th: claim_loop th_ledger_entry_ids "\<lambda>xs t. t\<lparr>th_ledger_entry_ids := xs\<rparr>" claim_themes
  by unfold_locales (simp_all add: Let_def)

subsection \<open>Consolidation and summaries\<close>

lemma short_topic_length: "length (short_topic t) \<le> 198" "short_topic t = [] \<longleftrightarrow> t = []"
  by (auto simp: short_topic_def ellipsis_def)

lemma entry_topic_known:
  assumes "i \<in> sl_id ` set entries"
  obtains e where "e \<in> set entries" "sl_id e = i" "entry_topic entries i = Inr (sl_topic e)"
proof (cases "find (\<lambda>e. sl_id e = i) entries")
  case None
  with assms show thesis by (auto simp: find_None_iff)
next
  case (Some e)
  with find_SomeD [OF Some] that [of e] show thesis by (simp add: entry_topic_def)
qed

lemma singles_ids:
  assumes "list_all2 (\<lambda>i g. P g \<and> ids g = [i]) xs gs"
  shows "map ids gs = map (\<lambda>i. [i]) xs"
  using assms by (induction rule: list_all2_induct) auto

text \<open>Items with pairwise disjoint ids, followed by singletons of ids outside them.\<close>

lemma append_singles_disjoint:
  assumes "sorted_wrt (\<lambda>g h. set (ids g) \<inter> set (ids h) = {}) gs"
    and "map ids hs = map (\<lambda>i. [i]) xs" and "distinct xs"
    and "\<And>g. g \<in> set gs \<Longrightarrow> set (ids g) \<inter> set xs = {}"
  shows "sorted_wrt (\<lambda>g h. set (ids g) \<inter> set (ids h) = {}) (gs @ hs)"
proof -
  have "sorted_wrt (\<lambda>g h. set (ids g) \<inter> set (ids h) = {}) hs"
    using assms(2,3)
  proof (induction hs arbitrary: xs)
    case (Cons h hs)
    then obtain x ys where xs: "xs = x # ys" "ids h = [x]" "map ids hs = map (\<lambda>i. [i]) ys"
      by (cases xs) auto
    have "x \<notin> set (ids g)" if "g \<in> set hs" for g
    proof -
      have "ids g \<in> set (map ids hs)" using that by simp
      then show ?thesis using xs Cons.prems(2) by auto
    qed
    with Cons.IH [of ys] xs Cons.prems(2) show ?case by simp
  qed simp
  moreover have "set (ids h) \<subseteq> set xs" if "h \<in> set hs" for h
  proof -
    have "ids h \<in> set (map ids hs)" using that by simp
    then show ?thesis unfolding assms(2) by auto
  qed
  ultimately show ?thesis using assms(1,4) by (fastforce simp: sorted_wrt_append)
qed

text \<open>
  C22: Consolidation partitions the entries it was given, whatever the model answered: every
  group satisfies the contract, groups share no entry, and together they hold exactly the
  request's entries, so that no coaching point is lost or invented.
\<close>

theorem coerce_consolidation_partition:
  assumes "validate payload = Some model_groups" and "validates valid_group validate"
    and "iteration_order order" and "\<forall>e \<in> set (cq_entries body). sl_topic e \<noteq> []"
  shows "\<exists>resp. coerce_consolidation validate order payload body = Inr resp \<and>
    list_all valid_group (cr_groups resp) \<and>
    sorted_wrt (\<lambda>g h. set (cg_entry_ids g) \<inter> set (cg_entry_ids h) = {}) (cr_groups resp) \<and>
    (\<Union>g \<in> set (cr_groups resp). set (cg_entry_ids g)) = sl_id ` set (cq_entries body)"
proof -
  let ?known = "remdups (map sl_id (cq_entries body))"
  obtain groups claimed where loop: "claim_groups ?known [] model_groups = (groups, claimed)"
    by fastforce
  let ?un = "filter (\<lambda>i. i \<notin> set claimed) (order ?known)"
  have order: "distinct (order ?known)" "set (order ?known) = sl_id ` set (cq_entries body)"
    using assms(3) by (simp_all add: iteration_order_def)
  have claimed: "set claimed = (\<Union>g \<in> set groups. set (cg_entry_ids g))"
    using cg.loop_claimed [OF loop] by simp
  have known: "set claimed \<subseteq> sl_id ` set (cq_entries body)"
    unfolding claimed using cg.loop_item [OF loop] by fastforce
  let ?mk = "\<lambda>i. rbind (entry_topic (cq_entries body) i) (\<lambda>topic. mk_group (short_topic topic) [i])"
  let ?P = "\<lambda>i g. valid_group g \<and> cg_entry_ids g = [i]"
  have single: "\<exists>g. ?mk i = Inr g \<and> ?P i g" if "i \<in> set ?un" for i
  proof -
    have "i \<in> sl_id ` set (cq_entries body)" using that order by simp
    then obtain e where e: "e \<in> set (cq_entries body)"
      "entry_topic (cq_entries body) i = Inr (sl_topic e)" by (rule entry_topic_known)
    with assms(4) short_topic_length [of "sl_topic e"] show ?thesis
      by (auto simp: mk_group_def valid_group_def Let_def Suc_le_eq)
  qed
  obtain singles where s: "map_result ?mk ?un = Inr singles" "list_all2 ?P ?un singles"
    using map_result_pointwise [of ?un ?mk ?P, OF single] by blast
  note ids = singles_ids [OF s(2)]
  have "list_all valid_group groups"
    by (rule cg.loop_valid [OF loop]) (use assms(1,2) in \<open>auto simp: validates_def valid_group_def\<close>)
  moreover have "list_all valid_group singles"
    using s(2) by (induction rule: list_all2_induct) auto
  moreover have "sorted_wrt (\<lambda>g h. set (cg_entry_ids g) \<inter> set (cg_entry_ids h) = {}) (groups @ singles)"
    by (rule append_singles_disjoint [OF cg.loop_disjoint [OF loop] ids])
      (use order claimed in auto)
  moreover have "(\<Union>g \<in> set singles. set (cg_entry_ids g)) = set ?un"
  proof -
    have "\<Union> (set ` set (map cg_entry_ids singles)) = set ?un" unfolding ids by auto
    then show ?thesis by simp
  qed
  ultimately show ?thesis using s(1) order known
    by (auto simp: coerce_consolidation_def assms(1) loop Let_def claimed [symmetric])
qed

lemma pre_group_members_known:
  "pre_group_members known grp = Inr xs \<Longrightarrow> set xs \<subseteq> set known"
proof -
  have "set (concat ys) \<subseteq> set known" if "list_all2 (\<lambda>x y. known_member known x = Inr y) js ys" for js ys
    using that
  proof (induction rule: list_all2_induct)
    case (Cons x xs y ys)
    then show ?case by (cases x) (auto split: if_splits)
  qed simp
  then show "pre_group_members known grp = Inr xs \<Longrightarrow> set xs \<subseteq> set known"
    by (auto simp: pre_group_members_def Let_def map_result_Inr_iff split: if_splits json.splits) blast
qed

lemma pre_group_ids_known:
  assumes "pre_group_ids (map sl_id entries) groups = Inr ids"
  shows "distinct ids \<and> set ids \<subseteq> sl_id ` set entries"
proof (cases groups)
  case None
  with assms show ?thesis by (simp add: pre_group_ids_def)
next
  case (Some gs)
  with assms obtain iss where iss: "list_all2 (\<lambda>g is. pre_group_members (map sl_id entries) g = Inr is) gs iss"
    and ids: "ids = remdups (concat iss)"
    by (auto simp: pre_group_ids_def map_result_Inr_iff)
  from iss have "set (concat iss) \<subseteq> sl_id ` set entries"
  proof (induction rule: list_all2_induct)
    case (Cons x xs y ys)
    then show ?case using pre_group_members_known [of "map sl_id entries" x y] by auto
  qed simp
  with ids show ?thesis by simp
qed

text \<open>
  C23: A summary cites only entries it was given, each at most once, in themes that satisfy the
  contract and number at most the limit; and unless the limit was reached, every entry of the
  consolidation that preceded it is cited, even those the model left out.
\<close>

theorem coerce_summary_sound:
  assumes "validate payload = Some model_themes" and "validates valid_theme validate"
    and "\<forall>e \<in> set (sq_entries body). sl_topic e \<noteq> [] \<and> length (sl_topic e) \<le> 4000"
    and "pre_group_ids (map sl_id (sq_entries body)) (sq_pre_groups body) = Inr ids"
    and "0 \<le> max_themes (sq_theme_count body)"
  shows "\<exists>themes. coerce_summary validate payload body = Inr themes \<and>
    list_all valid_theme themes \<and>
    (\<forall>t \<in> set themes. set (th_ledger_entry_ids t) \<subseteq> sl_id ` set (sq_entries body)) \<and>
    sorted_wrt (\<lambda>t u. set (th_ledger_entry_ids t) \<inter> set (th_ledger_entry_ids u) = {}) themes \<and>
    int (length themes) \<le> max_themes (sq_theme_count body) \<and>
    (int (length themes) < max_themes (sq_theme_count body) \<longrightarrow>
       set ids \<subseteq> (\<Union>t \<in> set themes. set (th_ledger_entry_ids t)))"
proof -
  let ?known = "map sl_id (sq_entries body)"
  obtain themes claimed where loop: "claim_themes ?known [] model_themes = (themes, claimed)"
    by fastforce
  let ?un = "sort (filter (\<lambda>i. i \<notin> set claimed) ids)"
  have claimed: "set claimed = (\<Union>t \<in> set themes. set (th_ledger_entry_ids t))"
    using th.loop_claimed [OF loop] by simp
  have ids: "distinct ids" "set ids \<subseteq> sl_id ` set (sq_entries body)"
    using pre_group_ids_known [OF assms(4)] by simp_all
  let ?mk = "\<lambda>i. rbind (entry_topic (sq_entries body) i) (\<lambda>topic. mk_theme (short_topic topic) topic [i])"
  let ?P = "\<lambda>i t. valid_theme t \<and> th_ledger_entry_ids t = [i]"
  have single: "\<exists>t. ?mk i = Inr t \<and> ?P i t" if "i \<in> set ?un" for i
  proof -
    have "i \<in> sl_id ` set (sq_entries body)" using that ids(2) by auto
    then obtain e where e: "e \<in> set (sq_entries body)"
      "entry_topic (sq_entries body) i = Inr (sl_topic e)" by (rule entry_topic_known)
    with assms(3) short_topic_length [of "sl_topic e"] show ?thesis
      by (auto simp: mk_theme_def valid_theme_def Let_def Suc_le_eq)
  qed
  obtain singles where s: "map_result ?mk ?un = Inr singles" "list_all2 ?P ?un singles"
    using map_result_pointwise [of ?un ?mk ?P, OF single] by blast
  note sids = singles_ids [OF s(2)]
  let ?all = "themes @ singles" and ?limit = "max_themes (sq_theme_count body)"
  have "list_all valid_theme themes"
    by (rule th.loop_valid [OF loop]) (use assms(1,2) in \<open>auto simp: validates_def valid_theme_def\<close>)
  moreover have "list_all valid_theme singles"
    using s(2) by (induction rule: list_all2_induct) auto
  ultimately have valid: "list_all valid_theme ?all" by simp
  have disj: "sorted_wrt (\<lambda>t u. set (th_ledger_entry_ids t) \<inter> set (th_ledger_entry_ids u) = {}) ?all"
    by (rule append_singles_disjoint [OF th.loop_disjoint [OF loop] sids])
      (use ids claimed in auto)
  have un: "(\<Union>t \<in> set singles. set (th_ledger_entry_ids t)) = set ?un"
  proof -
    have "\<Union> (set ` set (map th_ledger_entry_ids singles)) = set ?un" unfolding sids by auto
    then show ?thesis by simp
  qed
  have "set (th_ledger_entry_ids t) \<subseteq> sl_id ` set (sq_entries body)" if "t \<in> set themes" for t
    using th.loop_item [OF loop that] by simp
  moreover have "set (th_ledger_entry_ids t) \<subseteq> sl_id ` set (sq_entries body)" if "t \<in> set singles" for t
  proof -
    have "set (th_ledger_entry_ids t) \<subseteq> set ?un" using that un by blast
    moreover have "set ?un \<subseteq> set ids" by auto
    ultimately show ?thesis using ids(2) by (rule order_trans [OF order_trans])
  qed
  ultimately have cites: "\<forall>t \<in> set ?all. set (th_ledger_entry_ids t) \<subseteq> sl_id ` set (sq_entries body)"
    unfolding set_append by blast
  have cover: "set ids \<subseteq> (\<Union>t \<in> set ?all. set (th_ledger_entry_ids t))"
    using un claimed by auto
  have run: "coerce_summary validate payload body =
      Inr (if ?limit < int (length ?all) then take (nat ?limit) ?all else ?all)"
    using assms(1,4,5) loop s(1) by (simp add: coerce_summary_def slice_to_def Let_def)
  show ?thesis unfolding run
    using valid disj sorted_wrt_take [OF disj, of "nat ?limit"] cites cover assms(5)
    by (auto simp: list_all_iff sorted_wrt_take dest: in_set_takeD)
qed

text \<open>The gateway fails closed: a request is authorized exactly when a key is configured and
  the header is \<^verbatim>\<open>Bearer\<close> followed by that key; without a configured key nothing is.\<close>

theorem authorize_iff:
  "authorize settings header = Inr () \<longleftrightarrow>
     (\<exists>key. gs_inbound_api_key settings = Some key \<and> key \<noteq> [] \<and> header = Some (bearer @ key))"
proof (cases "gs_inbound_api_key settings")
  case None
  then show ?thesis by (simp add: authorize_def truthy_def)
next
  case (Some key)
  have "prefix bearer h \<and> drop (length bearer) h = key \<longleftrightarrow> h = bearer @ key" for h
    by (auto simp: prefix_def)
  moreover have "\<not> prefix bearer []" by (simp add: bearer_def)
  ultimately show ?thesis using Some
    by (cases header) (auto simp: authorize_def truthy_def)
qed

lemma demo_gateway:
  "request_for demo_request demo_revision" "revision_ok demo_revision"
  "validates valid_entry demo_validate" "demo_validate JNull = Some [demo_entry]"
  using demo_ok by (simp_all add: request_for_def demo_request_def demo_revision_def revision_ok_def
      validates_def demo_validate_def valid_segment_def demo_segment_def)

lemma demo_normalized: "normalize_entry demo_entry demo_request = Inr demo_entry"
proof -
  have "normalize_evidence demo_request ''Breath'' demo_reference = Inr (demo_reference, [''Go low''])"
    by (simp add: normalize_evidence_def demo_request_def demo_reference_def demo_segment_def dict_by_def)
  moreover have "is_verbatim_quote (Some ''go  low'') [''Go low'']"
    by (simp add: is_verbatim_quote_def normalize_quote_text_eq demo_normalize)
  ultimately show ?thesis
    using demo_ok(1)
    by (simp add: normalize_entry_def demo_entry_def supported_by_evidence_def)
qed

lemma demo_coerced: "coerce_entries demo_validate [JNull] demo_request =
   Inr \<lparr>gx_entries = [gateway_metadata 1 0 demo_entry], gx_model_entry_count = 1,
        gx_rejected_entry_count = 0\<rparr>"
  by (simp add: coerce_entries_def coerce_payload_def demo_gateway(4) coerce_entry_def demo_normalized)


theorem gateway_extract_all_or_nothing_witness:
  "\<exists>resp. gateway_extract
     \<lparr>gs_window_segment_count = 3, gs_window_overlap_segments = 1, gs_window_concurrency = 4,
      gs_inbound_api_key = Some ''0123456789abcdef'', gs_openai_api_key = None\<rparr>
     (\<lambda>_. Inr JNull) demo_validate (Some (bearer @ ''0123456789abcdef'')) demo_request = Inr resp"
proof -
  let ?s = "\<lparr>gs_window_segment_count = 3, gs_window_overlap_segments = 1, gs_window_concurrency = 4,
      gs_inbound_api_key = Some ''0123456789abcdef'', gs_openai_api_key = None\<rparr>"
  have v: "valid_gateway_settings ?s" by (simp add: valid_gateway_settings_def)
  show ?thesis
    unfolding gateway_extract_all_or_nothing [OF v demo_gateway(3,1,2)]
    by (simp add: authorize_def truthy_def bearer_def split_windows_def demo_request_def demo_gateway(4))
qed

theorem coerce_consolidation_partition_witness:
  "\<exists>resp. coerce_consolidation
       (\<lambda>p. Some [\<lparr>cg_canonical_topic = ''Breath'', cg_entry_ids = [''e9'']\<rparr>]) id JNull
       \<lparr>cq_session_id = ''a'', cq_session_title = ''Lesson'', cq_entries = [demo_line]\<rparr> = Inr resp \<and>
     (\<Union>g \<in> set (cr_groups resp). set (cg_entry_ids g)) = {''e1''}"
proof -
  let ?v = "\<lambda>p :: json. Some [\<lparr>cg_canonical_topic = ''Breath'', cg_entry_ids = [''e9'']\<rparr>]"
  let ?b = "\<lparr>cq_session_id = ''a'', cq_session_title = ''Lesson'', cq_entries = [demo_line]\<rparr>"
  have "?v JNull = Some [\<lparr>cg_canonical_topic = ''Breath'', cg_entry_ids = [''e9'']\<rparr>]"
    "validates valid_group ?v" "iteration_order id" "\<forall>e \<in> set (cq_entries ?b). sl_topic e \<noteq> []"
    by (simp_all add: validates_def valid_group_def iteration_order_def demo_line_def)
  from coerce_consolidation_partition [of ?v JNull, OF this] show ?thesis by (auto simp: demo_line_def)
qed

theorem coerce_summary_sound_witness:
  "\<exists>themes. coerce_summary (\<lambda>p. Some []) JNull
       \<lparr>sq_session_id = ''a'', sq_session_title = ''Lesson'', sq_transcript_revision_id = ''r1'', sq_theme_count = None,
        sq_pre_groups = Some [[(''entry_ids'', JList [JStr ''e1''])]], sq_entries = [demo_line]\<rparr> =
       Inr themes \<and> (length themes < 25 \<longrightarrow> ''e1'' \<in> (\<Union>t \<in> set themes. set (th_ledger_entry_ids t)))"
proof -
  let ?v = "\<lambda>p :: json. Some [] :: SummaryThemeCreate list option"
  let ?b = "\<lparr>sq_session_id = ''a'', sq_session_title = ''Lesson'', sq_transcript_revision_id = ''r1'', sq_theme_count = None,
        sq_pre_groups = Some [[(''entry_ids'', JList [JStr ''e1''])]], sq_entries = [demo_line]\<rparr>"
  have "?v JNull = Some []" "validates valid_theme ?v"
    "\<forall>e \<in> set (sq_entries ?b). sl_topic e \<noteq> [] \<and> length (sl_topic e) \<le> 4000"
    "pre_group_ids (map sl_id (sq_entries ?b)) (sq_pre_groups ?b) = Inr [''e1'']"
    "0 \<le> max_themes (sq_theme_count ?b)"
    by (simp_all add: validates_def demo_line_def pre_group_ids_def pre_group_members_def obj_get_def
        max_themes_def)
  from coerce_summary_sound [of ?v JNull, OF this] show ?thesis by (auto simp: max_themes_def)
qed

end
