(* ===== verification/Api.thy ===== *)
theory Api
  imports Services
begin

text \<open>
  The endpoints of \<^verbatim>\<open>evidence_api/app.py\<close>. A handler takes the database, the clock and the ids
  it will use for new rows, and returns its response, or the HTTP error it raises, with the
  database after it. A handler runs as one transaction: what it raised before its commit is
  rolled back. \<^verbatim>\<open>upload_media\<close>, which commits before it reads the upload, is two of them; its
  second commit is guarded by the version the first one read, as SQLAlchemy's
  \<^verbatim>\<open>version_id_col\<close> does. Role checks are in theory \<^verbatim>\<open>Auth\<close>; the Speakr adapter, the hash
  functions and the parsers of JSON text and of ISO timestamps are parameters.
\<close>

datatype api_error =
    Http nat string
  | Unhandled py_error

type_synonym 'r handler = "(api_error, 'r) result \<times> db"

text \<open>\<^verbatim>\<open>invalid_state_handler\<close> answers 409; any other error of the services is a 500.\<close>

definition from_py :: "(py_error, 'a) result \<Rightarrow> (api_error, 'a) result" where
  "from_py r = (case r of
      Inr x \<Rightarrow> Inr x
    | Inl (InvalidStateTransition a b) \<Rightarrow> Inl (Http 409 ''invalid_state_transition'')
    | Inl e \<Rightarrow> Inl (Unhandled e))"

text \<open>Commit on success, roll back on an error.\<close>

definition transaction :: "db \<Rightarrow> (api_error, 'r \<times> db) result \<Rightarrow> 'r handler" where
  "transaction d r = (case r of Inl e \<Rightarrow> (Inl e, d) | Inr (x, d') \<Rightarrow> (Inr x, d'))"

record api_settings =
  as_worker_max_attempts :: nat
  as_worker_job_lease_seconds :: int
  as_max_upload_bytes :: nat
  as_media_root :: string
  as_speakr_webhook_secret :: "string option"
  as_webhook_freshness_seconds :: int

definition session_or_404 :: "db \<Rightarrow> string \<Rightarrow> (api_error, SessionRecord) result" where
  "session_or_404 d i = (case get_session d i of
      None \<Rightarrow> Inl (Http 404 ''session_not_found'') | Some r \<Rightarrow> Inr r)"

definition job_or_404 :: "db \<Rightarrow> string \<Rightarrow> (api_error, JobRecord) result" where
  "job_or_404 d i = (case get_job d i of
      None \<Rightarrow> Inl (Http 404 ''job_not_found'') | Some r \<Rightarrow> Inr r)"

subsection \<open>Sessions\<close>

definition create_session :: "string \<Rightarrow> int \<Rightarrow> db \<Rightarrow> CreateSessionRequest \<Rightarrow> SessionResponse handler" where
  "create_session new_id now d body =
     (let record = new_session new_id now body;
          d' = d\<lparr>db_sessions := tbl_add (db_sessions d) record\<rparr>
      in (Inr (session_response d' record), d'))"

definition list_sessions :: "db \<Rightarrow> SessionResponse list" where
  "list_sessions d =
     map (session_response d)
       (sort_key (\<lambda>s. - s_created_at s) (filter (\<lambda>s. s_state s \<noteq> S_DELETED) (db_sessions d)))"

definition read_session :: "db \<Rightarrow> string \<Rightarrow> (api_error, SessionResponse) result" where
  "read_session d i = rbind (session_or_404 d i) (\<lambda>r. Inr (session_response d r))"

subsection \<open>Upload\<close>

definition safe_char :: "char \<Rightarrow> bool" where
  "safe_char c \<longleftrightarrow> word_char c \<or> c = CHR ''.'' \<or> c = CHR ''-''"

text \<open>\<^verbatim>\<open>Path(filename).name\<close>: the last component that is neither empty nor a single dot.\<close>

fun path_parts :: "string \<Rightarrow> string list" where
  "path_parts [] = [[]]"
| "path_parts (c # cs) =
     (case path_parts cs of
        [] \<Rightarrow> [[c]]
      | p # ps \<Rightarrow> if c = CHR ''/'' then [] # p # ps else (c # p) # ps)"

definition path_name :: "string \<Rightarrow> string" where
  "path_name s =
     (let parts = filter (\<lambda>p. p \<noteq> [] \<and> p \<noteq> ''.'') (path_parts s)
      in if parts = [] then [] else last parts)"

text \<open>\<^verbatim>\<open>re.sub(r"[^A-Za-z0-9._-]+", "_", base)\<close>: each maximal run of other characters becomes
  one underscore.\<close>

function squash_unsafe :: "string \<Rightarrow> string" where
  "squash_unsafe [] = []"
| "squash_unsafe (c # cs) =
     (if safe_char c then c # squash_unsafe cs
      else CHR ''_'' # squash_unsafe (dropWhile (\<lambda>x. \<not> safe_char x) cs))"
  by pat_completeness auto
termination
  by (relation "measure length") (auto simp: less_Suc_eq_le length_dropWhile_le)

definition strip_dots :: "string \<Rightarrow> string" where
  "strip_dots s =
     (let edge = (\<lambda>c. c = CHR ''.'' \<or> c = CHR ''_'')
      in rev (dropWhile edge (rev (dropWhile edge s))))"

definition safe_filename :: "string \<Rightarrow> string" where
  "safe_filename filename =
     (let safe = take 240 (strip_dots (squash_unsafe (path_name filename)))
      in if safe = [] then ''recording.bin'' else safe)"

text \<open>\<^verbatim>\<open>Path(name).suffix\<close>: from the last dot, unless it is the first or the last character.\<close>

definition path_suffix :: "string \<Rightarrow> string" where
  "path_suffix name =
     (let tail = takeWhile (\<lambda>c. c \<noteq> CHR ''.'') (rev name)
      in if tail = [] \<or> length name \<le> Suc (length tail) then []
         else CHR ''.'' # rev tail)"

text \<open>The first transaction: a session that has its recording is only nudged on.\<close>

datatype upload_start = Upload_done SessionResponse | Upload_begun SessionRecord

definition start_upload ::
  "api_settings \<Rightarrow> string \<Rightarrow> int \<Rightarrow> db \<Rightarrow> string \<Rightarrow> upload_start handler" where
  "start_upload settings new_id now d sid =
     transaction d (rbind (session_or_404 d sid) (\<lambda>record.
       if truthy (s_media_path record) \<and>
          s_state record \<in> {S_UPLOADED, S_TRANSCRIBING, S_RECONCILING, S_TRANSCRIPT_READY,
            S_EXTRACTING, S_AWAITING_REVIEW, S_COMPLETE, S_RETRY_PENDING}
       then let ensure = (\<lambda>t. snd (snd (ensure_job new_id now d sid t
                                          (as_worker_max_attempts settings))))
            in if s_state record = S_UPLOADED
               then rbind (from_py (transition record S_TRANSCRIBING)) (\<lambda>r.
                      let d' = save_session now r (ensure T_TRANSCRIBE)
                      in Inr (Upload_done (session_response d' r), d'))
               else if s_state record = S_TRANSCRIBING
               then let d' = ensure (if truthy (s_speakr_recording_id record) then T_RECONCILE
                                     else T_TRANSCRIBE)
                    in Inr (Upload_done (session_response d' record), d')
               else if s_state record = S_RECONCILING
               then let d' = ensure T_RECONCILE
                    in Inr (Upload_done (session_response d' record), d')
               else Inr (Upload_done (session_response d record), d)
       else rbind (from_py (transition record S_UPLOADING)) (\<lambda>r.
              let d' = save_session now r d
              in Inr (Upload_begun (the (get_session d' sid)), d'))))"

text \<open>The loop that reads the chunks, with the bytes read so far.\<close>

fun read_chunks :: "nat \<Rightarrow> nat \<Rightarrow> string \<Rightarrow> string list \<Rightarrow> (api_error, nat \<times> string) result" where
  "read_chunks limit n content [] =
     (if n = 0 then Inl (Http 422 ''empty_upload'') else Inr (n, content))"
| "read_chunks limit n content (chunk # chunks) =
     (if chunk = [] then read_chunks limit n content []
      else if limit < n + length chunk then Inl (Http 413 ''upload_too_large'')
      else read_chunks limit (n + length chunk) (content @ chunk) chunks)"

definition media_destination :: "api_settings \<Rightarrow> string \<Rightarrow> string \<Rightarrow> string" where
  "media_destination settings sid safe_name =
     as_media_root settings @ ''/'' @ sid @ ''/original'' @ casefold (path_suffix safe_name)"

text \<open>
  The second transaction, on the row as the first one left it. \<open>disk\<close> is the outcome of the file
  operations. When the row has changed meanwhile, nothing is written; \<open>stale\<close> is what the commit
  of the failed transaction raises.
\<close>

definition finish_upload ::
  "api_settings \<Rightarrow> (string \<Rightarrow> string) \<Rightarrow> (api_error \<Rightarrow> string) \<Rightarrow> (api_error, unit) result \<Rightarrow> api_error \<Rightarrow>
   string \<Rightarrow> int \<Rightarrow> db \<Rightarrow> SessionRecord \<Rightarrow> string option \<Rightarrow> string list \<Rightarrow> SessionResponse handler" where
  "finish_upload settings sha256 show_error disk stale new_id now d record filename chunks =
     (if map_option s_version (get_session d (s_id record)) \<noteq> Some (s_version record)
      then (Inl stale, d)
      else
        let name = (if truthy filename then the filename else ''recording.bin'');
            safe_name = safe_filename name;
            outcome =
              rbind (read_chunks (as_max_upload_bytes settings) 0 [] chunks) (\<lambda>(n, content).
                rbind disk (\<lambda>_.
                let r = record\<lparr>s_original_filename := Some (if truthy filename then the filename
                                                            else safe_name),
                           s_media_path := Some (media_destination settings (s_id record) safe_name),
                           s_media_sha256 := Some (sha256 content),
                           s_media_size_bytes := Some n\<rparr>
                in rbind (from_py (transition r S_UPLOADED)) (\<lambda>r1.
                   rbind (from_py (transition r1 S_TRANSCRIBING)) (\<lambda>r2. Inr r2))))
        in case outcome of
             Inr r \<Rightarrow>
               let d' = save_session now r (snd (snd (ensure_job new_id now d (s_id record)
                          T_TRANSCRIBE (as_worker_max_attempts settings))))
               in (Inr (session_response d' r), d')
           | Inl e \<Rightarrow>
               (Inl e, save_session now (record\<lparr>s_state := S_FAILED,
                  s_last_error := Some (take 4000 (''media upload failed: '' @ show_error e))\<rparr>) d))"

text \<open>Playback: the stored path with its media type and headers. \<open>is_file\<close> asks the file system and
  \<open>guess_type\<close> is the table of \<^verbatim>\<open>mimetypes\<close>.\<close>

record media_file =
  mf_path :: string
  mf_media_type :: string
  mf_headers :: "(string \<times> string) list"

definition play_media ::
  "(string \<Rightarrow> bool) \<Rightarrow> (string \<Rightarrow> string option) \<Rightarrow> db \<Rightarrow> string \<Rightarrow> (api_error, media_file) result" where
  "play_media is_file guess_type d sid =
     rbind (session_or_404 d sid) (\<lambda>record.
       if \<not> truthy (s_media_path record) \<or> \<not> is_file (the (s_media_path record))
       then Inl (Http 404 ''media_not_found'')
       else let guessed = guess_type (case s_original_filename record of None \<Rightarrow> [] | Some n \<Rightarrow> n)
            in Inr \<lparr>mf_path = the (s_media_path record),
                    mf_media_type = (if truthy guessed then the guessed else ''application/octet-stream''),
                    mf_headers = [(''Cache-Control'', ''private, no-store'')]\<rparr>)"

subsection \<open>Jobs\<close>

definition prepare_state_for_job :: "SessionRecord \<Rightarrow> JobType \<Rightarrow> (api_error, SessionRecord) result" where
  "prepare_state_for_job record t =
     (let current = s_state record
      in if current \<in> {S_DELETE_PENDING, S_DELETED} then Inl (Http 409 ''job_not_allowed'')
         else if t = T_TRANSCRIBE \<and> truthy (s_pending_operation_kind record)
         then Inl (Http 409 AMBIGUOUS_OPERATION_ERROR_CODE)
         else case t of
             T_TRANSCRIBE \<Rightarrow>
               if current \<notin> {S_UPLOADED, S_RETRY_PENDING}
               then Inl (Http 409 ''transcription_not_allowed'')
               else from_py (transition record S_TRANSCRIBING)
           | T_RECONCILE \<Rightarrow>
               if \<not> truthy (s_speakr_recording_id record)
               then Inl (Http 409 ''reconciliation_not_allowed'')
               else if current \<notin> {S_TRANSCRIBING, S_RECONCILING, S_TRANSCRIPT_READY,
                      S_AWAITING_REVIEW, S_COMPLETE, S_RETRY_PENDING}
               then Inl (Http 409 ''reconciliation_not_allowed'')
               else from_py (transition record S_RECONCILING)
           | T_EXTRACT \<Rightarrow>
               if \<not> truthy (s_current_transcript_revision_id record)
               then Inl (Http 409 ''extraction_not_allowed'')
               else if current \<notin> {S_TRANSCRIPT_READY, S_AWAITING_REVIEW, S_RETRY_PENDING}
               then Inl (Http 409 ''extraction_not_allowed'')
               else from_py (transition record S_EXTRACTING)
           | T_SUMMARIZE \<Rightarrow>
               if \<not> truthy (s_current_transcript_revision_id record)
               then Inl (Http 409 ''summary_not_allowed'')
               else Inr record)"

definition create_job ::
  "api_settings \<Rightarrow> string \<Rightarrow> int \<Rightarrow> db \<Rightarrow> string \<Rightarrow> JobType \<Rightarrow> JobResponse handler" where
  "create_job settings new_id now d sid t =
     transaction d (rbind (session_or_404 d sid) (\<lambda>record.
       let (job, created, d1) = ensure_job new_id now d sid t (as_worker_max_attempts settings)
       in if created
          then rbind (prepare_state_for_job record t) (\<lambda>r.
                 Inr (job_response job, save_session now r d1))
          else Inr (job_response job, d1)))"

definition list_jobs :: "db \<Rightarrow> string \<Rightarrow> (api_error, JobResponse list) result" where
  "list_jobs d sid = rbind (session_or_404 d sid) (\<lambda>_.
     Inr (map job_response (sort_key (\<lambda>j. - j_created_at j)
       (filter (\<lambda>j. j_session_id j = sid) (db_jobs d)))))"

definition cancel_job :: "int \<Rightarrow> db \<Rightarrow> string \<Rightarrow> JobResponse handler" where
  "cancel_job now d jid =
     transaction d (rbind (job_or_404 d jid) (\<lambda>job.
       if \<not> active_status (j_status job) then Inl (Http 409 ''job_not_cancellable'')
       else let job' = job\<lparr>j_status := J_CANCELLED\<rparr>;
                d1 = save_job now job' d
            in rbind (session_or_404 d (j_session_id job)) (\<lambda>r.
                 if s_state r \<in> {S_TRANSCRIBING, S_EXTRACTING, S_RETRY_PENDING}
                 then rbind (from_py (transition r S_CANCELLED)) (\<lambda>r'.
                        Inr (job_response job', save_session now r' d1))
                 else Inr (job_response job', d1))))"

definition retry_job :: "string \<Rightarrow> int \<Rightarrow> db \<Rightarrow> string \<Rightarrow> JobResponse handler" where
  "retry_job new_id now d jid =
     transaction d (rbind (job_or_404 d jid) (\<lambda>old.
       if j_status old \<notin> {J_FAILED, J_CANCELLED} then Inl (Http 409 ''job_not_retryable'')
       else rbind (session_or_404 d (j_session_id old)) (\<lambda>r.
            rbind (if s_state r \<in> {S_FAILED, S_CANCELLED}
                   then from_py (transition r S_RETRY_PENDING) else Inr r) (\<lambda>r1.
            rbind (prepare_state_for_job r1 (j_type old)) (\<lambda>r2.
              let job = new_job new_id now (j_session_id old) (j_type old) (j_max_attempts old)
              in Inr (job_response job,
                      save_session now r2 (d\<lparr>db_jobs := tbl_add (db_jobs d) job\<rparr>)))))))"

definition refresh_from_speakr ::
  "api_settings \<Rightarrow> string \<Rightarrow> int \<Rightarrow> db \<Rightarrow> string \<Rightarrow> SessionResponse handler" where
  "refresh_from_speakr settings new_id now d sid =
     transaction d (rbind (session_or_404 d sid) (\<lambda>record.
       if s_state record \<in> {S_DELETE_PENDING, S_DELETED} then Inl (Http 409 ''refresh_not_allowed'')
       else if truthy (s_pending_operation_kind record)
       then Inl (Http 409 AMBIGUOUS_OPERATION_ERROR_CODE)
       else
         let reopened_state = (if s_state record \<in> {S_FAILED, S_CANCELLED}
                               then from_py (transition record S_RETRY_PENDING) else Inr record);
             ensure = (\<lambda>t. snd (snd (ensure_job new_id now d sid t (as_worker_max_attempts settings))))
         in if \<not> truthy (s_speakr_recording_id record)
            then if \<not> truthy (s_media_path record) then Inl (Http 409 ''refresh_not_allowed'')
                 else rbind reopened_state (\<lambda>r.
                        let d' = save_session now r (ensure T_TRANSCRIBE)
                        in Inr (session_response d' r, d'))
            else rbind reopened_state (\<lambda>r.
                 rbind (from_py (transition r S_RECONCILING)) (\<lambda>r'.
                   let d' = save_session now r' (ensure T_RECONCILE)
                   in Inr (session_response d' r', d')))))"

definition cancel_active_jobs :: "int \<Rightarrow> string \<Rightarrow> JobStatus set \<Rightarrow> db \<Rightarrow> db" where
  "cancel_active_jobs now sid statuses d =
     d\<lparr>db_jobs := map (\<lambda>j. if j_session_id j = sid \<and> j_status j \<in> statuses
                            then j\<lparr>j_status := J_CANCELLED, j_updated_at := now,
                                   j_version := Suc (j_version j)\<rparr>
                            else j) (db_jobs d)\<rparr>"

definition cancel_session :: "int \<Rightarrow> db \<Rightarrow> string \<Rightarrow> SessionResponse handler" where
  "cancel_session now d sid =
     transaction d (rbind (session_or_404 d sid) (\<lambda>record.
       if s_state record \<notin> {S_CREATED, S_UPLOADING, S_UPLOADED, S_TRANSCRIBING, S_RECONCILING,
            S_TRANSCRIPT_READY, S_EXTRACTING, S_RETRY_PENDING}
       then Inl (Http 409 ''session_not_cancellable'')
       else rbind (from_py (transition record S_CANCELLED)) (\<lambda>r.
              let d' = save_session now r (cancel_active_jobs now sid {J_QUEUED, J_RUNNING} d)
              in Inr (session_response d' r, d'))))"

subsection \<open>Resolving an ambiguous provider operation\<close>

datatype resolution_outcome = not_created | adopt_existing

record ResolveUploadOperationRequest =
  ro_confirm_operation_id :: string
  ro_outcome :: resolution_outcome
  ro_speakr_recording_id :: "string option"
  ro_allow_unverified_absence :: bool
  ro_override_reason :: "string option"

text \<open>What the handler calls of the adapter: the identity of a recording, and, where the adapter
  supports it, the recording an operation created.\<close>

record speakr_lookup =
  sp_get_recording :: "string \<Rightarrow> (AdapterError, string) result"
  sp_find_operation :: "(string \<Rightarrow> string option \<Rightarrow> (AdapterError, string option) result) option"

definition latest_ambiguous_job :: "db \<Rightarrow> string \<Rightarrow> string option \<Rightarrow> JobRecord option" where
  "latest_ambiguous_job d sid op =
     (case sort_key (\<lambda>j. - j_updated_at j)
             (filter (\<lambda>j. j_session_id j = sid \<and> j_type j = T_TRANSCRIBE \<and> j_status j = J_FAILED \<and>
                j_error_code j = Some AMBIGUOUS_OPERATION_ERROR_CODE \<and> op \<noteq> None \<and>
                j_ambiguous_operation_id j = op) (db_jobs d)) of
        [] \<Rightarrow> None | j # _ \<Rightarrow> Some j)"

text \<open>The checks of an \<^verbatim>\<open>adopt_existing\<close> request: the recording it adopts.\<close>

definition adopted_recording ::
  "speakr_lookup \<Rightarrow> db \<Rightarrow> SessionRecord \<Rightarrow> string \<Rightarrow> ResolveUploadOperationRequest \<Rightarrow>
   (api_error, string) result" where
  "adopted_recording adapter d record kind body =
     (if ro_allow_unverified_absence body \<or> truthy (ro_override_reason body)
      then Inl (Http 422 ''absence_override_not_applicable'')
      else rbind
        (if kind = ''upload''
         then if \<not> truthy (ro_speakr_recording_id body)
              then Inl (Http 409 ''speakr_recording_id_required'')
              else if list_ex (\<lambda>s. s_speakr_recording_id s = ro_speakr_recording_id body \<and>
                        s_id s \<noteq> s_id record) (db_sessions d)
              then Inl (Http 409 ''recording_already_linked'')
              else Inr (the (ro_speakr_recording_id body))
         else if truthy (ro_speakr_recording_id body)
              then Inl (Http 409 ''speakr_recording_id_not_applicable'')
              else if \<not> truthy (s_speakr_recording_id record)
              then Inl (Http 409 ''speakr_recording_id_required'')
              else Inr (the (s_speakr_recording_id record)))
        (\<lambda>remote. case sp_get_recording adapter remote of
            Inl exc \<Rightarrow> Inl (Http (if ae_code exc = ''adapter_not_configured'' then 503 else 422)
                         ''adopted_recording_unreachable'')
          | Inr found \<Rightarrow> if found \<noteq> remote then Inl (Http 422 ''adopted_recording_mismatch'')
                         else Inr remote))"

text \<open>The checks of a \<^verbatim>\<open>not_created\<close> request: how the absence was verified.\<close>

definition absence_method ::
  "speakr_lookup \<Rightarrow> SessionRecord \<Rightarrow> string \<Rightarrow> ResolveUploadOperationRequest \<Rightarrow>
   (api_error, string) result" where
  "absence_method adapter record kind body =
     (if truthy (ro_speakr_recording_id body)
      then Inl (Http 422 ''speakr_recording_id_not_applicable'')
      else case sp_find_operation adapter of
          Some lookup \<Rightarrow>
            (case lookup kind (s_pending_operation_id record) of
               Inl exc \<Rightarrow> Inl (Http 502 ''absence_verification_failed'')
             | Inr (Some _) \<Rightarrow> Inl (Http 409 ''provider_operation_was_created'')
             | Inr None \<Rightarrow> Inr ''provider_operation_lookup'')
        | None \<Rightarrow>
            let reason = strip (case ro_override_reason body of None \<Rightarrow> [] | Some r \<Rightarrow> r)
            in if \<not> ro_allow_unverified_absence body \<or> length reason < 10
               then Inl (Http 409 ''absence_override_required'')
               else Inr ''explicit_operator_override'')"

text \<open>The recording adopted, how the outcome was verified, and the session row before its marker is
  cleared.\<close>

definition resolution_effect ::
  "speakr_lookup \<Rightarrow> int \<Rightarrow> db \<Rightarrow> SessionRecord \<Rightarrow> string \<Rightarrow> ResolveUploadOperationRequest \<Rightarrow>
   (api_error, string option \<times> string \<times> SessionRecord) result" where
  "resolution_effect adapter now d record kind body =
     (case ro_outcome body of
        adopt_existing \<Rightarrow>
          rbind (adopted_recording adapter d record kind body) (\<lambda>remote.
            Inr (Some remote, ''provider_recording_lookup'',
                 if kind = ''upload'' then record\<lparr>s_speakr_recording_id := Some remote\<rparr>
                 else record\<lparr>s_transcription_submitted_at := Some now\<rparr>))
      | not_created \<Rightarrow>
          rbind (absence_method adapter record kind body) (\<lambda>how. Inr (None, how, record)))"

definition resolution_row ::
  "string \<Rightarrow> int \<Rightarrow> string \<Rightarrow> SessionRecord \<Rightarrow> JobRecord \<Rightarrow> ResolveUploadOperationRequest \<Rightarrow> string option \<Rightarrow>
   string \<Rightarrow> ProviderOperationResolutionRecord" where
  "resolution_row new_id now principal_subject record job body remote how =
     \<lparr>p_id = new_id, p_session_id = s_id record, p_job_id = j_id job,
      p_operation_id = s_pending_operation_id record,
      p_operation_kind = the (s_pending_operation_kind record),
      p_outcome = (case ro_outcome body of
          adopt_existing \<Rightarrow> ''adopt_existing'' | not_created \<Rightarrow> ''not_created''),
      p_remote_recording_id = remote, p_verification_method = how,
      p_override_reason = (if truthy (ro_override_reason body)
          then Some (strip (the (ro_override_reason body))) else None),
      p_resolved_by = principal_subject, p_resolved_at = now\<rparr>"

definition resolve_upload_operation ::
  "speakr_lookup \<Rightarrow> string \<Rightarrow> int \<Rightarrow> db \<Rightarrow> string \<Rightarrow> string \<Rightarrow> ResolveUploadOperationRequest \<Rightarrow>
   SessionResponse handler" where
  "resolve_upload_operation adapter new_id now d principal_subject sid body =
     transaction d (rbind (session_or_404 d sid) (\<lambda>record.
       if \<not> truthy (s_pending_operation_kind record) then Inl (Http 409 ''no_pending_operation'')
       else if Some (ro_confirm_operation_id body) \<noteq> s_pending_operation_id record
       then Inl (Http 409 ''operation_id_mismatch'')
       else if list_ex (\<lambda>j. j_session_id j = sid \<and> j_type j = T_TRANSCRIBE \<and>
                 active_status (j_status j)) (db_jobs d)
       then Inl (Http 409 ''provider_operation_active'')
       else case latest_ambiguous_job d sid (s_pending_operation_id record) of
           None \<Rightarrow> Inl (Http 409 ''ambiguous_job_required'')
         | Some job \<Rightarrow>
             let kind = the (s_pending_operation_kind record)
             in if kind \<notin> {''upload'', ''queue_transcription''}
                then Inl (Http 500 ''unknown_pending_operation_kind'')
                else rbind (resolution_effect adapter now d record kind body) (\<lambda>(remote, how, r).
                    let row = resolution_row new_id now principal_subject record job body remote how;
                        r' = clear_pending_operation r;
                        d' = save_session now r'
                               (d\<lparr>db_resolutions := tbl_add (db_resolutions d) row\<rparr>)
                    in Inr (session_response d' r', d'))))"

subsection \<open>Transcripts and the ledger\<close>

definition list_revisions :: "db \<Rightarrow> string \<Rightarrow> (api_error, TranscriptRevisionResponse list) result" where
  "list_revisions d sid = rbind (session_or_404 d sid) (\<lambda>_.
     from_py (map_result revision_response (sort_key (\<lambda>r. - r_created_at r)
       (filter (\<lambda>r. r_session_id r = sid) (db_revisions d)))))"

text \<open>Only \<^verbatim>\<open>EvidenceValidationError\<close> is turned into a 422.\<close>

definition evidence_error :: "(py_error, 'a) result \<Rightarrow> (api_error, 'a) result" where
  "evidence_error r = (case r of
      Inl (EvidenceValidationError m) \<Rightarrow> Inl (Http 422 ''invalid_evidence_reference'')
    | _ \<Rightarrow> from_py r)"

definition reopen_review :: "SessionRecord \<Rightarrow> (api_error, SessionRecord) result" where
  "reopen_review sess =
     (if s_state sess \<in> {S_TRANSCRIPT_READY, S_COMPLETE}
      then from_py (transition sess S_AWAITING_REVIEW) else Inr sess)"

definition add_ledger_entry ::
  "string \<Rightarrow> int \<Rightarrow> db \<Rightarrow> string \<Rightarrow> LedgerEntryCreate \<Rightarrow> LedgerEntryResponse handler" where
  "add_ledger_entry new_id now d sid body =
     transaction d (rbind (session_or_404 d sid) (\<lambda>sess.
       if s_state sess \<notin> {S_TRANSCRIPT_READY, S_AWAITING_REVIEW, S_COMPLETE}
       then Inl (Http 409 ''ledger_not_allowed'')
       else rbind (evidence_error (create_ledger_entry new_id now d sess body)) (\<lambda>(row, d1).
            rbind (reopen_review sess) (\<lambda>sess'.
              Inr (ledger_response row, save_session now sess' d1)))))"

definition list_ledger ::
  "db \<Rightarrow> string \<Rightarrow> string option \<Rightarrow> (api_error, LedgerEntryResponse list) result" where
  "list_ledger d sid revision =
     rbind (session_or_404 d sid) (\<lambda>sess.
       let revision_id = (if revision \<noteq> None then revision else s_current_transcript_revision_id sess)
       in Inr (map ledger_response (sort_key e_created_at (entries_of d sid revision_id))))"

definition get_summary :: "db \<Rightarrow> string \<Rightarrow> (api_error, SessionSummaryResponse) result" where
  "get_summary d sid =
     rbind (session_or_404 d sid) (\<lambda>_.
       case find (\<lambda>m. m_session_id m = sid) (db_summaries d) of
         None \<Rightarrow> Inl (Http 404 ''summary_not_found'')
       | Some m \<Rightarrow>
           let current = entries_of d sid (Some (m_transcript_revision_id m));
               stale = (length current \<noteq> m_entry_count m \<or>
                        list_ex (\<lambda>e. m_source_updated_at m < e_updated_at e) current)
           in Inr \<lparr>ss_id = m_id m, ss_session_id = m_session_id m,
                   ss_transcript_revision_id = m_transcript_revision_id m,
                   ss_themes = m_themes m, ss_entry_count = m_entry_count m,
                   ss_stale = stale, ss_generated_at = m_generated_at m\<rparr>)"

text \<open>The session completes when every entry of its current revision is verified or rejected.\<close>

definition after_review :: "db \<Rightarrow> SessionRecord \<Rightarrow> (api_error, SessionRecord) result" where
  "after_review d sess =
     (let statuses = statuses_of d (s_id sess) (s_current_transcript_revision_id sess)
      in if statuses \<noteq> {} \<and> statuses \<subseteq> {V_VERIFIED, V_REJECTED}
         then if s_state sess = S_AWAITING_REVIEW then from_py (transition sess S_COMPLETE)
              else Inr sess
         else if s_state sess = S_COMPLETE then from_py (transition sess S_AWAITING_REVIEW)
         else Inr sess)"

definition verify_ledger_entry ::
  "string \<Rightarrow> int \<Rightarrow> db \<Rightarrow> string \<Rightarrow> string \<Rightarrow> VerificationRequest \<Rightarrow> LedgerEntryResponse handler" where
  "verify_ledger_entry new_id now d principal_subject eid body =
     transaction d (case get_entry d eid of
         None \<Rightarrow> Inl (Http 404 ''ledger_entry_not_found'')
       | Some entry \<Rightarrow>
           rbind (session_or_404 d (e_session_id entry)) (\<lambda>sess.
             if Some (e_transcript_revision_id entry) \<noteq> s_current_transcript_revision_id sess
             then Inl (Http 409 ''stale_ledger_entry'')
             else
               let entry' = entry\<lparr>e_verification_status := vr_status body,
                                  e_verified_by := Some principal_subject,
                                  e_verified_at := Some now\<rparr>;
                   log = \<lparr>v_id = new_id, v_ledger_entry_id = eid, v_reviewer = principal_subject,
                          v_status = vr_status body, v_note = vr_note body, v_created_at = now\<rparr>;
                   d1 = save_entry now entry'
                          (d\<lparr>db_verifications := tbl_add (db_verifications d) log\<rparr>)
               in rbind (after_review d1 sess) (\<lambda>sess'.
                    let d2 = save_session now sess' d1
                    in Inr (ledger_response (the (get_entry d2 eid)), d2))))"

subsection \<open>Deletion\<close>

definition request_deletion :: "int \<Rightarrow> db \<Rightarrow> string \<Rightarrow> SessionResponse handler" where
  "request_deletion now d sid =
     transaction d (rbind (session_or_404 d sid) (\<lambda>record.
       rbind (from_py (transition record S_DELETE_PENDING)) (\<lambda>r.
         let d1 = cancel_active_jobs now sid {J_QUEUED} (record_deletion_intent now d sid);
             d' = save_session now r d1
         in Inr (session_response d' r, d'))))"

text \<open>What a confirmation does outside the database, in order.\<close>

datatype deletion_effect = Provider_delete string | Unlink_media string

datatype deletion_response = Deletion_deferred string | Deletion_completed

definition confirm_deletion ::
  "api_settings \<Rightarrow> (string \<Rightarrow> (AdapterError, unit) result) \<Rightarrow> int \<Rightarrow> db \<Rightarrow> string \<Rightarrow> string \<Rightarrow>
   (api_error, deletion_response) result \<times> deletion_effect list \<times> db" where
  "confirm_deletion settings delete_recording now d sid confirm_session_id =
     (case get_session d sid of
        None \<Rightarrow> (Inl (Http 404 ''session_not_found''), [], d)
      | Some record \<Rightarrow>
          if confirm_session_id \<noteq> sid then (Inl (Http 400 ''deletion_confirmation_mismatch''), [], d)
          else if s_state record \<noteq> S_DELETE_PENDING then (Inl (Http 409 ''deletion_not_pending''), [], d)
          else
            let d1 = record_deletion_intent now d sid
            in if has_active_job now d1 sid (as_worker_job_lease_seconds settings) None \<or>
                  has_running_pending_provider_operation d1 sid
               then (Inr (Deletion_deferred ''deletion_pending_active_job''), [], d1)
               else if has_pending_deletion_compensation d1 sid
               then (Inr (Deletion_deferred ''deletion_pending_compensation''), [], d1)
               else
                 let unlink = (if truthy (s_media_path record)
                               then [Unlink_media (the (s_media_path record))] else []);
                     finish = (\<lambda>fx. (Inr Deletion_completed, fx @ unlink, delete_session sid d1))
                 in if truthy (s_speakr_recording_id record)
                    then let rid = the (s_speakr_recording_id record)
                         in case delete_recording rid of
                              Inr _ \<Rightarrow> finish [Provider_delete rid]
                            | Inl exc \<Rightarrow>
                                if provider_deletion_not_found exc then finish [Provider_delete rid]
                                else (Inl (Http 502 ''speakr_deletion_failed''), [Provider_delete rid],
                                      save_session now (record\<lparr>s_last_error :=
                                        Some (ae_code exc @ '': '' @ ae_message exc)\<rparr>) d1)
                    else finish [])"

subsection \<open>Webhooks\<close>

record webhook_request =
  wh_signature :: "string option"
  wh_delivery_id :: "string option"
  wh_timestamp :: "string option"
  wh_event :: "string option"
  wh_raw_body :: string

text \<open>
  The library the handler relies on: HMAC-SHA256 in hexadecimal, SHA-256, the JSON decoder, and
  \<^verbatim>\<open>datetime.fromisoformat\<close> (after \<^verbatim>\<open>Z\<close> is replaced) as the instant it denotes, \<open>None\<close> where it
  raises or the text has no time zone.
\<close>

record webhook_library =
  wl_hmac_sha256 :: "string \<Rightarrow> string \<Rightarrow> string"
  wl_sha256 :: "string \<Rightarrow> string"
  wl_loads :: "string \<Rightarrow> json option"
  wl_instant :: "string \<Rightarrow> rat option"
  wl_repr :: "json \<Rightarrow> string"

definition verify_webhook ::
  "webhook_library \<Rightarrow> api_settings \<Rightarrow> int \<Rightarrow> webhook_request \<Rightarrow> (api_error, unit) result" where
  "verify_webhook lib settings now req =
     (if \<not> truthy (as_speakr_webhook_secret settings) then Inl (Http 503 ''webhook_not_configured'')
      else
        let signature = (case wh_signature req of None \<Rightarrow> [] | Some s \<Rightarrow> s);
            expected = wl_hmac_sha256 lib (the (as_speakr_webhook_secret settings)) (wh_raw_body req)
        in if \<not> prefix ''sha256='' signature then Inl (Http 401 ''invalid_webhook_signature'')
           else if drop 7 signature \<noteq> expected then Inl (Http 401 ''invalid_webhook_signature'')
           else if \<not> truthy (wh_delivery_id req) \<or> \<not> truthy (wh_timestamp req)
           then Inl (Http 400 ''invalid_webhook_headers'')
           else case wl_instant lib (the (wh_timestamp req)) of
               None \<Rightarrow> Inl (Http 400 ''invalid_webhook_timestamp'')
             | Some dispatched_at \<Rightarrow>
                 if of_int (as_webhook_freshness_seconds settings) < \<bar>of_int now - dispatched_at\<bar>
                 then Inl (Http 401 ''stale_webhook'')
                 else Inr ())"

definition verify_payload_timestamp ::
  "webhook_library \<Rightarrow> api_settings \<Rightarrow> int \<Rightarrow> (string \<times> json) list \<Rightarrow> string \<Rightarrow> (api_error, unit) result" where
  "verify_payload_timestamp lib settings now payload header_timestamp =
     (case obj_get payload ''timestamp'' JNull of
        JStr payload_timestamp \<Rightarrow>
          (case (wl_instant lib payload_timestamp, wl_instant lib header_timestamp) of
             (Some signed_at, Some dispatched_at) \<Rightarrow>
               if 1 < \<bar>signed_at - dispatched_at\<bar> then Inl (Http 401 ''webhook_timestamp_mismatch'')
               else if of_int (as_webhook_freshness_seconds settings) < \<bar>of_int now - signed_at\<bar>
               then Inl (Http 401 ''stale_webhook'')
               else Inr ()
           | _ \<Rightarrow> Inl (Http 400 ''invalid_webhook_timestamp''))
      | _ \<Rightarrow> Inl (Http 400 ''invalid_webhook_timestamp''))"

text \<open>\<^verbatim>\<open>isinstance(duration, (int, float))\<close> accepts a bool, and \<^verbatim>\<open>round\<close> raises on what is not
  finite.\<close>

fun audio_duration_ms :: "json \<Rightarrow> (py_error, int option) result" where
  "audio_duration_ms (JInt i) = Inr (Some (i * 1000))"
| "audio_duration_ms (JFloat r) = Inr (Some (py_round (r * 1000)))"
| "audio_duration_ms (JBool b) = Inr (Some (if b then 1000 else 0))"
| "audio_duration_ms JNan = Inl (ValueError ''cannot convert float NaN to integer'')"
| "audio_duration_ms (JInf _) = Inl ArithmeticError"
| "audio_duration_ms _ = Inr None"

definition apply_webhook_event ::
  "webhook_library \<Rightarrow> api_settings \<Rightarrow> string \<Rightarrow> int \<Rightarrow> db \<Rightarrow> (string \<times> json) list \<Rightarrow>
   (api_error, string option \<times> db) result" where
  "apply_webhook_event lib settings new_id now d payload =
     (case obj_get payload ''data'' JNull of
        JObj data \<Rightarrow>
          if obj_get data ''recording_id'' JNull = JNull then Inr (None, d)
          else
            let recording_id = py_str (wl_repr lib) (obj_get data ''recording_id'' JNull)
            in case find (\<lambda>s. s_speakr_recording_id s = Some recording_id) (db_sessions d) of
                 None \<Rightarrow> Inr (None, d)
               | Some record \<Rightarrow>
                   let event_type = obj_get payload ''type'' JNull
                   in if event_type = JStr ''recording.transcription.completed''
                      then rbind (from_py (audio_duration_ms
                                    (obj_get data ''audio_duration_seconds'' JNull))) (\<lambda>duration.
                             let r = (case duration of None \<Rightarrow> record
                                        | Some ms \<Rightarrow> record\<lparr>s_duration_ms := Some ms\<rparr>);
                                 d1 = snd (snd (ensure_job new_id now d (s_id record) T_RECONCILE
                                        (as_worker_max_attempts settings)))
                             in Inr (Some (s_id record), save_session now r d1))
                      else if event_type = JStr ''recording.transcription.failed''
                      then rbind (if s_state record = S_TRANSCRIBING
                                  then from_py (transition record S_FAILED) else Inr record) (\<lambda>r.
                             let r' = r\<lparr>s_last_error := Some (py_str (wl_repr lib)
                                         (obj_get data ''error'' (JStr ''Speakr transcription failed'')))\<rparr>
                             in Inr (Some (s_id record), save_session now r'
                                  (cancel_active_jobs now (s_id record) {J_QUEUED, J_RUNNING} d)))
                      else if event_type = JStr ''recording.deleted''
                      then Inr (Some (s_id record), save_session now
                             (record\<lparr>s_speakr_recording_id := None,
                                s_last_error := Some ''Speakr copy deleted; project recording retained''\<rparr>) d)
                      else Inr (Some (s_id record), d)
      | _ \<Rightarrow> Inr (None, d))"

definition receive_speakr_webhook ::
  "webhook_library \<Rightarrow> api_settings \<Rightarrow> string \<Rightarrow> int \<Rightarrow> db \<Rightarrow> webhook_request \<Rightarrow> bool handler" where
  "receive_speakr_webhook lib settings new_id now d req =
     transaction d (rbind (verify_webhook lib settings now req) (\<lambda>_.
       case wl_loads lib (wh_raw_body req) of
         None \<Rightarrow> Inl (Http 400 ''invalid_webhook_json'')
       | Some (JObj payload) \<Rightarrow>
           rbind (verify_payload_timestamp lib settings now payload (the (wh_timestamp req))) (\<lambda>_.
             let delivery_id = the (wh_delivery_id req);
                 event_type = py_str (wl_repr lib) (obj_get payload ''type'' (JStr []))
             in if obj_get payload ''id'' JNull \<noteq> JStr delivery_id
                then Inl (Http 400 ''delivery_id_mismatch'')
                else if delivery_id \<in> h_delivery_id ` set (db_deliveries d) then Inr (True, d)
                else if wh_event req \<noteq> Some event_type then Inl (Http 400 ''event_type_mismatch'')
                else rbind (apply_webhook_event lib settings new_id now d payload) (\<lambda>(sid, d1).
                       Inr (False, d1\<lparr>db_deliveries := tbl_add (db_deliveries d1)
                              \<lparr>h_delivery_id = delivery_id, h_session_id = sid,
                               h_event_type = event_type,
                               h_payload_sha256 = wl_sha256 lib (wh_raw_body req),
                               h_payload = payload, h_received_at = now\<rparr>\<rparr>)))
       | Some _ \<Rightarrow> Inl (Unhandled (ValueError ''payload is not an object''))))"

subsection \<open>Example objects\<close>

definition demo_api :: api_settings where
  "demo_api = \<lparr>as_worker_max_attempts = 3, as_worker_job_lease_seconds = 60, as_max_upload_bytes = 10,
     as_media_root = ''/m'', as_speakr_webhook_secret = Some ''k'', as_webhook_freshness_seconds = 300\<rparr>"

definition demo_deleting :: db where
  "demo_deleting = demo_db\<lparr>db_sessions := [demo_session\<lparr>s_state := S_DELETE_PENDING\<rparr>]\<rparr>"

definition demo_library :: webhook_library where
  "demo_library = \<lparr>wl_hmac_sha256 = (\<lambda>k b. k), wl_sha256 = (\<lambda>b. ''h''),
     wl_loads = (\<lambda>b. Some (JObj [(''id'', JStr ''1''), (''timestamp'', JStr ''t''), (''type'', JStr ''x'')])),
     wl_instant = (\<lambda>s. Some 0), wl_repr = (\<lambda>j. [])\<rparr>"

definition demo_delivery :: webhook_request where
  "demo_delivery = \<lparr>wh_signature = Some ''sha256=k'', wh_delivery_id = Some ''1'', wh_timestamp = Some ''t'',
     wh_event = Some ''x'', wh_raw_body = ''b''\<rparr>"

definition demo_stuck :: db where
  "demo_stuck = empty_db\<lparr>db_sessions := [demo_session\<lparr>s_state := S_CANCELLED, s_media_path := Some ''/m/a'',
       s_pending_operation_kind := Some ''upload'', s_pending_operation_id := Some ''o''\<rparr>],
     db_jobs := [(new_job ''j'' 1 ''a'' T_TRANSCRIBE 3)\<lparr>j_status := J_CANCELLED\<rparr>]\<rparr>"

definition refused :: "'r handler \<Rightarrow> db \<Rightarrow> bool" where
  "refused h d \<longleftrightarrow> (\<exists>code. h = (Inl (Http 409 code), d))"

subsection \<open>Uploads\<close>

lemma safe_char_squash: "list_all safe_char (squash_unsafe s)"
proof (induction s rule: squash_unsafe.induct)
  case (2 c cs)
  have "safe_char (CHR ''_'')" by (simp add: safe_char_def word_char_def)
  with 2 show ?case by simp
qed simp

lemma list_all_strip_dots: "list_all P s \<Longrightarrow> list_all P (strip_dots s)"
  by (auto simp: strip_dots_def Let_def list_all_iff dest!: set_dropWhileD)

lemma hd_strip_dots: "strip_dots s \<noteq> [] \<Longrightarrow> hd (strip_dots s) \<noteq> CHR ''.''"
proof -
  let ?edge = "\<lambda>c. c = CHR ''.'' \<or> c = CHR ''_''"
  define t where "t = dropWhile ?edge s"
  assume ne: "strip_dots s \<noteq> []"
  have s: "strip_dots s = rev (dropWhile ?edge (rev t))" by (simp add: strip_dots_def t_def Let_def)
  have "prefix (strip_dots s) t"
    unfolding s by (metis rev_rev_ident suffix_dropWhile suffix_to_prefix)
  with ne have "hd (strip_dots s) = hd t" "t \<noteq> []" by (auto simp: prefix_def)
  moreover have "t \<noteq> [] \<Longrightarrow> \<not> ?edge (hd t)" unfolding t_def by (rule hd_dropWhile)
  ultimately show ?thesis by simp
qed

text \<open>The name kept for an upload is never empty, has at most 240 characters, all of them letters,
  digits, dots, dashes or underscores (so no path separator), and does not start with a dot.\<close>

theorem safe_filename_safe:
  "safe_filename f \<noteq> [] \<and> length (safe_filename f) \<le> 240 \<and> list_all safe_char (safe_filename f) \<and>
   CHR ''/'' \<notin> set (safe_filename f) \<and> hd (safe_filename f) \<noteq> CHR ''.''"
proof -
  let ?t = "strip_dots (squash_unsafe (path_name f))"
  have t: "list_all safe_char ?t" by (intro list_all_strip_dots safe_char_squash)
  have main: "safe_filename f \<noteq> [] \<and> length (safe_filename f) \<le> 240 \<and>
      list_all safe_char (safe_filename f) \<and> hd (safe_filename f) \<noteq> CHR ''.''"
  proof (cases "?t = []")
    case True
    then show ?thesis
      by (simp add: safe_filename_def safe_char_def word_char_def lower_char_def is_digit_def)
  next
    case False
    then have "safe_filename f = take 240 ?t" by (simp add: safe_filename_def Let_def)
    with False t hd_strip_dots [OF False] show ?thesis
      by (auto simp: list_all_iff hd_take dest: in_set_takeD)
  qed
  moreover have "\<not> safe_char (CHR ''/'')"
    by (simp add: safe_char_def word_char_def lower_char_def is_digit_def)
  ultimately show ?thesis by (auto simp: list_all_iff)
qed

lemma read_chunks_too_large:
  "limit < n + length (concat (takeWhile (\<lambda>x. x \<noteq> []) chunks)) \<Longrightarrow>
     read_chunks limit n content chunks = Inl (Http 413 ''upload_too_large'') \<or> limit < n"
  by (induction limit n content chunks rule: read_chunks.induct) (auto simp: add.assoc)

lemma read_chunks_fits:
  "n + length (concat (takeWhile (\<lambda>x. x \<noteq> []) chunks)) \<le> limit \<Longrightarrow>
     read_chunks limit n content chunks =
       (let m = n + length (concat (takeWhile (\<lambda>x. x \<noteq> []) chunks))
        in if m = 0 then Inl (Http 422 ''empty_upload'')
           else Inr (m, content @ concat (takeWhile (\<lambda>x. x \<noteq> []) chunks)))"
proof (induction limit n content chunks rule: read_chunks.induct)
  case (2 limit n content chunk chunks)
  show ?case
  proof (cases "chunk = []")
    case False
    with 2 show ?thesis by (simp add: add.assoc)
  qed simp
qed simp

text \<open>An upload is kept exactly as it was sent up to the first empty read, with its true size, when
  it has between one byte and the limit; otherwise it is refused as too large or as empty.\<close>

theorem read_chunks_spec:
  "read_chunks limit 0 [] chunks =
     (let c = concat (takeWhile (\<lambda>x. x \<noteq> []) chunks)
      in if limit < length c then Inl (Http 413 ''upload_too_large'')
         else if c = [] then Inl (Http 422 ''empty_upload'')
         else Inr (length c, c))"
  using read_chunks_too_large [of limit 0 chunks "[]"] read_chunks_fits [of 0 chunks limit "[]"]
  by (auto simp: Let_def not_less)

subsection \<open>Deletion\<close>



subsection \<open>Webhooks\<close>

lemma transaction_eq:
  "transaction d r = (Inr x, d') \<longleftrightarrow> r = Inr (x, d')"
  "transaction d r = (Inl e, d') \<longleftrightarrow> r = Inl e \<and> d' = d"
  by (auto simp: transaction_def split: sum.splits)

text \<open>C17: a webhook is accepted only when a secret is configured, the signature header is the HMAC of
  exactly the received bytes under it, and the instants claimed by the header and by the signed body are
  both within the freshness window and within a second of each other; a refused one changes
  nothing.\<close>

theorem webhook_authentic:
  assumes "receive_speakr_webhook lib settings i now d req = (res, d')"
  shows "case res of
      Inl e \<Rightarrow> d' = d
    | Inr _ \<Rightarrow> (\<exists>secret ts payload sent signed.
        as_speakr_webhook_secret settings = Some secret \<and> secret \<noteq> [] \<and>
        wh_signature req = Some (''sha256='' @ wl_hmac_sha256 lib secret (wh_raw_body req)) \<and>
        wl_loads lib (wh_raw_body req) = Some (JObj payload) \<and>
        wh_timestamp req = Some ts \<and> wl_instant lib ts = Some sent \<and>
        \<bar>of_int now - sent\<bar> \<le> of_int (as_webhook_freshness_seconds settings) \<and>
        (\<exists>t. obj_get payload ''timestamp'' JNull = JStr t \<and> wl_instant lib t = Some signed) \<and>
        \<bar>of_int now - signed\<bar> \<le> of_int (as_webhook_freshness_seconds settings) \<and> \<bar>signed - sent\<bar> \<le> 1)"
proof (cases res)
  case (Inl e)
  with assms show ?thesis by (simp add: receive_speakr_webhook_def transaction_eq)
next
  case (Inr dup)
  with assms obtain payload where v: "verify_webhook lib settings now req = Inr ()"
    and p: "wl_loads lib (wh_raw_body req) = Some (JObj payload)"
    and t: "verify_payload_timestamp lib settings now payload (the (wh_timestamp req)) = Inr ()"
    by (auto simp: receive_speakr_webhook_def transaction_eq split: option.splits json.splits)
  from v obtain secret sig ts sent where a: "as_speakr_webhook_secret settings = Some secret" "secret \<noteq> []"
      "wh_signature req = Some sig" "prefix ''sha256='' sig"
      "drop 7 sig = wl_hmac_sha256 lib secret (wh_raw_body req)"
      "wh_timestamp req = Some ts" "wl_instant lib ts = Some sent"
      "\<bar>of_int now - sent\<bar> \<le> of_int (as_webhook_freshness_seconds settings)"
    by (auto simp: verify_webhook_def Let_def truthy_def split: if_splits option.splits)
  from a(4,5) have "sig = ''sha256='' @ wl_hmac_sha256 lib secret (wh_raw_body req)"
    by (auto simp: prefix_def)
  moreover from t a(6,7) obtain pt signed where "obj_get payload ''timestamp'' JNull = JStr pt"
      "wl_instant lib pt = Some signed" "\<bar>signed - sent\<bar> \<le> 1"
      "\<bar>of_int now - signed\<bar> \<le> of_int (as_webhook_freshness_seconds settings)"
    by (auto simp: verify_payload_timestamp_def split: if_splits option.splits json.splits)
  ultimately show ?thesis using Inr a p by auto
qed


lemma demo_delivery_accepted:
  "receive_speakr_webhook demo_library demo_api ''i'' 0 empty_db demo_delivery =
     (Inr False, empty_db\<lparr>db_deliveries := [\<lparr>h_delivery_id = ''1'', h_session_id = None, h_event_type = ''x'',
        h_payload_sha256 = ''h'', h_payload = [(''id'', JStr ''1''), (''timestamp'', JStr ''t''), (''type'', JStr ''x'')],
        h_received_at = 0\<rparr>]\<rparr>)"
  by (simp add: receive_speakr_webhook_def verify_webhook_def verify_payload_timestamp_def demo_library_def
      demo_api_def demo_delivery_def transaction_def obj_get_def py_str_def apply_webhook_event_def empty_db_def
      tbl_add_def Let_def)

theorem webhook_authentic_witness:
  "wh_signature demo_delivery = Some (''sha256='' @ wl_hmac_sha256 demo_library ''k'' ''b'')"
  using webhook_authentic [OF demo_delivery_accepted] by (simp add: demo_api_def demo_delivery_def)


subsection \<open>A marker nobody can clear\<close>



end
