(* ===== verification/Providers.thy ===== *)
theory Providers
  imports Services
begin

text \<open>
  The clients of the services outside: the Speakr adapter, \<^verbatim>\<open>media_adapter/base.py\<close> and
  \<^verbatim>\<open>speakr.py\<close>, and the clients of the extraction gateway, \<^verbatim>\<open>evidence_api/extraction.py\<close>,
  \<^verbatim>\<open>summaries.py\<close> and \<^verbatim>\<open>consolidation.py\<close>. The HTTP library is the parameter \<open>send\<close>, a function
  from requests to answers; Pydantic's parsers of the response models and Python's \<^verbatim>\<open>repr\<close> are
  parameters too.
\<close>

subsection \<open>HTTP\<close>

datatype http_request =
    Post_media string string string
  | Post_json string json
  | Get_path string string
  | Delete_path string

text \<open>The body as text and as \<^verbatim>\<open>response.json()\<close> decodes it, \<open>None\<close> for its \<^verbatim>\<open>ValueError\<close>.\<close>

record http_response =
  hr_status :: int
  hr_text :: string
  hr_json :: "json option"

text \<open>\<open>Inl\<close> is an \<^verbatim>\<open>httpx.HTTPError\<close>: no connection, a timeout, a broken response.\<close>

type_synonym transport = "http_request \<Rightarrow> (string, http_response) result"

definition is_success :: "http_response \<Rightarrow> bool" where
  "is_success r \<longleftrightarrow> 200 \<le> hr_status r \<and> hr_status r < 300"

text \<open>
  What a client raises: an exception of the program's own classes, which has a \<open>code\<close>; one of the
  HTTP library; an \<^verbatim>\<open>OSError\<close>; or one of Python's own.
\<close>

datatype provider_exc =
    Coded AdapterError
  | Transport_error string
  | Os_error string
  | Raised py_error
  | Attribute_error

definition coded :: "string \<Rightarrow> string \<Rightarrow> (provider_exc, 'a) result" where
  "coded code message = Inl (Coded \<lparr>ae_code = code, ae_message = message\<rparr>)"

subsection \<open>The media adapter\<close>

datatype submission_mode = ON_UPLOAD | EXPLICIT

text \<open>A float of the response, as \<^verbatim>\<open>float(value)\<close> gives it.\<close>

datatype py_float = Finite rat | Not_a_number | Infinite bool

record SpeakrRecording =
  sr_recording_id :: string
  sr_status :: string
  sr_duration_seconds :: "py_float option"

record speakr_settings =
  sp_base_url :: string
  sp_api_token :: "string option"

definition rstrip_slash :: "string \<Rightarrow> string" where
  "rstrip_slash s = List.rev (dropWhile (\<lambda>c. c = CHR ''/'') (List.rev s))"

definition speakr_adapter :: "string option \<Rightarrow> string option \<Rightarrow> speakr_settings" where
  "speakr_adapter base_url api_token =
     \<lparr>sp_base_url = rstrip_slash (case base_url of None \<Rightarrow> [] | Some u \<Rightarrow> u), sp_api_token = api_token\<rparr>"

definition speakr_client :: "speakr_settings \<Rightarrow> (provider_exc, unit) result" where
  "speakr_client st =
     (if sp_base_url st = [] \<or> \<not> truthy (sp_api_token st)
      then coded ''adapter_not_configured''
             ''Speakr requires EVIDENCE_SPEAKR_BASE_URL and EVIDENCE_SPEAKR_API_TOKEN''
      else Inr ())"

definition speakr_send :: "transport \<Rightarrow> speakr_settings \<Rightarrow> http_request \<Rightarrow> (provider_exc, http_response) result" where
  "speakr_send send st req =
     rbind (speakr_client st) (\<lambda>_. case send req of Inl m \<Rightarrow> Inl (Transport_error m) | Inr r \<Rightarrow> Inr r)"

definition speakr_raise :: "http_response \<Rightarrow> (provider_exc, unit) result" where
  "speakr_raise r =
     (if is_success r then Inr ()
      else coded ''adapter_response_error''
             (''Speakr returned HTTP '' @ int_str (hr_status r) @ '': '' @ take 500 (hr_text r)))"

definition speakr_json :: "http_response \<Rightarrow> (provider_exc, (string \<times> json) list) result" where
  "speakr_json r =
     (case hr_json r of
        None \<Rightarrow> coded ''adapter_response_error'' ''Speakr returned invalid JSON''
      | Some (JObj kvs) \<Rightarrow> Inr kvs
      | Some _ \<Rightarrow> coded ''adapter_response_error'' ''Speakr returned a non-object JSON response'')"

text \<open>A boolean is an \<^verbatim>\<open>int\<close> in Python.\<close>

definition speakr_number :: "json \<Rightarrow> py_float option" where
  "speakr_number v = (case v of
      JInt i \<Rightarrow> Some (Finite (of_int i))
    | JBool b \<Rightarrow> Some (Finite (if b then 1 else 0))
    | JFloat x \<Rightarrow> Some (Finite x)
    | JNan \<Rightarrow> Some Not_a_number
    | JInf neg \<Rightarrow> Some (Infinite neg)
    | _ \<Rightarrow> None)"

definition speakr_recording ::
  "(json \<Rightarrow> string) \<Rightarrow> string \<Rightarrow> http_response \<Rightarrow> (provider_exc, SpeakrRecording) result" where
  "speakr_recording repr default_status r =
     rbind (speakr_raise r) (\<lambda>_. rbind (speakr_json r) (\<lambda>payload.
       case map_of payload ''id'' of
         None \<Rightarrow> Inl (Raised (KeyError ''id''))
       | Some i \<Rightarrow> Inr \<lparr>sr_recording_id = py_str repr i,
           sr_status = py_str repr (obj_get payload ''status'' (JStr default_status)),
           sr_duration_seconds = speakr_number (obj_get payload ''audio_duration'' JNull)\<rparr>))"

text \<open>What the file system says of the media path: no file there, one that cannot be opened, or one
  with this name.\<close>

datatype media_file = No_file | Unreadable string | Media string

definition upload_recording ::
  "(json \<Rightarrow> string) \<Rightarrow> transport \<Rightarrow> speakr_settings \<Rightarrow> (string \<Rightarrow> media_file) \<Rightarrow> string \<Rightarrow> string \<Rightarrow>
   (provider_exc, SpeakrRecording) result" where
  "upload_recording repr send st files path title =
     (case files path of
        No_file \<Rightarrow> coded ''adapter_response_error'' (''media file does not exist: '' @ path)
      | Unreadable m \<Rightarrow> Inl (Os_error m)
      | Media name \<Rightarrow>
          rbind (speakr_send send st (Post_media ''/api/v1/recordings/upload'' name title))
            (speakr_recording repr ''PENDING''))"

definition queue_transcription :: "string \<Rightarrow> (provider_exc, string) result" where
  "queue_transcription rid = coded ''adapter_response_error''
     ''Speakr queues transcription as part of a successful recording upload''"

definition get_recording ::
  "(json \<Rightarrow> string) \<Rightarrow> transport \<Rightarrow> speakr_settings \<Rightarrow> string \<Rightarrow> (provider_exc, SpeakrRecording) result" where
  "get_recording repr send st rid =
     rbind (speakr_send send st (Get_path (''/api/v1/recordings/'' @ rid) ''minimal''))
       (speakr_recording repr ''UNKNOWN'')"

definition find_operation_recording :: "string \<Rightarrow> string \<Rightarrow> (provider_exc, SpeakrRecording option) result" where
  "find_operation_recording kind op = coded ''adapter_response_error''
     ''Speakr cannot look up provider writes by client operation id''"

definition transcript_segments :: "json \<Rightarrow> (provider_exc, json list) result" where
  "transcript_segments v =
     (case v of
        JList [] \<Rightarrow> coded ''adapter_response_error''
          ''Speakr returned a transcript with no timestamped segments; the recording must be transcribed with a model that emits segment timestamps''
      | JList segments \<Rightarrow> Inr segments
      | _ \<Rightarrow> coded ''adapter_response_error'' ''Speakr transcript omitted a segments list'')"

definition get_transcript :: "transport \<Rightarrow> speakr_settings \<Rightarrow> string \<Rightarrow> (provider_exc, json list) result" where
  "get_transcript send st rid =
     rbind (speakr_send send st (Get_path (''/api/v1/recordings/'' @ rid @ ''/transcript'') ''json'')) (\<lambda>r.
       rbind (speakr_raise r) (\<lambda>_. rbind (speakr_json r) (\<lambda>payload.
         transcript_segments (obj_get payload ''segments'' JNull))))"

definition delete_recording :: "transport \<Rightarrow> speakr_settings \<Rightarrow> string \<Rightarrow> (provider_exc, unit) result" where
  "delete_recording send st rid =
     rbind (speakr_send send st (Delete_path (''/api/v1/recordings/'' @ rid))) (\<lambda>r.
       if hr_status r = 404 then Inr () else speakr_raise r)"

subsection \<open>The clients of the gateway\<close>

record client_settings =
  cl_enabled :: bool
  cl_endpoint :: "string option"
  cl_api_key :: "string option"

definition post_gateway ::
  "transport \<Rightarrow> client_settings \<Rightarrow> json \<Rightarrow> (string, json) result" where
  "post_gateway send st body =
     rbind (send (Post_json (the (cl_endpoint st)) body)) (\<lambda>r.
       if \<not> is_success r then Inl (''HTTP '' @ int_str (hr_status r))
       else case hr_json r of None \<Rightarrow> Inl ''Expecting value'' | Some v \<Rightarrow> Inr v)"

definition gateway_ready :: "client_settings \<Rightarrow> bool" where
  "gateway_ready st \<longleftrightarrow> truthy (cl_endpoint st) \<and> truthy (cl_api_key st)"

definition json_opt :: "string option \<Rightarrow> json" where
  "json_opt v = (case v of None \<Rightarrow> JNull | Some s \<Rightarrow> JStr s)"

definition dump_segment :: "TranscriptSegment \<Rightarrow> json" where
  "dump_segment s = JObj [(''segment_id'', JStr (ts_segment_id s)), (''start_ms'', JInt (ts_start_ms s)),
     (''end_ms'', JInt (ts_end_ms s)), (''text'', JStr (ts_text s)),
     (''provider_speaker_label'', json_opt (ts_provider_speaker_label s))]"

definition session_json :: "string \<Rightarrow> string \<Rightarrow> json" where
  "session_json sid title = JObj [(''id'', JStr sid), (''title'', JStr title)]"

definition extraction_request :: "string \<Rightarrow> string \<Rightarrow> string \<Rightarrow> TranscriptSegment list \<Rightarrow> json" where
  "extraction_request sid title rid segments = JObj [
     (''schema_version'', JStr ''coaching-ledger-v1''),
     (''session'', session_json sid title),
     (''transcript_revision_id'', JStr rid),
     (''timestamp_unit'', JStr ''milliseconds''),
     (''instructions'', JList (map JStr [
        ''Use only supplied transcript evidence.'',
        ''Never infer singer identity from singing, overlap, or provider labels.'',
        ''Never claim improvement unless explicitly evaluated in the transcript.'',
        ''Every entry must contain at least one timestamped evidence reference.'',
        ''Use null for absent facts and keep quotations separate from paraphrases.''])),
     (''segments'', JList (map dump_segment segments))]"

text \<open>\<open>parse\<close> is \<^verbatim>\<open>LedgerEntryCreate.model_validate\<close>.\<close>

definition parse_entries ::
  "(json \<Rightarrow> (string, LedgerEntryCreate) result) \<Rightarrow> json \<Rightarrow> (string, LedgerEntryCreate list) result" where
  "parse_entries parse payload =
     (case payload of
        JObj kvs \<Rightarrow>
          (case map_of kvs ''entries'' of
             None \<Rightarrow> Inl ''entries''
           | Some (JList entries) \<Rightarrow> map_result parse entries
           | Some _ \<Rightarrow> Inl ''entries is not a list'')
      | _ \<Rightarrow> Inl ''indices must be integers or slices, not str'')"

definition extract_entries ::
  "(json \<Rightarrow> (string, LedgerEntryCreate) result) \<Rightarrow> transport \<Rightarrow> client_settings \<Rightarrow> string \<Rightarrow> string \<Rightarrow> string \<Rightarrow>
   TranscriptSegment list \<Rightarrow> (provider_exc, LedgerEntryCreate list) result" where
  "extract_entries parse send st sid title rid segments =
     (if \<not> cl_enabled st then coded ''extraction_not_configured''
        ''structured extraction is disabled; configure EVIDENCE_EXTRACTION_PROVIDER=http_json''
      else if \<not> gateway_ready st then coded ''extraction_not_configured''
        ''http_json extraction requires EVIDENCE_EXTRACTION_ENDPOINT and EVIDENCE_EXTRACTION_API_KEY''
      else case rbind (post_gateway send st (extraction_request sid title rid segments)) (parse_entries parse) of
          Inl m \<Rightarrow> coded ''extraction_error'' (''structured extraction failed: '' @ m)
        | Inr entries \<Rightarrow> Inr entries)"

definition summary_request :: "string \<Rightarrow> string \<Rightarrow> string \<Rightarrow> json list \<Rightarrow> json list option \<Rightarrow> json" where
  "summary_request sid title rid entries pre_groups = JObj ([
     (''schema_version'', JStr ''coaching-ledger-v1''),
     (''session'', session_json sid title),
     (''transcript_revision_id'', JStr rid),
     (''theme_count'', JNull),
     (''entries'', JList entries)] @
     (case pre_groups of Some (g # gs) \<Rightarrow> [(''pre_groups'', JList (g # gs))] | _ \<Rightarrow> []))"

definition summarize_entries ::
  "(json \<Rightarrow> (string, SummaryThemeCreate list) result) \<Rightarrow> transport \<Rightarrow> client_settings \<Rightarrow> string \<Rightarrow> string \<Rightarrow> string \<Rightarrow>
   json list \<Rightarrow> json list option \<Rightarrow> (provider_exc, SummaryThemeCreate list) result" where
  "summarize_entries parse send st sid title rid entries pre_groups =
     (if \<not> cl_enabled st then coded ''summary_not_configured''
        ''session summaries are disabled; configure EVIDENCE_EXTRACTION_PROVIDER=http_json''
      else if \<not> gateway_ready st then coded ''summary_not_configured''
        ''http_json summaries require EVIDENCE_EXTRACTION_ENDPOINT and EVIDENCE_EXTRACTION_API_KEY''
      else case rbind (post_gateway send st (summary_request sid title rid entries pre_groups)) parse of
          Inl m \<Rightarrow> coded ''summary_error'' (''session summary failed: '' @ m)
        | Inr themes \<Rightarrow> Inr themes)"

text \<open>\<^verbatim>\<open>data.get("groups", [])\<close>; on anything but an object it is an \<^verbatim>\<open>AttributeError\<close>, which the
  client does not catch.\<close>

definition consolidate_entries ::
  "transport \<Rightarrow> client_settings \<Rightarrow> string \<Rightarrow> string \<Rightarrow> json list \<Rightarrow> (provider_exc, json) result" where
  "consolidate_entries send st sid title entries =
     (if \<not> cl_enabled st then coded ''consolidation_not_configured''
        ''consolidation is disabled; configure EVIDENCE_EXTRACTION_PROVIDER=http_json''
      else if \<not> gateway_ready st then coded ''consolidation_not_configured''
        ''http_json consolidation requires EVIDENCE_EXTRACTION_ENDPOINT and EVIDENCE_EXTRACTION_API_KEY''
      else case post_gateway send st (JObj [
          (''schema_version'', JStr ''coaching-ledger-v1''), (''session'', session_json sid title),
          (''entries'', JList entries)]) of
          Inl m \<Rightarrow> coded ''consolidation_error'' (''consolidation failed: '' @ m)
        | Inr (JObj kvs) \<Rightarrow> Inr (obj_get kvs ''groups'' (JList []))
        | Inr _ \<Rightarrow> Inl Attribute_error)"

subsection \<open>What the clients promise\<close>

lemma coded_neq_Inr [simp]: "coded c m \<noteq> Inr x" "Inr x \<noteq> coded c m"
  by (simp_all add: coded_def)

lemma speakr_send_Inr: "speakr_send send st req = Inr r \<longleftrightarrow>
    sp_base_url st \<noteq> [] \<and> truthy (sp_api_token st) \<and> send req = Inr r"
  by (auto simp: speakr_send_def speakr_client_def split: sum.splits if_splits)

lemma speakr_raise_Inr [simp]: "speakr_raise r = Inr u \<longleftrightarrow> is_success r"
  by (simp add: speakr_raise_def)

lemma speakr_json_Inr: "speakr_json r = Inr kvs \<longleftrightarrow> hr_json r = Some (JObj kvs)"
  by (auto simp: speakr_json_def split: option.splits json.splits)

lemma transcript_segments_Inr: "transcript_segments v = Inr segments \<longleftrightarrow> v = JList segments \<and> segments \<noteq> []"
  by (cases v) (auto simp: transcript_segments_def split: list.splits)

lemma obj_get_eq_JList: "obj_get kvs k JNull = JList vs \<longleftrightarrow> map_of kvs k = Some (JList vs)"
  by (simp add: obj_get_def split: option.splits)

lemma parse_entries_Inr: "parse_entries parse payload = Inr entries \<longleftrightarrow>
    (\<exists>kvs raws. payload = JObj kvs \<and> map_of kvs ''entries'' = Some (JList raws) \<and>
       list_all2 (\<lambda>raw e. parse raw = Inr e) raws entries)"
  by (cases payload) (auto simp: parse_entries_def map_result_Inr_iff split: option.splits json.splits)

lemma post_gateway_Inr: "post_gateway send st body = Inr v \<longleftrightarrow>
    (\<exists>r. send (Post_json (the (cl_endpoint st)) body) = Inr r \<and> is_success r \<and> hr_json r = Some v)"
  by (auto simp: post_gateway_def split: option.splits if_splits)

text \<open>A transcript is taken only from a configured Speakr that answered with a success status and
  an object whose segments are a list, and the list is never empty: a transcript without
  timestamps is an error, not an empty session.\<close>

theorem get_transcript_spec:
  "get_transcript send st rid = Inr segments \<longleftrightarrow>
     sp_base_url st \<noteq> [] \<and> truthy (sp_api_token st) \<and> segments \<noteq> [] \<and>
     (\<exists>r kvs. send (Get_path (''/api/v1/recordings/'' @ rid @ ''/transcript'') ''json'') = Inr r \<and>
        is_success r \<and> hr_json r = Some (JObj kvs) \<and> map_of kvs ''segments'' = Some (JList segments))"
  by (auto simp: get_transcript_def speakr_send_Inr speakr_json_Inr transcript_segments_Inr obj_get_eq_JList)

text \<open>The extraction client returns entries exactly when a configured gateway answered with a
  success status and a list of entries that all parse; in every other case, whatever the failure,
  it raises its own error with one of its two codes, so that the worker's failure handling sees it.\<close>

theorem extract_entries_spec:
  "(extract_entries parse send st sid title rid segments = Inr entries \<longleftrightarrow>
      cl_enabled st \<and> gateway_ready st \<and>
      (\<exists>r kvs raws. send (Post_json (the (cl_endpoint st)) (extraction_request sid title rid segments)) = Inr r \<and>
         is_success r \<and> hr_json r = Some (JObj kvs) \<and> map_of kvs ''entries'' = Some (JList raws) \<and>
         list_all2 (\<lambda>raw e. parse raw = Inr e) raws entries)) \<and>
   ((\<exists>es. extract_entries parse send st sid title rid segments = Inr es) \<or>
    (\<exists>e. extract_entries parse send st sid title rid segments = Inl (Coded e) \<and>
       ae_code e \<in> {''extraction_error'', ''extraction_not_configured''}))"
proof -
  let ?r = "rbind (post_gateway send st (extraction_request sid title rid segments)) (parse_entries parse)"
  have "?r = Inr es \<longleftrightarrow> (\<exists>r kvs raws.
      send (Post_json (the (cl_endpoint st)) (extraction_request sid title rid segments)) = Inr r \<and>
      is_success r \<and> hr_json r = Some (JObj kvs) \<and> map_of kvs ''entries'' = Some (JList raws) \<and>
      list_all2 (\<lambda>raw e. parse raw = Inr e) raws es)" for es
    by (auto simp: post_gateway_Inr parse_entries_Inr)
  note eq = this [symmetric]
  show ?thesis unfolding eq by (cases ?r) (simp_all add: extract_entries_def coded_def del: rbind_eq_Inr)
qed

text \<open>Deleting a recording that Speakr no longer has succeeds, and it never succeeds on any other
  unsuccessful status.\<close>

theorem delete_recording_spec:
  "delete_recording send st rid = Inr () \<longleftrightarrow>
     sp_base_url st \<noteq> [] \<and> truthy (sp_api_token st) \<and>
     (\<exists>r. send (Delete_path (''/api/v1/recordings/'' @ rid)) = Inr r \<and> (hr_status r = 404 \<or> is_success r))"
  by (auto simp: delete_recording_def speakr_send_Inr)

end
