(* ===== verification/Worker.thy ===== *)
theory Worker
  imports Providers "HOL-Library.Multiset"
begin

text \<open>
  The background worker, \<^verbatim>\<open>evidence_worker/worker.py\<close>. A job is processed as a sequence of
  transactions with calls to the media provider, the extraction gateway and the summarizer in
  between; a crash can fall between any two of them and a concurrent change makes one of them
  fail as stale. Here each transaction is a function of the database as it finds it: it
  reloads the job and the session, as \<^verbatim>\<open>_reload_current\<close> and \<^verbatim>\<open>_reload_after_remote\<close> do, and
  takes the outcome of the call before it as an argument.
\<close>

record worker_settings =
  ws_max_attempts :: nat
  ws_job_lease_seconds :: int
  ws_transcription_poll_seconds :: int
  ws_reconciliation_interval_seconds :: int
  ws_supports_upload_idempotency :: bool

definition halted_state :: "SessionState \<Rightarrow> bool" where
  "halted_state s \<longleftrightarrow> s \<in> {S_CANCELLED, S_DELETE_PENDING, S_DELETED}"

text \<open>The job and session that processing may go on with: \<^verbatim>\<open>_checkpoint\<close> and
  \<^verbatim>\<open>_reload_after_remote\<close> refuse under the same conditions.\<close>

definition live :: "db \<Rightarrow> string \<Rightarrow> string \<Rightarrow> (JobRecord \<times> SessionRecord) option" where
  "live d jid sid =
     (case (get_job d jid, get_session d sid) of
        (Some job, Some sess) \<Rightarrow>
          if deletion_requested d sid \<or> j_status job \<noteq> J_RUNNING \<or> halted_state (s_state sess)
          then None else Some (job, sess)
      | _ \<Rightarrow> None)"

definition reload_current :: "db \<Rightarrow> string \<Rightarrow> string \<Rightarrow> (JobRecord \<times> SessionRecord) option" where
  "reload_current d jid sid =
     (case (get_job d jid, get_session d sid) of
        (Some job, Some sess) \<Rightarrow> Some (job, sess)
      | _ \<Rightarrow> None)"

text \<open>The checkpoint renews the lease in one transaction and reloads in the next.\<close>

definition touch_lease :: "int \<Rightarrow> db \<Rightarrow> string \<Rightarrow> string \<Rightarrow> db option" where
  "touch_lease now d jid sid =
     (case live d jid sid of
        None \<Rightarrow> None
      | Some (job, sess) \<Rightarrow> Some (save_job now (job\<lparr>j_updated_at := now\<rparr>) d))"

definition reload_checked :: "db \<Rightarrow> string \<Rightarrow> string \<Rightarrow> (JobRecord \<times> SessionRecord) option" where
  "reload_checked d jid sid = (if deletion_requested d sid then None else reload_current d jid sid)"

text \<open>The heartbeat of a provider call, a plain \<^verbatim>\<open>UPDATE\<close> that leaves the version alone.\<close>

definition renew_job_lease :: "int \<Rightarrow> db \<Rightarrow> string \<Rightarrow> bool \<times> db" where
  "renew_job_lease now d jid =
     (let held = (\<lambda>j. j_id j = jid \<and> j_status j = J_RUNNING)
      in (list_ex held (db_jobs d),
          d\<lparr>db_jobs := map (\<lambda>j. if held j then j\<lparr>j_updated_at := now\<rparr> else j) (db_jobs d)\<rparr>))"

subsection \<open>Taking and finishing jobs\<close>

definition claim_job :: "int \<Rightarrow> db \<Rightarrow> JobRecord option \<times> db" where
  "claim_job now d =
     (case sort_key j_created_at
             (filter (\<lambda>j. j_status j = J_QUEUED \<and> j_available_at j \<le> now) (db_jobs d)) of
        [] \<Rightarrow> (None, d)
      | job # _ \<Rightarrow>
          let job' = job\<lparr>j_status := J_RUNNING, j_attempts := Suc (j_attempts job)\<rparr>
          in (Some job', save_job now job' d))"

definition worker_cancel_job :: "int \<Rightarrow> db \<Rightarrow> string \<Rightarrow> db" where
  "worker_cancel_job now d jid =
     (case get_job d jid of None \<Rightarrow> d | Some job \<Rightarrow> save_job now (job\<lparr>j_status := J_CANCELLED\<rparr>) d)"

definition complete_job :: "int \<Rightarrow> db \<Rightarrow> string \<Rightarrow> string \<Rightarrow> db" where
  "complete_job now d jid sid =
     (case live d jid sid of
        None \<Rightarrow> worker_cancel_job now d jid
      | Some (job, sess) \<Rightarrow>
          save_session now (sess\<lparr>s_last_error := None\<rparr>)
            (save_job now (job\<lparr>j_status := J_SUCCEEDED, j_error_code := None,
                               j_error_message := None\<rparr>) d))"

definition requeue_pending ::
  "worker_settings \<Rightarrow> int \<Rightarrow> db \<Rightarrow> string \<Rightarrow> string \<Rightarrow> string \<Rightarrow> string \<Rightarrow> db" where
  "requeue_pending settings now d jid sid code message =
     (case live d jid sid of
        None \<Rightarrow> worker_cancel_job now d jid
      | Some (job, sess) \<Rightarrow>
          save_job now (job\<lparr>j_status := J_QUEUED, j_attempts := j_attempts job - 1,
             j_error_code := Some code, j_error_message := Some (take 4000 message),
             j_available_at := now + ws_transcription_poll_seconds settings\<rparr>) d)"

text \<open>Exponential back-off, capped at five minutes.\<close>

definition backoff :: "worker_settings \<Rightarrow> nat \<Rightarrow> int" where
  "backoff settings attempts = min (ws_transcription_poll_seconds settings * 2 ^ (attempts - 1)) 300"

definition retryable :: "JobRecord \<Rightarrow> string \<Rightarrow> bool" where
  "retryable job code \<longleftrightarrow> j_attempts job < j_max_attempts job \<and>
     code \<notin> {''adapter_not_configured'', ''extraction_not_configured'', ''transcription_failed'',
       AMBIGUOUS_OPERATION_ERROR_CODE}"

text \<open>Where a failure leaves the session: waiting for the retry, or failed.\<close>

definition await_retry :: "SessionRecord \<Rightarrow> (py_error, SessionRecord) result" where
  "await_retry sess =
     (if s_state sess \<in> {S_TRANSCRIBING, S_RECONCILING, S_EXTRACTING}
      then transition sess S_RETRY_PENDING else Inr sess)"

definition give_up :: "SessionRecord \<Rightarrow> (py_error, SessionRecord) result" where
  "give_up sess =
     (if s_state sess \<in> {S_TRANSCRIBING, S_RECONCILING, S_EXTRACTING, S_RETRY_PENDING}
      then transition sess S_FAILED else Inr sess)"

definition fail_job ::
  "worker_settings \<Rightarrow> int \<Rightarrow> db \<Rightarrow> string \<Rightarrow> string \<Rightarrow> string \<Rightarrow> string \<Rightarrow> (py_error, db) result" where
  "fail_job settings now d jid sid code message =
     (case live d jid sid of
        None \<Rightarrow> Inr (worker_cancel_job now d jid)
      | Some (job, sess) \<Rightarrow>
          let job1 = job\<lparr>j_error_code := Some code, j_error_message := Some (take 4000 message)\<rparr>
          in if retryable job code
             then rbind (await_retry sess) (\<lambda>sess'.
                    Inr (save_session now sess' (save_job now
                      (job1\<lparr>j_status := J_QUEUED,
                            j_available_at := now + backoff settings (j_attempts job)\<rparr>) d)))
             else rbind (give_up sess) (\<lambda>sess'.
                    let sess'' = (if j_type job \<noteq> T_SUMMARIZE
                                  then sess'\<lparr>s_last_error := Some (take 4000 (code @ '': '' @ message))\<rparr>
                                  else sess')
                    in Inr (save_session now sess'' (save_job now (job1\<lparr>j_status := J_FAILED\<rparr>) d))))"

subsection \<open>Ambiguous provider operations\<close>

definition ambiguous_error :: "string option \<Rightarrow> string \<Rightarrow> string" where
  "ambiguous_error op advice = take 4000 (AMBIGUOUS_OPERATION_ERROR_CODE @ '': operation '' @
     (case op of None \<Rightarrow> ''None'' | Some i \<Rightarrow> i) @ '' requires manual reconciliation'' @ advice)"

definition halt_transcription :: "SessionRecord \<Rightarrow> (py_error, SessionRecord) result" where
  "halt_transcription sess =
     (if s_state sess \<in> {S_TRANSCRIBING, S_RETRY_PENDING}
      then transition sess S_FAILED else Inr sess)"

text \<open>Fails the job and names the operation an operator has to look up; \<open>message\<close> and \<open>advice\<close> are
  text for that operator, which differs a little between the three places that do this.\<close>

definition mark_ambiguous ::
  "int \<Rightarrow> string \<Rightarrow> string \<Rightarrow> JobRecord \<Rightarrow> SessionRecord \<Rightarrow> db \<Rightarrow> (py_error, db) result" where
  "mark_ambiguous now message advice job sess d =
     (let op = s_pending_operation_id sess;
          job' = job\<lparr>j_status := J_FAILED, j_error_code := Some AMBIGUOUS_OPERATION_ERROR_CODE,
                     j_ambiguous_operation_id := op, j_error_message := Some (take 4000 message)\<rparr>
      in rbind (halt_transcription sess) (\<lambda>sess'.
           Inr (save_session now (sess'\<lparr>s_last_error := Some (ambiguous_error op advice)\<rparr>)
                  (save_job now job' d))))"

definition fail_ambiguous_operation ::
  "int \<Rightarrow> string \<Rightarrow> db \<Rightarrow> string \<Rightarrow> SessionRecord \<Rightarrow> (py_error, db) result" where
  "fail_ambiguous_operation now message d jid sess =
     (case get_job d jid of None \<Rightarrow> Inr d | Some job \<Rightarrow>
        mark_ambiguous now message '' before retrying'' job sess d)"

definition is_ambiguous :: "worker_settings \<Rightarrow> JobRecord \<Rightarrow> SessionRecord option \<Rightarrow> bool" where
  "is_ambiguous settings job sess \<longleftrightarrow>
     (case sess of None \<Rightarrow> False | Some s \<Rightarrow> s_pending_operation_kind s \<noteq> None) \<and>
     j_type job = T_TRANSCRIBE \<and> \<not> ws_supports_upload_idempotency settings"

definition recover_one_abandoned_job ::
  "worker_settings \<Rightarrow> int \<Rightarrow> string \<Rightarrow> db \<Rightarrow> string \<Rightarrow> int \<Rightarrow> (py_error, bool \<times> db) result" where
  "recover_one_abandoned_job settings now message d jid cutoff =
     (case get_job d jid of
        None \<Rightarrow> Inr (False, d)
      | Some job \<Rightarrow>
          if j_status job \<noteq> J_RUNNING \<or> cutoff \<le> j_updated_at job then Inr (False, d)
          else
            let sess = get_session d (j_session_id job)
            in if is_ambiguous settings job sess
               then rbind (mark_ambiguous now message '' before retrying'' job (the sess) d) (\<lambda>d'. Inr (True, d'))
               else Inr (True, save_job now (job\<lparr>j_status := J_QUEUED, j_available_at := now,
                      j_error_code := Some ''worker_lease_expired'',
                      j_error_message := Some ''worker lease expired; job safely re-queued''\<rparr>) d))"

definition abandoned_jobs :: "worker_settings \<Rightarrow> int \<Rightarrow> db \<Rightarrow> string list" where
  "abandoned_jobs settings now d =
     map j_id (sort_key j_created_at (filter (\<lambda>j. j_status j = J_RUNNING \<and>
       j_updated_at j < now - ws_job_lease_seconds settings) (db_jobs d)))"

definition recover_abandoned_jobs ::
  "worker_settings \<Rightarrow> int \<Rightarrow> string \<Rightarrow> db \<Rightarrow> (py_error, nat \<times> db) result" where
  "recover_abandoned_jobs settings now message d =
     fold_result (\<lambda>(n, d) jid.
         rbind (recover_one_abandoned_job settings now message d jid
                  (now - ws_job_lease_seconds settings)) (\<lambda>(recovered, d').
           Inr (if recovered then Suc n else n, d')))
       (0, d) (abandoned_jobs settings now d)"

text \<open>A processing transaction that lost an optimistic race.\<close>

definition resolve_stale_processing ::
  "worker_settings \<Rightarrow> int \<Rightarrow> string \<Rightarrow> db \<Rightarrow> string \<Rightarrow> string \<Rightarrow> (py_error, db) result" where
  "resolve_stale_processing settings now message d jid sid =
     (case get_job d jid of
        None \<Rightarrow> Inr d
      | Some job \<Rightarrow>
          if j_status job \<noteq> J_RUNNING then Inr d
          else case get_session d sid of
              None \<Rightarrow> Inr (save_job now (job\<lparr>j_status := J_CANCELLED\<rparr>) d)
            | Some sess \<Rightarrow>
                if deletion_requested d sid \<or> halted_state (s_state sess)
                then Inr (save_job now (job\<lparr>j_status := J_CANCELLED\<rparr>) d)
                else if is_ambiguous settings job (Some sess) then mark_ambiguous now message [] job sess d
                else if j_attempts job < j_max_attempts job
                then rbind (await_retry sess) (\<lambda>sess'.
                       Inr (save_session now sess' (save_job now
                         (job\<lparr>j_status := J_QUEUED, j_error_code := Some ''concurrent_update'',
                              j_error_message := Some message,
                              j_available_at := now + ws_transcription_poll_seconds settings\<rparr>) d)))
                else rbind (give_up sess) (\<lambda>sess'.
                       Inr (save_session now
                         (sess'\<lparr>s_last_error := Some (''concurrent_update: '' @ message)\<rparr>)
                         (save_job now (job\<lparr>j_status := J_FAILED,
                            j_error_code := Some ''concurrent_update'',
                            j_error_message := Some message\<rparr>) d))))"

text \<open>
  After three lost races only the job row is settled, by a plain \<^verbatim>\<open>UPDATE\<close> guarded on the status.
\<close>

definition settle_contested ::
  "worker_settings \<Rightarrow> int \<Rightarrow> bool \<Rightarrow> SessionRecord option \<Rightarrow> JobRecord \<Rightarrow> JobRecord" where
  "settle_contested settings now cancelled sess job =
     (let ambiguous = (\<not> cancelled \<and> is_ambiguous settings job sess);
          target = (if cancelled then J_CANCELLED else if ambiguous then J_FAILED
                    else if j_attempts job < j_max_attempts job then J_QUEUED else J_FAILED);
          job1 = job\<lparr>j_status := target, j_updated_at := now,
            j_error_code := Some (if ambiguous then AMBIGUOUS_OPERATION_ERROR_CODE else ''concurrent_update''),
            j_error_message := Some (if ambiguous
              then ''a non-idempotent provider operation requires manual reconciliation''
              else ''processing repeatedly lost an optimistic concurrency race; transaction rolled back'')\<rparr>;
          job2 = (if ambiguous then job1\<lparr>j_ambiguous_operation_id := s_pending_operation_id (the sess)\<rparr>
                  else job1)
      in if target = J_QUEUED
         then job2\<lparr>j_available_at := now + ws_transcription_poll_seconds settings\<rparr> else job2)"

definition resolve_stale_fallback ::
  "worker_settings \<Rightarrow> int \<Rightarrow> db \<Rightarrow> string \<Rightarrow> string \<Rightarrow> db" where
  "resolve_stale_fallback settings now d jid sid =
     (let sess = get_session d sid;
          cancelled = (deletion_requested d sid \<or> sess = None \<or> halted_state (s_state (the sess)))
      in d\<lparr>db_jobs := map (\<lambda>j. if j_id j = jid \<and> j_status j = J_RUNNING
             then settle_contested settings now cancelled sess j else j) (db_jobs d)\<rparr>)"

subsection \<open>Compensation of orphaned recordings\<close>

definition due_compensation :: "int \<Rightarrow> db \<Rightarrow> DeletionCompensationRecord option" where
  "due_compensation now d =
     (case sort_key c_created_at (filter (\<lambda>c. c_status c \<in> {C_PENDING, C_FAILED} \<and>
             c_available_at c \<le> now) (db_compensations d)) of
        [] \<Rightarrow> None | c # _ \<Rightarrow> Some c)"

definition save_compensation :: "DeletionCompensationRecord \<Rightarrow> db \<Rightarrow> db" where
  "save_compensation c d = d\<lparr>db_compensations := tbl_put c_id (db_compensations d) c\<rparr>"

text \<open>The transaction before the provider is called: \<open>None\<close> when there is nothing left to do.\<close>

definition begin_compensation :: "db \<Rightarrow> string \<Rightarrow> DeletionCompensationRecord option \<times> db" where
  "begin_compensation d cid =
     (case tbl_get c_id (db_compensations d) cid of
        None \<Rightarrow> (None, d)
      | Some c \<Rightarrow>
          if c_status c = C_SUCCEEDED then (None, d)
          else let c' = c\<lparr>c_status := C_PENDING, c_attempts := Suc (c_attempts c)\<rparr>
               in (Some c', save_compensation c' d))"

definition finish_compensation ::
  "worker_settings \<Rightarrow> int \<Rightarrow> db \<Rightarrow> DeletionCompensationRecord \<Rightarrow> (AdapterError, unit) result \<Rightarrow> db" where
  "finish_compensation settings now d begun answer =
     (case tbl_get c_id (db_compensations d) (c_id begun) of
        None \<Rightarrow> d
      | Some c \<Rightarrow>
          (case answer of
             Inl exc \<Rightarrow>
               if provider_deletion_not_found exc
               then record_deletion_compensation now
                      (save_compensation (c\<lparr>c_status := C_SUCCEEDED, c_error_code := None,
                         c_error_message := None, c_completed_at := Some now\<rparr>) d)
                      (c_session_id begun) (c_recording_id begun)
               else save_compensation (c\<lparr>c_status := C_FAILED, c_error_code := Some (ae_code exc),
                      c_error_message := Some (take 4000 (ae_message exc)),
                      c_available_at := now + backoff settings (c_attempts begun)\<rparr>) d
           | Inr _ \<Rightarrow>
               record_deletion_compensation now
                 (save_compensation (c\<lparr>c_status := C_SUCCEEDED, c_error_code := None,
                    c_error_message := None, c_completed_at := Some now\<rparr>) d)
                 (c_session_id begun) (c_recording_id begun)))"

definition attempt_deletion_compensation ::
  "worker_settings \<Rightarrow> (string \<Rightarrow> (AdapterError, unit) result) \<Rightarrow> int \<Rightarrow> db \<Rightarrow> string \<Rightarrow> bool \<times> db" where
  "attempt_deletion_compensation settings delete_remote now d cid =
     (case begin_compensation d cid of
        (None, d1) \<Rightarrow> (True, d1)
      | (Some c, d1) \<Rightarrow>
          let answer = delete_remote (c_recording_id c)
          in (case answer of Inr _ \<Rightarrow> True | Inl exc \<Rightarrow> provider_deletion_not_found exc,
              finish_compensation settings now d1 c answer))"

definition retry_deletion_compensation ::
  "worker_settings \<Rightarrow> (string \<Rightarrow> (AdapterError, unit) result) \<Rightarrow> int \<Rightarrow> db \<Rightarrow> bool \<times> db" where
  "retry_deletion_compensation settings delete_remote now d =
     (case due_compensation now d of
        None \<Rightarrow> (False, d)
      | Some c \<Rightarrow> (True, snd (attempt_deletion_compensation settings delete_remote now d (c_id c))))"

definition compensate_orphan_recording ::
  "worker_settings \<Rightarrow> (string \<Rightarrow> (AdapterError, unit) result) \<Rightarrow> string \<Rightarrow> int \<Rightarrow> db \<Rightarrow> string \<Rightarrow> string \<Rightarrow>
   bool \<times> db" where
  "compensate_orphan_recording settings delete_remote new_id now d sid recording_id =
     (let (c, d1) = ensure_deletion_compensation new_id now d sid recording_id
      in attempt_deletion_compensation settings delete_remote now d1 (c_id c))"

subsection \<open>Scheduled reconciliation\<close>

definition reconciliation_due :: "worker_settings \<Rightarrow> int \<Rightarrow> SessionRecord \<Rightarrow> bool" where
  "reconciliation_due settings now r \<longleftrightarrow>
     s_speakr_recording_id r \<noteq> None \<and>
     s_state r \<in> {S_TRANSCRIPT_READY, S_AWAITING_REVIEW, S_COMPLETE} \<and>
     (case s_last_reconciled_at r of
        None \<Rightarrow> True | Some t \<Rightarrow> ws_reconciliation_interval_seconds settings \<le> now - t)"

definition enqueue_scheduled_reconciliation ::
  "worker_settings \<Rightarrow> (nat \<Rightarrow> string) \<Rightarrow> int \<Rightarrow> db \<Rightarrow> nat \<times> db" where
  "enqueue_scheduled_reconciliation settings new_ids now d =
     fold (\<lambda>(i, r) (n, d).
         let (_, created, d') = ensure_job (new_ids i) now d (s_id r) T_RECONCILE (ws_max_attempts settings)
         in (if created then Suc n else n, d'))
       (enumerate 0 (filter (reconciliation_due settings now) (db_sessions d))) (0, d)"

subsection \<open>Transcription\<close>

definition resume_transcribing :: "int \<Rightarrow> db \<Rightarrow> SessionRecord \<Rightarrow> (py_error, db) result" where
  "resume_transcribing now d sess =
     (if s_state sess = S_RETRY_PENDING
      then rbind (transition sess S_TRANSCRIBING) (\<lambda>sess'. Inr (save_session now sess' d))
      else Inr d)"

text \<open>What a transcription does next about the upload.\<close>

datatype upload_plan =
    Upload_known
  | Upload_ambiguous
  | Upload_call string

definition begin_upload ::
  "worker_settings \<Rightarrow> string \<Rightarrow> int \<Rightarrow> db \<Rightarrow> SessionRecord \<Rightarrow> (py_error, upload_plan \<times> db) result" where
  "begin_upload settings operation_id now d sess =
     (if \<not> truthy (s_media_path sess) then Inl (ValueError ''session has no retained original media'')
      else if truthy (s_speakr_recording_id sess) then Inr (Upload_known, d)
      else if s_pending_operation_kind sess = Some ''upload'' \<and> \<not> ws_supports_upload_idempotency settings
      then Inr (Upload_ambiguous, d)
      else if s_pending_operation_kind sess \<noteq> Some ''upload''
      then Inr (Upload_call operation_id,
                save_session now (begin_pending_operation operation_id now sess ''upload'') d)
      else Inr (Upload_call (the (s_pending_operation_id sess)), d))"

text \<open>\<^verbatim>\<open>round(seconds * 1000)\<close>: NaN is a \<^verbatim>\<open>ValueError\<close>, an infinity an \<^verbatim>\<open>OverflowError\<close>.\<close>

definition duration_to_ms :: "py_float \<Rightarrow> (py_error, int) result" where
  "duration_to_ms v = (case v of
      Finite x \<Rightarrow> Inr (py_round (x * 1000))
    | Not_a_number \<Rightarrow> Inl (ValueError ''cannot convert float NaN to integer'')
    | Infinite _ \<Rightarrow> Inl ArithmeticError)"

definition record_upload :: "int \<Rightarrow> db \<Rightarrow> SpeakrRecording \<Rightarrow> SessionRecord \<Rightarrow> (py_error, db) result" where
  "record_upload now d uploaded sess =
     (let s1 = clear_pending_operation (sess\<lparr>s_speakr_recording_id := Some (sr_recording_id uploaded)\<rparr>)
      in case sr_duration_seconds uploaded of
           Some secs \<Rightarrow>
             if s_duration_ms s1 = None
             then rbind (duration_to_ms secs) (\<lambda>ms. Inr (save_session now (s1\<lparr>s_duration_ms := Some ms\<rparr>) d))
             else Inr (save_session now s1 d)
         | None \<Rightarrow> Inr (save_session now s1 d))"

datatype submission_plan =
    Submitted_before
  | Submission_ambiguous
  | Submission_call string string
  | Submission_implied

definition begin_submission ::
  "worker_settings \<Rightarrow> submission_mode \<Rightarrow> string \<Rightarrow> int \<Rightarrow> db \<Rightarrow> SessionRecord \<Rightarrow>
   (py_error, submission_plan \<times> db) result" where
  "begin_submission settings mode operation_id now d sess =
     (if s_transcription_submitted_at sess \<noteq> None then Inr (Submitted_before, d)
      else case mode of
          ON_UPLOAD \<Rightarrow>
            Inr (Submission_implied,
                 save_session now (sess\<lparr>s_transcription_submitted_at := Some now\<rparr>) d)
        | EXPLICIT \<Rightarrow>
            if s_pending_operation_kind sess = Some ''queue_transcription'' \<and>
               \<not> ws_supports_upload_idempotency settings
            then Inr (Submission_ambiguous, d)
            else if \<not> truthy (s_speakr_recording_id sess)
            then Inl (ValueError ''session has no Speakr recording id'')
            else if s_pending_operation_kind sess \<noteq> Some ''queue_transcription''
            then Inr (Submission_call (the (s_speakr_recording_id sess)) operation_id,
                      save_session now
                        (begin_pending_operation operation_id now sess ''queue_transcription'') d)
            else Inr (Submission_call (the (s_speakr_recording_id sess))
                        (the (s_pending_operation_id sess)), d))"

definition record_submission :: "int \<Rightarrow> db \<Rightarrow> SessionRecord \<Rightarrow> (py_error, db) result" where
  "record_submission now d sess =
     Inr (save_session now ((clear_pending_operation sess)\<lparr>s_transcription_submitted_at := Some now\<rparr>) d)"

definition finish_transcribe ::
  "worker_settings \<Rightarrow> string \<Rightarrow> int \<Rightarrow> db \<Rightarrow> string \<Rightarrow> (py_error, db) result" where
  "finish_transcribe settings new_id now d sid =
     Inr (snd (snd (ensure_job new_id now d sid T_RECONCILE (ws_max_attempts settings))))"

subsection \<open>Reconciliation and extraction\<close>

definition begin_reconcile :: "int \<Rightarrow> db \<Rightarrow> SessionRecord \<Rightarrow> (py_error, db) result" where
  "begin_reconcile now d sess =
     (if s_state sess \<in> {S_TRANSCRIBING, S_TRANSCRIPT_READY, S_AWAITING_REVIEW, S_COMPLETE,
           S_RETRY_PENDING}
      then rbind (transition sess S_RECONCILING) (\<lambda>sess'. Inr (save_session now sess' d))
      else Inr d)"

datatype recording_status = Recording_failed | Recording_ready | Recording_pending

definition recording_status_of :: "string \<Rightarrow> recording_status" where
  "recording_status_of raw =
     (let status = upper (strip raw)
      in if status \<in> {''FAILED'', ''ERROR'', ''CANCELLED''} then Recording_failed
         else if status \<in> {''COMPLETED'', ''COMPLETE'', ''TRANSCRIBED'', ''READY'', ''DONE''}
         then Recording_ready
         else Recording_pending)"

definition record_duration :: "int \<Rightarrow> db \<Rightarrow> py_float option \<Rightarrow> SessionRecord \<Rightarrow> (py_error, db) result" where
  "record_duration now d duration sess =
     (case duration of
        None \<Rightarrow> Inr d
      | Some secs \<Rightarrow>
          rbind (duration_to_ms secs) (\<lambda>ms. Inr (save_session now (sess\<lparr>s_duration_ms := Some ms\<rparr>) d)))"

definition store_reconciled ::
  "worker_settings \<Rightarrow> (json \<Rightarrow> string) \<Rightarrow> (string \<Rightarrow> string) \<Rightarrow> string \<Rightarrow> string \<Rightarrow> int \<Rightarrow> db \<Rightarrow> json list \<Rightarrow>
   SessionRecord \<Rightarrow> (py_error, db) result" where
  "store_reconciled settings repr sha256 rev_id job_id now d raw_segments sess =
     rbind (reconcile_transcript_data repr sha256 rev_id now d sess raw_segments)
       (\<lambda>(revision, _, sess', d1).
         let d2 = (if entries_of d1 (s_id sess) (Some (r_id revision)) = []
                   then snd (snd (ensure_job job_id now d1 (s_id sess) T_EXTRACT (ws_max_attempts settings)))
                   else d1)
         in Inr (save_session now sess' d2))"

definition begin_extract :: "int \<Rightarrow> db \<Rightarrow> SessionRecord \<Rightarrow> (py_error, db) result" where
  "begin_extract now d sess =
     (if s_state sess \<in> {S_RETRY_PENDING, S_TRANSCRIPT_READY, S_AWAITING_REVIEW}
      then rbind (transition sess S_EXTRACTING) (\<lambda>sess'. Inr (save_session now sess' d))
      else Inr d)"

definition current_revision :: "db \<Rightarrow> SessionRecord \<Rightarrow> (py_error, TranscriptRevisionRecord) result" where
  "current_revision d sess =
     (case (case s_current_transcript_revision_id sess of None \<Rightarrow> None | Some i \<Rightarrow> get_revision d i) of
        None \<Rightarrow> Inl (ValueError ''current transcript revision is missing'')
      | Some rv \<Rightarrow>
          if r_session_id rv \<noteq> s_id sess
          then Inl (ValueError ''current transcript revision is missing'') else Inr rv)"

text \<open>A revision that has entries is not extracted again: \<open>None\<close> asks for the extraction.\<close>

definition plan_extract ::
  "int \<Rightarrow> db \<Rightarrow> SessionRecord \<Rightarrow> (py_error, TranscriptRevisionRecord option \<times> db) result" where
  "plan_extract now d sess =
     rbind (current_revision d sess) (\<lambda>rv.
       if entries_of d (s_id sess) (Some (r_id rv)) \<noteq> []
       then rbind (transition sess S_AWAITING_REVIEW) (\<lambda>sess'. Inr (None, save_session now sess' d))
       else if list_all valid_segment (r_segments rv) then Inr (Some rv, d)
       else Inl (ValueError ''invalid transcript segment''))"

definition store_extracted ::
  "worker_settings \<Rightarrow> (nat \<Rightarrow> string) \<Rightarrow> string \<Rightarrow> int \<Rightarrow> db \<Rightarrow> LedgerEntryCreate list \<Rightarrow> SessionRecord \<Rightarrow>
   (py_error, db) result" where
  "store_extracted settings new_ids job_id now d entries sess =
     rbind (transition sess S_AWAITING_REVIEW) (\<lambda>sess'.
       rbind (fold_result (\<lambda>d (i, entry). rbind (create_ledger_entry (new_ids i) now d sess' entry)
                (\<lambda>(_, d'). Inr d')) d (enumerate 0 entries)) (\<lambda>d1.
         let d2 = (if entries \<noteq> []
                   then snd (snd (ensure_job job_id now d1 (s_id sess) T_SUMMARIZE (ws_max_attempts settings)))
                   else d1)
         in Inr (save_session now sess' d2)))"

subsection \<open>Summaries\<close>

definition entry_span :: "LedgerEntryRecord \<Rightarrow> (py_error, int \<times> int) result" where
  "entry_span e =
     (if e_evidence e = [] then Inl (ValueError ''min() arg is an empty sequence'')
      else Inr (Min (set (map er_start_ms (e_evidence e))), Max (set (map er_end_ms (e_evidence e)))))"

definition moment_of :: "(string \<times> int \<times> int) list \<Rightarrow> string \<Rightarrow> (py_error, SummaryMoment) result" where
  "moment_of spans i =
     (case map_of spans i of
        None \<Rightarrow> Inl (KeyError i)
      | Some (a, b) \<Rightarrow> Inr \<lparr>mo_ledger_entry_id = i, mo_start_ms = a, mo_end_ms = b\<rparr>)"

definition build_theme ::
  "(string \<times> int \<times> int) list \<Rightarrow> nat \<times> SummaryThemeCreate \<Rightarrow> (py_error, SummaryTheme) result" where
  "build_theme spans = (\<lambda>(rank, theme).
     rbind (map_result (moment_of spans) (th_ledger_entry_ids theme)) (\<lambda>found.
       let moments = sort_key mo_start_ms found
       in if moments = [] then Inl IndexError
          else Inr \<lparr>th_title = th_title theme, th_summary = th_summary theme,
                    th_ledger_entry_ids = th_ledger_entry_ids theme,
                    st_rank = rank, st_moments = moments,
                    st_start_ms = mo_start_ms (hd moments),
                    st_end_ms = Max (set (map mo_end_ms moments))\<rparr>))"

definition store_summary_row ::
  "string \<Rightarrow> int \<Rightarrow> db \<Rightarrow> string \<Rightarrow> string \<Rightarrow> SummaryTheme list \<Rightarrow> nat \<Rightarrow> int \<Rightarrow> db" where
  "store_summary_row new_id now d sid rid themes n source_updated_at =
     (if list_ex (\<lambda>m. m_session_id m = sid) (db_summaries d)
      then d\<lparr>db_summaries := map (\<lambda>m. if m_session_id m = sid
               then m\<lparr>m_transcript_revision_id := rid, m_themes := themes, m_entry_count := n,
                      m_source_updated_at := source_updated_at, m_generated_at := now\<rparr>
               else m) (db_summaries d)\<rparr>
      else d\<lparr>db_summaries := db_summaries d @
               [\<lparr>m_id = new_id, m_session_id = sid, m_transcript_revision_id = rid, m_themes = themes,
                 m_entry_count = n, m_source_updated_at = source_updated_at, m_generated_at = now\<rparr>]\<rparr>)"

text \<open>The entries a summary is asked for, read before the summarizer is called.\<close>

definition summary_source :: "db \<Rightarrow> SessionRecord \<Rightarrow> (py_error, TranscriptRevisionRecord \<times> LedgerEntryRecord list) result" where
  "summary_source d sess =
     rbind (current_revision d sess) (\<lambda>rv.
       Inr (rv, sort_key e_created_at (entries_of d (s_id sess) (Some (r_id rv)))))"

definition store_summary ::
  "string \<Rightarrow> int \<Rightarrow> db \<Rightarrow> TranscriptRevisionRecord \<Rightarrow> LedgerEntryRecord list \<Rightarrow> SummaryThemeCreate list \<Rightarrow>
   SessionRecord \<Rightarrow> (py_error, db) result" where
  "store_summary new_id now d revision records summary_themes sess =
     rbind (map_result (\<lambda>e. rbind (entry_span e) (\<lambda>span. Inr (e_id e, span))) records) (\<lambda>spans.
       rbind (map_result (build_theme spans) (enumerate 1 summary_themes)) (\<lambda>themes.
         Inr (store_summary_row new_id now d (s_id sess) (r_id revision) themes (length records)
                (Max (set (map e_updated_at records))))))"

subsection \<open>Example objects\<close>

definition demo_worker :: worker_settings where
  "demo_worker = \<lparr>ws_max_attempts = 3, ws_job_lease_seconds = 60, ws_transcription_poll_seconds = 5,
     ws_reconciliation_interval_seconds = 600, ws_supports_upload_idempotency = False\<rparr>"

definition demo_uploaded :: SessionRecord where
  "demo_uploaded = demo_session\<lparr>s_state := S_TRANSCRIBING, s_media_path := Some ''/m/a''\<rparr>"

definition demo_job :: "string \<Rightarrow> int \<Rightarrow> JobRecord" where
  "demo_job i t = new_job i t ''a'' T_TRANSCRIBE 3"

definition demo_queue :: db where
  "demo_queue = empty_db\<lparr>db_sessions := [demo_uploaded], db_jobs := [demo_job ''j'' 1, demo_job ''k'' 2]\<rparr>"

definition demo_running :: db where
  "demo_running = empty_db\<lparr>db_sessions := [demo_uploaded],
     db_jobs := [(demo_job ''j'' 1)\<lparr>j_status := J_RUNNING, j_attempts := 1\<rparr>]\<rparr>"

definition demo_theme :: SummaryThemeCreate where
  "demo_theme = \<lparr>th_title = ''T'', th_summary = ''S'', th_ledger_entry_ids = [''x'', ''y'']\<rparr>"

lemma get_session_saved:
  "get_session d (s_id r) = Some old \<Longrightarrow> \<exists>r'. get_session (save_session now r d) (s_id r) = Some r' \<and>
     s_pending_operation_kind r' = s_pending_operation_kind r \<and>
     s_pending_operation_id r' = s_pending_operation_id r \<and> s_state r' = s_state r \<and>
     s_speakr_recording_id r' = s_speakr_recording_id r \<and>
     s_transcription_submitted_at r' = s_transcription_submitted_at r \<and> s_media_path r' = s_media_path r"
  using sess.get_none [of "db_sessions d" "s_id r"]
  by (auto simp: save_session_def get_session_def tbl_get_put)

lemma get_job_save:
  "get_job d (j_id j) = Some old \<Longrightarrow> \<exists>j'. get_job (save_job now j d) (j_id j) = Some j' \<and>
     j_status j' = j_status j \<and> j_attempts j' = j_attempts j \<and> j_available_at j' = j_available_at j \<and>
     j_error_code j' = j_error_code j \<and> j_ambiguous_operation_id j' = j_ambiguous_operation_id j \<and> j_id j' = j_id j"
  using job.get_none [of "db_jobs d" "j_id j"]
  by (auto simp: save_job_def get_job_def tbl_get_put)

lemma save_other_table [simp]:
  "get_job (save_session now r d) i = get_job d i" "get_session (save_job now j d) k = get_session d k"
  by (simp_all add: save_session_def save_job_def get_job_def get_session_def split: option.splits)

lemma get_job_id: "get_job d i = Some j \<Longrightarrow> j_id j = i"
  unfolding get_job_def using job.get_in by metis

lemmas demo_rows = demo_uploaded_def demo_session_def demo_job_def demo_queue_def demo_running_def empty_db_def
  get_job_def get_session_def tbl_get_def

subsection \<open>Uploads\<close>

text \<open>The provider is asked to create a recording only after the operation has been made durable:
  in the database the worker leaves before the call, the session carries the marker of exactly this
  upload. With a provider that cannot deduplicate, the operation is a new one and no earlier
  upload of the session was still unaccounted for.\<close>

theorem upload_marked_before_call:
  assumes "begin_upload st op now d sess = Inr (Upload_call o', d')"
    and "get_session d (s_id sess) = Some sess"
    and "s_pending_operation_kind sess = Some ''upload'' \<Longrightarrow> s_pending_operation_id sess \<noteq> None"
  shows "(\<exists>s'. get_session d' (s_id sess) = Some s' \<and> s_pending_operation_kind s' = Some ''upload'' \<and>
      s_pending_operation_id s' = Some o') \<and> \<not> truthy (s_speakr_recording_id sess) \<and>
    (\<not> ws_supports_upload_idempotency st \<longrightarrow> s_pending_operation_kind sess \<noteq> Some ''upload'' \<and> o' = op)"
  using assms get_session_saved [of d "begin_pending_operation op now sess ''upload''" sess now]
  by (auto simp: begin_upload_def begin_pending_operation_def split: if_splits)

subsection \<open>Failure and recovery\<close>

lemma failure_transitions_total:
  "\<exists>r. await_retry sess = Inr r" "\<exists>r. give_up sess = Inr r" "\<exists>r. halt_transcription sess = Inr r"
  by (cases "s_state sess"; simp add: await_retry_def give_up_def halt_transcription_def transition_def)+

lemma mark_ambiguous_total: "\<exists>d'. mark_ambiguous now m a job sess d = Inr d'"
  using failure_transitions_total(3) [of sess] by (auto simp: mark_ambiguous_def Let_def)

lemma recover_one_total: "\<exists>r. recover_one_abandoned_job st now m d jid cutoff = Inr r"
  using mark_ambiguous_total
  by (fastforce simp: recover_one_abandoned_job_def Let_def split: option.splits)

text \<open>The recovery code cannot itself raise: failing a job, settling a lost race and sweeping the
  abandoned jobs produce a database from every database, because each session transition they
  make is one the state machine allows.\<close>

theorem recovery_total:
  "(\<exists>d'. fail_job st now d jid sid code m = Inr d') \<and>
   (\<exists>d'. resolve_stale_processing st now m d jid sid = Inr d') \<and>
   (\<exists>n d'. recover_abandoned_jobs st now m d = Inr (n, d'))"
proof (intro conjI)
  show "\<exists>d'. fail_job st now d jid sid code m = Inr d'"
    using failure_transitions_total
    by (cases "live d jid sid") (auto simp: fail_job_def Let_def)
  show "\<exists>d'. resolve_stale_processing st now m d jid sid = Inr d'"
    using failure_transitions_total mark_ambiguous_total
    by (fastforce simp: resolve_stale_processing_def Let_def split: option.splits)
  have "\<exists>r. recover_abandoned_jobs st now m d = Inr r"
    unfolding recover_abandoned_jobs_def
    by (rule fold_result_total) (use recover_one_total in fastforce)
  then show "\<exists>n d'. recover_abandoned_jobs st now m d = Inr (n, d')" by auto
qed

text \<open>C12: an abandoned job is put back in the queue unless it may have left an upload behind: then it
  fails, names the operation, and waits for an operator. A job whose lease is current is left
  alone.\<close>

theorem recovery_policy:
  assumes "get_job d jid = Some job" and "recover_one_abandoned_job st now m d jid cutoff = Inr (b, d')"
  shows "if j_status job = J_RUNNING \<and> j_updated_at job < cutoff
     then b \<and> (\<exists>job'. get_job d' jid = Some job' \<and>
       (if is_ambiguous st job (get_session d (j_session_id job))
        then j_status job' = J_FAILED \<and> j_error_code job' = Some AMBIGUOUS_OPERATION_ERROR_CODE \<and>
          j_ambiguous_operation_id job' = s_pending_operation_id (the (get_session d (j_session_id job)))
        else j_status job' = J_QUEUED \<and> j_available_at job' = now))
     else \<not> b \<and> d' = d"
proof -
  have id: "j_id job = jid" by (rule get_job_id [OF assms(1)])
  note save = get_job_save [of d "job\<lparr>j_status := J_QUEUED, j_available_at := now,
      j_error_code := Some ''worker_lease_expired'',
      j_error_message := Some ''worker lease expired; job safely re-queued''\<rparr>" job now]
    get_job_save [of d "job\<lparr>j_status := J_FAILED, j_error_code := Some AMBIGUOUS_OPERATION_ERROR_CODE,
      j_ambiguous_operation_id := s_pending_operation_id (the (get_session d (j_session_id job))),
      j_error_message := Some (take 4000 m)\<rparr>" job now]
  show ?thesis
    using assms id save
    by (auto simp: recover_one_abandoned_job_def mark_ambiguous_def Let_def split: if_splits)
qed

theorem recovery_policy_witness:
  "\<exists>d' job'. recover_one_abandoned_job demo_worker 100 [] demo_running ''j'' 40 = Inr (True, d') \<and>
     get_job d' ''j'' = Some job' \<and> j_status job' = J_QUEUED"
proof -
  let ?job = "(demo_job ''j'' 1)\<lparr>j_status := J_RUNNING, j_attempts := 1\<rparr>"
  have row: "get_job demo_running ''j'' = Some ?job" by (simp add: demo_rows)
  have facts: "j_status ?job = J_RUNNING" "j_updated_at ?job < 40"
    "\<not> is_ambiguous demo_worker ?job (get_session demo_running (j_session_id ?job))"
    by (simp_all add: demo_rows new_job_def is_ambiguous_def)
  obtain b d' where r: "recover_one_abandoned_job demo_worker 100 [] demo_running ''j'' 40 = Inr (b, d')"
    using recover_one_total [of demo_worker 100 "[]" demo_running "''j''" 40] by auto
  from recovery_policy [OF row r] facts r show ?thesis by auto
qed

text \<open>C28: a failing job is queued again only while it has attempts left and the error is not a permanent
  one; the delay is then at least the polling interval and never more than five minutes. Otherwise
  it ends as failed.\<close>

theorem fail_job_policy:
  assumes "live d jid sid = Some (job, sess)" and "fail_job st now d jid sid code m = Inr d'"
    and "0 < ws_transcription_poll_seconds st" "ws_transcription_poll_seconds st \<le> 300"
  shows "\<exists>job'. get_job d' jid = Some job' \<and> j_attempts job' = j_attempts job \<and>
    j_error_code job' = Some code \<and>
    (if retryable job code
     then j_status job' = J_QUEUED \<and> j_attempts job < j_max_attempts job \<and>
       now + ws_transcription_poll_seconds st \<le> j_available_at job' \<and> j_available_at job' \<le> now + 300
     else j_status job' = J_FAILED)"
proof -
  have row: "get_job d jid = Some job" using assms(1) by (auto simp: live_def split: option.splits if_splits)
  have id: "j_id job = jid" by (rule get_job_id [OF row])
  have bounds: "ws_transcription_poll_seconds st \<le> backoff st k \<and> backoff st k \<le> 300" for k
    using assms(3,4) by (auto simp: backoff_def min_def mult_le_cancel_left1)
  let ?j = "job\<lparr>j_error_code := Some code, j_error_message := Some (take 4000 m)\<rparr>"
  show ?thesis
  proof (cases "retryable job code")
    case True
    let ?q = "?j\<lparr>j_status := J_QUEUED, j_available_at := now + backoff st (j_attempts job)\<rparr>"
    from True assms(1,2) obtain s' where "d' = save_session now s' (save_job now ?q d)"
      by (auto simp: fail_job_def Let_def)
    with get_job_save [of d ?q job now] row id True bounds [of "j_attempts job"] show ?thesis
      by (auto simp: retryable_def)
  next
    case False
    let ?q = "?j\<lparr>j_status := J_FAILED\<rparr>"
    from False assms(1,2) obtain s' where "d' = save_session now s' (save_job now ?q d)"
      by (auto simp: fail_job_def Let_def)
    with get_job_save [of d ?q job now] row id False show ?thesis by auto
  qed
qed

theorem fail_job_policy_witness:
  "\<exists>d' job'. fail_job demo_worker 100 demo_running ''j'' ''a'' ''timeout'' [] = Inr d' \<and>
     get_job d' ''j'' = Some job' \<and> j_status job' = J_QUEUED \<and> j_available_at job' \<le> 400"
proof -
  let ?job = "(demo_job ''j'' 1)\<lparr>j_status := J_RUNNING, j_attempts := 1\<rparr>"
  have row: "live demo_running ''j'' ''a'' = Some (?job, demo_uploaded)"
    by (simp add: live_def demo_rows deletion_requested_def halted_state_def)
  have re: "retryable ?job ''timeout''"
    by (simp add: retryable_def demo_job_def AMBIGUOUS_OPERATION_ERROR_CODE_def)
  obtain d' where r: "fail_job demo_worker 100 demo_running ''j'' ''a'' ''timeout'' [] = Inr d'"
    using failure_transitions_total [of demo_uploaded] row re by (auto simp: fail_job_def Let_def)
  from fail_job_policy [OF row r] re r show ?thesis by (auto simp: demo_worker_def)
qed

subsection \<open>Claiming\<close>

text \<open>A job is taken by one worker: the claim marks it as running before any other claim can see it, so
  two claims in a row never return the same job, and a claimed job was queued and due.\<close>

theorem claim_exclusive:
  assumes "distinct (map j_id (db_jobs d))"
    and "claim_job now d = (Some j, d1)" and "claim_job now' d1 = (Some j', d2)"
  shows "j_id j' \<noteq> j_id j \<and> (\<exists>old \<in> set (db_jobs d). j_id old = j_id j \<and> j_status old = J_QUEUED \<and>
     j_available_at old \<le> now \<and> j_attempts j = Suc (j_attempts old))"
proof -
  have claimed: "\<exists>old \<in> set (db_jobs d). j_status old = J_QUEUED \<and> j_available_at old \<le> now \<and>
      j = old\<lparr>j_status := J_RUNNING, j_attempts := Suc (j_attempts old)\<rparr> \<and> d1 = save_job now j d"
    if "claim_job now d = (Some j, d1)" for now d j d1
  proof -
    let ?due = "sort_key j_created_at (filter (\<lambda>j. j_status j = J_QUEUED \<and> j_available_at j \<le> now) (db_jobs d))"
    from that obtain old rest where eq: "?due = old # rest"
      and j: "j = old\<lparr>j_status := J_RUNNING, j_attempts := Suc (j_attempts old)\<rparr>" "d1 = save_job now j d"
      by (auto simp: claim_job_def Let_def split: list.splits)
    have "old \<in> set ?due" by (simp only: eq list.set_intros)
    then show ?thesis using j by auto
  qed
  from claimed [OF assms(2)] obtain old where old: "old \<in> set (db_jobs d)" "j_status old = J_QUEUED"
      "j_available_at old \<le> now" "j = old\<lparr>j_status := J_RUNNING, j_attempts := Suc (j_attempts old)\<rparr>"
      "d1 = save_job now j d" by blast
  have row: "get_job d (j_id j) = Some old"
    using job.get_row [OF assms(1) old(1)] old(4) by (simp add: get_job_def)
  from get_job_save [OF this, of now] old(4,5) obtain r where r: "get_job d1 (j_id j) = Some r" "j_status r = J_RUNNING"
    by auto
  have keys: "distinct (map j_id (db_jobs d1))"
    unfolding old(5) by (auto simp: save_job_def assms(1) job.put_distinct split: option.splits)
  from claimed [OF assms(3)] obtain old' where old': "old' \<in> set (db_jobs d1)" "j_status old' = J_QUEUED"
      "j_id j' = j_id old'" by auto
  have "get_job d1 (j_id old') = Some old'"
    using job.get_row [OF keys old'(1)] by (simp add: get_job_def)
  with r old' have "j_id j' \<noteq> j_id j" by (metis JobStatus.distinct(1) option.inject)
  with old show ?thesis by auto
qed

subsection \<open>Summaries\<close>

text \<open>A theme shown in a summary points at real places: its moments are exactly the entries it
  cites with those entries' spans, in order of time, and its own range runs from the earliest start to the
  latest end of them.\<close>

theorem build_theme_faithful:
  assumes "build_theme spans (k, t) = Inr th"
  shows "st_rank th = k \<and> th_ledger_entry_ids th = th_ledger_entry_ids t \<and>
    mset (map mo_ledger_entry_id (st_moments th)) = mset (th_ledger_entry_ids t) \<and>
    sorted (map mo_start_ms (st_moments th)) \<and>
    (\<forall>m \<in> set (st_moments th). map_of spans (mo_ledger_entry_id m) = Some (mo_start_ms m, mo_end_ms m)) \<and>
    st_start_ms th = Min (mo_start_ms ` set (st_moments th)) \<and>
    st_end_ms th = Max (mo_end_ms ` set (st_moments th))"
proof -
  from assms obtain found where f: "map_result (moment_of spans) (th_ledger_entry_ids t) = Inr found"
    and ne: "sort_key mo_start_ms found \<noteq> []"
    and th: "st_rank th = k" "th_ledger_entry_ids th = th_ledger_entry_ids t"
      "st_moments th = sort_key mo_start_ms found" "st_start_ms th = mo_start_ms (hd (sort_key mo_start_ms found))"
      "st_end_ms th = Max (set (map mo_end_ms (sort_key mo_start_ms found)))"
    by (auto simp: build_theme_def Let_def split: if_splits)
  have all: "list_all2 (\<lambda>i m. moment_of spans i = Inr m) (th_ledger_entry_ids t) found"
    using f by (simp add: map_result_Inr_iff)
  then have ids: "map mo_ledger_entry_id found = th_ledger_entry_ids t"
    by (induction rule: list_all2_induct) (auto simp: moment_of_def split: option.splits)
  from all have spans: "\<forall>m \<in> set found. map_of spans (mo_ledger_entry_id m) = Some (mo_start_ms m, mo_end_ms m)"
    by (induction rule: list_all2_induct) (auto simp: moment_of_def split: option.splits)
  let ?ms = "sort_key mo_start_ms found"
  have srt: "sorted (map mo_start_ms ?ms)" by simp
  have "mo_start_ms (hd ?ms) = Min (mo_start_ms ` set ?ms)"
  proof (cases ?ms)
    case Nil
    with ne show ?thesis by simp
  next
    case (Cons a as)
    with srt show ?thesis by (auto intro!: Min_eqI [symmetric])
  qed
  moreover have "mset (map mo_ledger_entry_id ?ms) = mset (th_ledger_entry_ids t)"
    using ids by (metis mset_map mset_sort)
  ultimately show ?thesis using th srt spans by simp
qed

subsection \<open>Orphaned recordings\<close>

lemma intent_requested: "deletion_requested (record_deletion_intent now d sid) sid"
  by (auto simp: deletion_requested_def record_deletion_intent_def tbl_get_def tbl_add_def find_append
      new_tombstone_def split: option.splits)

lemma compensation_keeps_request:
  "deletion_requested d sid \<Longrightarrow> deletion_requested (snd (attempt_deletion_compensation st del now d cid)) sid"
proof -
  have saved: "deletion_requested (save_compensation c d) sid = deletion_requested d sid" for c d
    by (simp add: deletion_requested_def save_compensation_def)
  have recorded: "deletion_requested (record_deletion_compensation now d i rid) sid" if "deletion_requested d sid" for d i rid
  proof -
    have "map d_session_id (db_tombstones (record_deletion_compensation now d i rid)) =
        map d_session_id (db_tombstones (record_deletion_intent now d i))"
      by (simp add: record_deletion_compensation_def Let_def)
    then have "d_session_id ` set (db_tombstones (record_deletion_compensation now d i rid)) =
        d_session_id ` set (db_tombstones (record_deletion_intent now d i))"
      by (metis list.set_map)
    then show ?thesis
      using that by (auto simp: deletion_requested_def tomb.get_none record_deletion_intent_def tbl_add_def split: option.splits)
  qed
  assume "deletion_requested d sid"
  then show ?thesis
    by (auto simp: attempt_deletion_compensation_def begin_compensation_def finish_compensation_def Let_def saved recorded
        split: option.splits sum.splits)
qed

text \<open>C34: cleaning up an upload that finished after its job was cancelled marks the whole session for
  deletion, whether or not anybody asked for that: from then on no job of the session gets past a
  worker's checkpoint.\<close>

theorem orphan_cleanup_halts_session:
  "deletion_requested (snd (compensate_orphan_recording st del i now d sid rid)) sid \<and>
   live (snd (compensate_orphan_recording st del i now d sid rid)) jid sid = None"
proof -
  have "deletion_requested (snd (ensure_deletion_compensation i now d sid rid)) sid"
    using intent_requested [of now d sid]
    by (auto simp: ensure_deletion_compensation_def deletion_requested_def Let_def split: option.splits)
  then have "deletion_requested (snd (compensate_orphan_recording st del i now d sid rid)) sid"
    using compensation_keeps_request
    by (simp add: compensate_orphan_recording_def case_prod_beta)
  then show ?thesis by (auto simp: live_def split: option.splits)
qed

end
