(* ===== verification/System.thy ===== *)
theory System
  imports Api Worker
begin

text \<open>
  The evidence store as the API and the worker drive it together. Every transaction of either is
  a step on the database, taken at any time, by any number of workers and requests, with any
  arguments: stopping a worker between two of its transactions, starting another on the same
  job, or serving a request in between are orders of steps. What holds after every such
  sequence from the empty database is the safety of the ledger.
\<close>

definition complete_ok :: "db \<Rightarrow> SessionRecord \<Rightarrow> bool" where
  "complete_ok d s \<longleftrightarrow>
     entries_of d (s_id s) (s_current_transcript_revision_id s) \<noteq> [] \<and>
     (\<forall>e \<in> set (entries_of d (s_id s) (s_current_transcript_revision_id s)).
        reviewed (e_verification_status e))"

definition keys_ok :: "db \<Rightarrow> bool" where
  "keys_ok d \<longleftrightarrow> distinct (map s_id (db_sessions d)) \<and> distinct (map r_id (db_revisions d)) \<and>
     distinct (map e_id (db_entries d)) \<and>
     r_session_id ` set (db_revisions d) \<subseteq> s_id ` set (db_sessions d)"

definition revisions_ok :: "db \<Rightarrow> bool" where
  "revisions_ok d \<longleftrightarrow> list_all revision_ok (db_revisions d)"

definition entries_ok :: "db \<Rightarrow> bool" where
  "entries_ok d \<longleftrightarrow> (\<forall>e \<in> set (db_entries d). \<exists>rv \<in> set (db_revisions d).
     r_id rv = e_transcript_revision_id e \<and> r_session_id rv = e_session_id e \<and>
     grounded rv (e_evidence e) (e_exact_coach_feedback e))"

definition current_ok :: "db \<Rightarrow> bool" where
  "current_ok d \<longleftrightarrow> (\<forall>s \<in> set (db_sessions d). \<forall>rid. s_current_transcript_revision_id s = Some rid \<longrightarrow>
     (\<exists>rv \<in> set (db_revisions d). r_id rv = rid \<and> r_session_id rv = s_id s))"

definition history_ok :: "db \<Rightarrow> bool" where
  "history_ok d \<longleftrightarrow> (\<forall>s \<in> set (db_sessions d). \<forall>e \<in> set (db_entries d).
     e_session_id e = s_id s \<and> s_current_transcript_revision_id s \<noteq> Some (e_transcript_revision_id e) \<longrightarrow>
     e_verification_status e = V_NEEDS_REVIEW)"

definition states_ok :: "db \<Rightarrow> bool" where
  "states_ok d \<longleftrightarrow> (\<forall>s \<in> set (db_sessions d).
     (s_state s = S_COMPLETE \<longrightarrow> complete_ok d s) \<and>
     (s_state s = S_DELETE_PENDING \<longrightarrow> deletion_requested d (s_id s)))"

definition db_inv :: "db \<Rightarrow> bool" where
  "db_inv d \<longleftrightarrow> keys_ok d \<and> revisions_ok d \<and> entries_ok d \<and> current_ok d \<and> history_ok d \<and> states_ok d"

lemmas inv_defs = db_inv_def keys_ok_def revisions_ok_def entries_ok_def current_ok_def history_ok_def
  states_ok_def

definition fresh :: "db \<Rightarrow> string \<Rightarrow> bool" where
  "fresh d i \<longleftrightarrow> i \<notin> s_id ` set (db_sessions d) \<and> i \<notin> r_id ` set (db_revisions d) \<and>
     i \<notin> e_id ` set (db_entries d) \<and> i \<notin> j_id ` set (db_jobs d)"

subsection \<open>Writes outside sessions, transcripts and the ledger\<close>

text \<open>
  Most transactions write, besides the session row, only jobs, summaries, compensations and
  tombstones. The interface of such a write: it leaves sessions, revisions and entries as they
  were and forgets no tombstone.
\<close>

locale core_frame =
  fixes f :: "db \<Rightarrow> db"
  assumes sessions: "db_sessions (f d) = db_sessions d"
    and revisions: "db_revisions (f d) = db_revisions d"
    and entries: "db_entries (f d) = db_entries d"
    and tombstones: "d_session_id ` set (db_tombstones d) \<subseteq> d_session_id ` set (db_tombstones (f d))"
begin

lemma get_session_frame [simp]: "get_session (f d) i = get_session d i"
  by (simp add: get_session_def sessions)

lemma deletion_frame: "deletion_requested d i \<Longrightarrow> deletion_requested (f d) i"
  using tombstones [of d] by (auto simp: deletion_requested_def tomb.get_none)

lemma entries_of_frame [simp]: "entries_of (f d) i r = entries_of d i r"
  by (simp add: entries_of_def entries)

lemma complete_frame [simp]: "complete_ok (f d) s = complete_ok d s"
  by (simp add: complete_ok_def)

lemma inv_frame: "db_inv d \<Longrightarrow> db_inv (f d)"
  using deletion_frame [of d] by (simp add: inv_defs sessions revisions entries)

end

interpretation ensure: core_frame "\<lambda>d. snd (snd (ensure_job i now d sid t m))" for i now sid t m
  by unfold_locales (auto simp: ensure_job_def Let_def split: option.splits)

interpretation jobs: core_frame "save_job now j" for now j
  by unfold_locales (auto simp: save_job_def split: option.splits)

interpretation cancels: core_frame "cancel_active_jobs now sid sts" for now sid sts
  by unfold_locales (auto simp: cancel_active_jobs_def)

interpretation wcancel: core_frame "\<lambda>d. worker_cancel_job now d jid" for now jid
  by unfold_locales (auto simp: worker_cancel_job_def save_job_def split: option.splits)

interpretation intent: core_frame "\<lambda>d. record_deletion_intent now d sid" for now sid
  by unfold_locales (auto simp: record_deletion_intent_def tbl_add_def split: option.splits)

interpretation addjob: core_frame "\<lambda>d. d\<lparr>db_jobs := f d\<rparr>" for f
  by unfold_locales auto

interpretation resolutions: core_frame "\<lambda>d. d\<lparr>db_resolutions := f d\<rparr>" for f
  by unfold_locales auto

interpretation deliveries: core_frame "\<lambda>d. d\<lparr>db_deliveries := f d\<rparr>" for f
  by unfold_locales auto

interpretation verifs: core_frame "\<lambda>d. d\<lparr>db_verifications := f d\<rparr>" for f
  by unfold_locales auto

interpretation summaries: core_frame "\<lambda>d. store_summary_row i now d sid rid ths n t"
  for i now sid rid ths n t
  by unfold_locales (auto simp: store_summary_row_def)

interpretation compensation: core_frame "save_compensation c" for c
  by unfold_locales (auto simp: save_compensation_def)

interpretation compensated: core_frame "\<lambda>d. record_deletion_compensation now d sid rid" for now sid rid
proof unfold_locales
  fix d
  have "map d_session_id (db_tombstones (record_deletion_compensation now d sid rid)) =
      map d_session_id (db_tombstones (record_deletion_intent now d sid))"
    by (simp add: record_deletion_compensation_def Let_def)
  then have "d_session_id ` set (db_tombstones (record_deletion_compensation now d sid rid)) =
      d_session_id ` set (db_tombstones (record_deletion_intent now d sid))"
    by (metis list.set_map)
  then show "d_session_id ` set (db_tombstones d) \<subseteq>
      d_session_id ` set (db_tombstones (record_deletion_compensation now d sid rid))"
    using intent.tombstones by metis
qed (simp_all add: record_deletion_compensation_def Let_def intent.sessions intent.revisions intent.entries)

interpretation orphans: core_frame "\<lambda>d. snd (ensure_deletion_compensation i now d sid rid)" for i now sid rid
proof unfold_locales
  fix d
  have "db_tombstones (snd (ensure_deletion_compensation i now d sid rid)) =
      db_tombstones (record_deletion_intent now d sid)"
    by (simp add: ensure_deletion_compensation_def Let_def split: option.splits)
  then show "d_session_id ` set (db_tombstones d) \<subseteq>
      d_session_id ` set (db_tombstones (snd (ensure_deletion_compensation i now d sid rid)))"
    using intent.tombstones by metis
qed (auto simp: ensure_deletion_compensation_def Let_def intent.sessions intent.revisions intent.entries
      split: option.splits)

lemmas inv_frames = ensure.inv_frame jobs.inv_frame cancels.inv_frame wcancel.inv_frame
  intent.inv_frame addjob.inv_frame resolutions.inv_frame deliveries.inv_frame verifs.inv_frame
  summaries.inv_frame compensation.inv_frame compensated.inv_frame orphans.inv_frame

lemmas deletion_frames = ensure.deletion_frame jobs.deletion_frame cancels.deletion_frame
  wcancel.deletion_frame intent.deletion_frame addjob.deletion_frame resolutions.deletion_frame

subsection \<open>Writing a session row\<close>

lemma get_session_Some:
  "get_session d i = Some r \<Longrightarrow> r \<in> set (db_sessions d) \<and> s_id r = i"
  unfolding get_session_def by (rule sess.get_in)

lemma session_or_404_Inr: "session_or_404 d i = Inr r \<longleftrightarrow> get_session d i = Some r"
  by (auto simp: session_or_404_def split: option.splits)

lemma from_py_Inr [simp]: "from_py r = Inr x \<longleftrightarrow> r = Inr x"
  by (auto simp: from_py_def split: sum.splits py_error.splits)

lemma save_session_frame [simp]:
  "db_revisions (save_session now r d) = db_revisions d"
  "db_entries (save_session now r d) = db_entries d"
  "db_tombstones (save_session now r d) = db_tombstones d"
  "entries_of (save_session now r d) i q = entries_of d i q"
  "deletion_requested (save_session now r d) i = deletion_requested d i"
  by (simp_all add: save_session_def entries_of_def deletion_requested_def)

lemma complete_ok_save [simp]: "complete_ok (save_session now r d) s = complete_ok d s"
  by (simp add: complete_ok_def)

lemma save_session_ids [simp]: "s_id ` set (db_sessions (save_session now r d)) = s_id ` set (db_sessions d)"
  by (simp add: save_session_def sess.put_key_set)

lemma save_session_member:
  assumes "x \<in> set (db_sessions (save_session now r d))"
  shows "x \<in> set (db_sessions d) \<or> (s_id x = s_id r \<and> s_state x = s_state r \<and>
    s_current_transcript_revision_id x = s_current_transcript_revision_id r)"
  using assms sess.put_set [of x "db_sessions d" "r\<lparr>s_updated_at := now, s_version := Suc (s_version r)\<rparr>"]
  by (auto simp: save_session_def split: if_splits)

lemma complete_ok_cong:
  "s_id s = s_id t \<Longrightarrow> s_current_transcript_revision_id s = s_current_transcript_revision_id t \<Longrightarrow>
     complete_ok d s = complete_ok d t"
  by (simp add: complete_ok_def)

lemma inv_save_session:
  assumes inv: "db_inv d" and row: "get_session d (s_id r) = Some old"
    and cur: "s_current_transcript_revision_id r = s_current_transcript_revision_id old"
    and complete: "s_state r = S_COMPLETE \<Longrightarrow> s_state old = S_COMPLETE \<or> complete_ok d r"
    and deleting: "s_state r = S_DELETE_PENDING \<Longrightarrow>
      s_state old = S_DELETE_PENDING \<or> deletion_requested d (s_id r)"
  shows "db_inv (save_session now r d)"
proof -
  let ?d = "save_session now r d"
  have old: "old \<in> set (db_sessions d)" "s_id old = s_id r" using get_session_Some [OF row] by auto
  have member: "\<exists>y \<in> set (db_sessions d). s_id x = s_id y \<and>
      s_current_transcript_revision_id x = s_current_transcript_revision_id y"
    if "x \<in> set (db_sessions ?d)" for x
    using save_session_member [OF that] old cur by metis
  have "distinct (map s_id (db_sessions d))" using inv by (simp add: inv_defs)
  then have "distinct (map s_id (db_sessions ?d))"
    by (simp add: save_session_def sess.put_distinct)
  moreover have "current_ok ?d" "history_ok ?d"
    using inv member by (fastforce simp: inv_defs)+
  moreover have "states_ok ?d"
  proof -
    have "(s_state x = S_COMPLETE \<longrightarrow> complete_ok d x) \<and>
        (s_state x = S_DELETE_PENDING \<longrightarrow> deletion_requested d (s_id x))"
      if "x \<in> set (db_sessions ?d)" for x
      using save_session_member [OF that]
    proof
      assume "x \<in> set (db_sessions d)"
      with inv show ?thesis by (simp add: inv_defs)
    next
      assume x: "s_id x = s_id r \<and> s_state x = s_state r \<and>
        s_current_transcript_revision_id x = s_current_transcript_revision_id r"
      then have "complete_ok d x = complete_ok d r" "complete_ok d old = complete_ok d r"
        using old cur by (auto intro!: complete_ok_cong)
      with x complete deleting inv old show ?thesis by (auto simp: inv_defs)
    qed
    then show ?thesis by (simp add: states_ok_def)
  qed
  ultimately show ?thesis using inv by (simp add: inv_defs)
qed

subsection \<open>Changes of a session row that leave the ledger alone\<close>

definition benign :: "SessionRecord \<Rightarrow> SessionRecord \<Rightarrow> bool" where
  "benign r r' \<longleftrightarrow> s_id r' = s_id r \<and>
     s_current_transcript_revision_id r' = s_current_transcript_revision_id r \<and>
     (s_state r' = s_state r \<or> s_state r' \<notin> {S_COMPLETE, S_DELETE_PENDING})"

lemma benign_refl [simp, intro]: "benign r r"
  by (simp add: benign_def)

lemma benign_trans: "benign a b \<Longrightarrow> benign b c \<Longrightarrow> benign a c"
  by (auto simp: benign_def)

lemma transition_benign:
  "transition r t = Inr r' \<Longrightarrow> t \<notin> {S_COMPLETE, S_DELETE_PENDING} \<Longrightarrow> benign r r'"
  by (auto simp: transition_Inr_iff benign_def)

lemma benign_fields [simp]:
  "benign r (r'\<lparr>s_last_error := a\<rparr>) = benign r r'"
  "benign r (r'\<lparr>s_duration_ms := b\<rparr>) = benign r r'"
  "benign r (r'\<lparr>s_speakr_recording_id := c\<rparr>) = benign r r'"
  "benign r (r'\<lparr>s_transcription_submitted_at := q\<rparr>) = benign r r'"
  "benign r (clear_pending_operation r') = benign r r'"
  "benign r (begin_pending_operation op now r' k) = benign r r'"
  by (simp_all add: benign_def clear_pending_operation_def begin_pending_operation_def)

lemma inv_save_benign:
  assumes "db_inv d" "get_session d i = Some old" "benign old r"
  shows "db_inv (save_session now r d)"
proof -
  have "s_id r = i" using assms get_session_Some by (auto simp: benign_def)
  with assms show ?thesis
    by (intro inv_save_session [of d r old]) (auto simp: benign_def)
qed

lemma transaction_inv:
  assumes "db_inv d" and "\<And>x d'. r = Inr (x, d') \<Longrightarrow> db_inv d'"
  shows "db_inv (snd (transaction d r))"
  using assms by (auto simp: transaction_def split: sum.splits)

context core_frame
begin

lemma inv_save:
  assumes "db_inv d" "get_session d i = Some old" "benign old r"
  shows "db_inv (save_session now r (f d))"
  using inv_save_benign [OF inv_frame [OF assms(1)], of i old r now] assms by simp

end

subsection \<open>The API keeps the invariant\<close>

lemma inv_create_session:
  assumes "db_inv d" "fresh d i" shows "db_inv (snd (create_session i now d b))"
proof -
  have foreign: "e_session_id e \<noteq> i" if "e \<in> set (db_entries d)" for e
  proof -
    have "e_session_id e \<in> r_session_id ` set (db_revisions d)"
      using that assms(1) by (auto simp: db_inv_def entries_ok_def image_iff) metis
    then have "e_session_id e \<in> s_id ` set (db_sessions d)"
      using assms(1) by (auto simp: db_inv_def keys_ok_def)
    then show ?thesis using assms(2) by (auto simp: fresh_def)
  qed
  let ?d = "d\<lparr>db_sessions := db_sessions d @ [new_session i now b]\<rparr>"
  have "complete_ok ?d s = complete_ok d s" "deletion_requested ?d x = deletion_requested d x" for s x
    by (simp_all add: complete_ok_def entries_of_def deletion_requested_def)
  then have "states_ok ?d" using assms(1) by (simp add: db_inv_def states_ok_def)
  moreover have "keys_ok ?d" using assms by (auto simp: db_inv_def keys_ok_def fresh_def)
  moreover have "history_ok ?d" using assms(1) foreign by (simp add: db_inv_def history_ok_def)
  ultimately have "db_inv ?d"
    using assms(1) by (simp add: db_inv_def revisions_ok_def entries_ok_def current_ok_def)
  then show ?thesis by (simp add: create_session_def Let_def tbl_add_def)
qed

lemma prepare_state_benign: "prepare_state_for_job r t = Inr r' \<Longrightarrow> benign r r'"
  by (cases t) (auto simp: prepare_state_for_job_def Let_def intro: transition_benign split: if_splits)

lemma inv_create_job:
  assumes "db_inv d" shows "db_inv (snd (create_job st i now d sid t))"
  unfolding create_job_def
proof (rule transaction_inv [OF assms])
  fix x d'
  assume "rbind (session_or_404 d sid) (\<lambda>record.
       let (job, created, d1) = ensure_job i now d sid t (as_worker_max_attempts st)
       in if created
          then rbind (prepare_state_for_job record t) (\<lambda>r.
                 Inr (job_response job, save_session now r d1))
          else Inr (job_response job, d1)) = Inr (x, d')"
  then show "db_inv d'"
    using ensure.inv_frame [OF assms, of i now sid t "as_worker_max_attempts st"]
      ensure.inv_save [OF assms, of sid _ _ now i now sid t "as_worker_max_attempts st"]
    by (auto simp: session_or_404_Inr prepare_state_benign case_prod_beta Let_def split: if_splits)
qed

lemma inv_start_upload:
  assumes "db_inv d" shows "db_inv (snd (start_upload st i now d sid))"
  unfolding start_upload_def
  by (rule transaction_inv [OF assms])
    (use assms in \<open>auto simp: session_or_404_Inr Let_def ensure.inv_frame
      intro!: ensure.inv_save inv_save_benign transition_benign split: if_splits\<close>)

lemma inv_finish_upload:
  assumes "db_inv d" "get_session d (s_id r) = Some r"
  shows "db_inv (snd (finish_upload st sha sh disk stale i now d r filename chunks))"
proof -
  have failed: "benign r (r\<lparr>s_state := S_FAILED, s_last_error := x\<rparr>)" for x
    by (simp add: benign_def)
  show ?thesis using assms failed unfolding finish_upload_def
    by (auto simp: Let_def case_prod_beta ensure.inv_frame rbind_eq_Inl intro!: ensure.inv_save inv_save_benign
        simp: transition_Inr_iff benign_def split: sum.splits)
qed

lemma inv_cancel_job:
  assumes "db_inv d" shows "db_inv (snd (cancel_job now d jid))"
  unfolding cancel_job_def
  by (rule transaction_inv [OF assms])
    (use assms in \<open>auto simp: session_or_404_Inr Let_def jobs.inv_frame
      intro!: jobs.inv_save transition_benign split: if_splits\<close>)

lemma inv_retry_job:
  assumes "db_inv d" shows "db_inv (snd (retry_job i now d jid))"
  unfolding retry_job_def
  by (rule transaction_inv [OF assms])
    (use assms in \<open>auto simp: session_or_404_Inr Let_def
      intro!: addjob.inv_save intro: benign_trans transition_benign prepare_state_benign split: if_splits\<close>)

lemma inv_refresh:
  assumes "db_inv d" shows "db_inv (snd (refresh_from_speakr st i now d sid))"
  unfolding refresh_from_speakr_def
  by (rule transaction_inv [OF assms])
    (use assms in \<open>auto simp: session_or_404_Inr Let_def
      intro!: ensure.inv_save intro: benign_trans transition_benign split: if_splits\<close>)

lemma inv_cancel_session:
  assumes "db_inv d" shows "db_inv (snd (cancel_session now d sid))"
  unfolding cancel_session_def
  by (rule transaction_inv [OF assms])
    (use assms in \<open>auto simp: session_or_404_Inr Let_def
      intro!: cancels.inv_save transition_benign split: if_splits\<close>)

lemma resolution_effect_fields:
  assumes "resolution_effect ad now d r kind rb = Inr (remote, how, r1)"
  shows "benign r r1 \<and> s_id r1 = s_id r"
  using assms
  by (auto simp: resolution_effect_def benign_def split: resolution_outcome.splits if_splits)

lemma resolve_cases:
  assumes "resolve_upload_operation ad i now d who sid rb = (Inr x, d')"
  obtains r r1 p where "get_session d sid = Some r" "benign r r1" "s_id r1 = s_id r"
    "p_session_id p = sid" "p_operation_kind p = the (s_pending_operation_kind r)"
    "p_operation_id p = s_pending_operation_id r"
    "d' = save_session now (clear_pending_operation r1) (d\<lparr>db_resolutions := tbl_add (db_resolutions d) p\<rparr>)"
proof -
  from assms obtain r job remote how r1 where row: "get_session d sid = Some r"
    and r1: "resolution_effect ad now d r (the (s_pending_operation_kind r)) rb = Inr (remote, how, r1)"
    and d': "d' = save_session now (clear_pending_operation r1) (d\<lparr>db_resolutions := tbl_add (db_resolutions d)
        (resolution_row i now who r job rb remote how)\<rparr>)"
    by (auto simp: resolve_upload_operation_def transaction_eq session_or_404_Inr Let_def
        split: if_splits option.splits)
  show thesis
    by (rule that [OF row _ _ _ _ _ d'])
      (use resolution_effect_fields [OF r1] get_session_Some [OF row] in \<open>simp_all add: resolution_row_def\<close>)
qed

lemma resolve_refused:
  "resolve_upload_operation ad i now d who sid rb = (Inl e, d') \<Longrightarrow> d' = d"
  by (simp add: resolve_upload_operation_def transaction_eq)

lemma inv_resolve:
  assumes inv: "db_inv d" shows "db_inv (snd (resolve_upload_operation ad i now d who sid rb))"
proof (cases "resolve_upload_operation ad i now d who sid rb")
  case (Pair res d')
  show ?thesis
  proof (cases res)
    case (Inl e)
    with Pair resolve_refused inv show ?thesis by fastforce
  next
    case (Inr x)
    with Pair show ?thesis by (auto elim!: resolve_cases intro!: resolutions.inv_save [OF inv])
  qed
qed

lemma inv_core_eq:
  assumes "db_inv d" "db_sessions d' = db_sessions d" "db_revisions d' = db_revisions d"
    "db_entries d' = db_entries d"
    "d_session_id ` set (db_tombstones d) \<subseteq> d_session_id ` set (db_tombstones d')"
  shows "db_inv d'"
proof -
  have "deletion_requested d i \<Longrightarrow> deletion_requested d' i" for i
    using assms(5) by (auto simp: deletion_requested_def tomb.get_none)
  moreover have "complete_ok d' s = complete_ok d s" for s
    using assms(4) by (simp add: complete_ok_def entries_of_def)
  ultimately show ?thesis using assms(1-4) by (simp add: inv_defs)
qed

lemma session_unique:
  assumes "db_inv d" "get_session d i = Some s" "x \<in> set (db_sessions d)" "s_id x = i"
  shows "x = s"
  using assms sess.get_row [of "db_sessions d" x] by (auto simp: inv_defs get_session_def)

subsection \<open>Adding ledger entries\<close>

lemma inv_add_entry:
  assumes inv: "db_inv d" and row: "get_session d (e_session_id e) = Some s"
    and state: "s_state s \<noteq> S_COMPLETE"
    and cur: "s_current_transcript_revision_id s = Some (e_transcript_revision_id e)"
    and new: "e_id e \<notin> e_id ` set (db_entries d)"
    and rv: "rv \<in> set (db_revisions d)" "r_id rv = e_transcript_revision_id e"
      "r_session_id rv = e_session_id e" "grounded rv (e_evidence e) (e_exact_coach_feedback e)"
  shows "db_inv (d\<lparr>db_entries := db_entries d @ [e]\<rparr>)" (is "db_inv ?d")
proof -
  have only: "x = s" if "x \<in> set (db_sessions d)" "e_session_id e = s_id x" for x
    using session_unique [OF inv row that(1)] that(2) by simp
  have "complete_ok ?d x = complete_ok d x" if "x \<in> set (db_sessions d)" "s_state x = S_COMPLETE" for x
  proof -
    have "e_session_id e \<noteq> s_id x" using only [OF that(1)] that(2) state by auto
    then show ?thesis by (simp add: complete_ok_def entries_of_def)
  qed
  then have "states_ok ?d" using inv by (auto simp: inv_defs deletion_requested_def)
  moreover have "history_ok ?d" using inv only cur by (fastforce simp: inv_defs)
  moreover have "entries_ok ?d" using inv rv by (auto simp: inv_defs)
  moreover have "keys_ok ?d" using inv new by (auto simp: inv_defs)
  ultimately show ?thesis using inv by (simp add: inv_defs)
qed

lemma save_session_commute:
  "save_session now r (d\<lparr>db_entries := es\<rparr>) = (save_session now r d)\<lparr>db_entries := es\<rparr>"
  by (simp add: save_session_def get_session_def)

lemma get_session_save:
  assumes "db_inv d" "get_session d (s_id r) = Some old"
  shows "\<exists>s. get_session (save_session now r d) (s_id r) = Some s \<and> s_state s = s_state r \<and>
    s_current_transcript_revision_id s = s_current_transcript_revision_id r"
proof (cases "get_session d (s_id r) = Some r")
  case True
  then show ?thesis by (simp add: save_session_def)
next
  case False
  have k: "s_id r \<in> s_id ` set (db_sessions d)" using get_session_Some [OF assms(2)] by (metis image_eqI)
  let ?r = "r\<lparr>s_updated_at := now, s_version := Suc (s_version r)\<rparr>"
  have "tbl_get s_id (tbl_put s_id (db_sessions d) ?r) (s_id ?r) = Some ?r"
    by (rule sess.get_put_same) (use assms(1) k in \<open>simp_all add: inv_defs\<close>)
  with False show ?thesis by (simp add: save_session_def get_session_def)
qed

text \<open>One accepted entry, with the session row that is written in the same transaction.\<close>

lemma inv_create_entry:
  assumes inv: "db_inv (save_session now sess' d)" and d: "db_inv d0" "db_sessions d = db_sessions d0"
      "db_revisions d = db_revisions d0"
    and old: "get_session d0 (s_id sess') = Some old"
    and state: "s_state sess' \<noteq> S_COMPLETE"
    and entry: "valid_entry entry" "create_ledger_entry i now d sess' entry = Inr (row, d')"
    and new: "i \<notin> e_id ` set (db_entries d)"
  shows "db_inv (save_session now sess' d') \<and> db_sessions d' = db_sessions d \<and>
    db_revisions d' = db_revisions d \<and> db_entries d' = db_entries d @ [row] \<and> e_id row = i"
proof -
  have d': "d' = d\<lparr>db_entries := db_entries d @ [row]\<rparr>"
    and r: "row = entry_row i now (s_id sess') (the (s_current_transcript_revision_id sess')) entry"
    and v: "validate_evidence d sess' entry = Inr ()"
    using entry(2) by (auto simp: create_ledger_entry_def tbl_add_def Let_def)
  have revs: "list_all revision_ok (db_revisions d)" using d by (simp add: inv_defs)
  from v obtain rv where rv: "s_current_transcript_revision_id sess' = Some (r_id rv)"
    "get_revision d (r_id rv) = Some rv" "r_session_id rv = s_id sess'"
    "grounded rv (le_evidence entry) (le_exact_coach_feedback entry)"
    unfolding validate_evidence_grounded [OF entry(1) revs] by blast
  have in_revs: "rv \<in> set (db_revisions d)" using rv(2) rev.get_in by (auto simp: get_revision_def)
  obtain s where s: "get_session (save_session now sess' d) (s_id sess') = Some s"
    "s_state s = s_state sess'"
    "s_current_transcript_revision_id s = s_current_transcript_revision_id sess'"
  proof -
    have "get_session d (s_id sess') = Some old" "distinct (map s_id (db_sessions d))"
      using old d by (simp_all add: get_session_def inv_defs)
    moreover have "db_sessions (save_session now sess' d) = db_sessions (save_session now sess' d0)"
      using d(2) by (simp add: save_session_def get_session_def)
    ultimately show thesis
      using that get_session_save [OF d(1) old, of now] by (auto simp: get_session_def)
  qed
  have "db_inv ((save_session now sess' d)\<lparr>db_entries := db_entries (save_session now sess' d) @ [row]\<rparr>)"
    by (rule inv_add_entry [OF inv, of row s rv])
      (use s rv in_revs state new in \<open>simp_all add: r entry_row_def\<close>)
  then show ?thesis unfolding d' save_session_commute by (simp add: r entry_row_def)
qed

lemma evidence_error_Inr: "evidence_error r = Inr x \<longleftrightarrow> r = Inr x"
  by (auto simp: evidence_error_def split: sum.splits py_error.splits)

lemma create_ledger_entry_cong:
  assumes "s_id a = s_id b" "s_duration_ms a = s_duration_ms b"
    "s_current_transcript_revision_id a = s_current_transcript_revision_id b"
  shows "create_ledger_entry i now d a entry = create_ledger_entry i now d b entry"
proof -
  have ref: "check_reference d a = check_reference d b"
    by (rule ext) (simp only: check_reference_def assms)
  show ?thesis by (simp only: create_ledger_entry_def validate_evidence_def assms ref)
qed

lemma inv_add_ledger_entry:
  assumes inv: "db_inv d" "fresh d i" "valid_entry body"
  shows "db_inv (snd (add_ledger_entry i now d sid body))"
  unfolding add_ledger_entry_def
proof (rule transaction_inv [OF inv(1)])
  fix x d'
  assume "rbind (session_or_404 d sid) (\<lambda>sess.
       if s_state sess \<notin> {S_TRANSCRIPT_READY, S_AWAITING_REVIEW, S_COMPLETE}
       then Inl (Http 409 ''ledger_not_allowed'')
       else rbind (evidence_error (create_ledger_entry i now d sess body)) (\<lambda>(row, d1).
            rbind (reopen_review sess) (\<lambda>sess'.
              Inr (ledger_response row, save_session now sess' d1)))) = Inr (x, d')"
  then obtain sess row d1 sess' where sess: "get_session d sid = Some sess"
    and ok: "s_state sess \<in> {S_TRANSCRIPT_READY, S_AWAITING_REVIEW, S_COMPLETE}"
    and c: "create_ledger_entry i now d sess body = Inr (row, d1)"
    and again: "reopen_review sess = Inr sess'" and d': "d' = save_session now sess' d1"
    by (auto simp: session_or_404_Inr evidence_error_Inr split: if_splits)
  have sess': "s_state sess' = S_AWAITING_REVIEW" "s_id sess' = s_id sess"
      "s_current_transcript_revision_id sess' = s_current_transcript_revision_id sess"
      "s_duration_ms sess' = s_duration_ms sess"
    using again ok by (auto simp: reopen_review_def transition_Inr_iff split: if_splits)
  have id: "s_id sess = sid" using get_session_Some [OF sess] by simp
  have "create_ledger_entry i now d sess' body = Inr (row, d1)"
    using c create_ledger_entry_cong [of sess' sess] sess' by simp
  moreover have "db_inv (save_session now sess' d)"
    by (rule inv_save_benign [OF inv(1) sess]) (simp add: sess' benign_def)
  ultimately show "db_inv d'" unfolding d'
    using inv_create_entry [of now sess' d d sess body i row d1] inv sess id
    by (simp add: sess' fresh_def)
qed

subsection \<open>Verification\<close>

definition same_evidence :: "LedgerEntryRecord \<Rightarrow> LedgerEntryRecord \<Rightarrow> bool" where
  "same_evidence x y \<longleftrightarrow> e_id y = e_id x \<and> e_session_id y = e_session_id x \<and>
     e_transcript_revision_id y = e_transcript_revision_id x \<and> e_evidence y = e_evidence x \<and>
     e_exact_coach_feedback y = e_exact_coach_feedback x"

lemma entries_of_map:
  assumes "\<And>x. x \<in> set (db_entries d) \<Longrightarrow> same_evidence x (g x)"
  shows "entries_of (d\<lparr>db_entries := map g (db_entries d)\<rparr>) sid rid = map g (entries_of d sid rid)"
proof -
  have "filter (P \<circ> g) (db_entries d) = filter P (db_entries d)"
    if "P = (\<lambda>e. e_session_id e = sid \<and> Some (e_transcript_revision_id e) = rid)" for P
    using assms by (auto simp: that same_evidence_def cong: filter_cong)
  then show ?thesis by (simp add: entries_of_def filter_map)
qed

lemma inv_map_entries:
  assumes inv: "db_inv d"
    and same: "\<And>x. x \<in> set (db_entries d) \<Longrightarrow> same_evidence x (g x)"
    and status: "\<And>x. x \<in> set (db_entries d) \<Longrightarrow> e_verification_status (g x) = e_verification_status x \<or>
      reviewed (e_verification_status (g x)) \<and>
      (\<forall>s \<in> set (db_sessions d). s_id s = e_session_id x \<longrightarrow>
         s_current_transcript_revision_id s = Some (e_transcript_revision_id x))"
  shows "db_inv (d\<lparr>db_entries := map g (db_entries d)\<rparr>)" (is "db_inv ?d")
proof -
  have "map e_id (map g (db_entries d)) = map e_id (db_entries d)"
    using same by (simp add: same_evidence_def)
  then have "distinct (map e_id (map g (db_entries d)))"
    using inv by (metis db_inv_def keys_ok_def)
  then have "keys_ok ?d" using inv by (simp add: inv_defs)
  moreover have "entries_ok ?d"
    using inv same by (fastforce simp: inv_defs same_evidence_def)
  moreover have "history_ok ?d"
    unfolding history_ok_def
  proof (intro ballI impI)
    fix s e'
    assume s: "s \<in> set (db_sessions ?d)" and e': "e' \<in> set (db_entries ?d)"
      and h: "e_session_id e' = s_id s \<and> s_current_transcript_revision_id s \<noteq> Some (e_transcript_revision_id e')"
    from e' obtain e where e: "e \<in> set (db_entries d)" "e' = g e" by auto
    with h same have old: "e_session_id e = s_id s"
      "s_current_transcript_revision_id s \<noteq> Some (e_transcript_revision_id e)"
      by (auto simp: same_evidence_def)
    with s e inv have "e_verification_status e = V_NEEDS_REVIEW" by (simp add: inv_defs)
    with status [OF e(1)] old s e show "e_verification_status e' = V_NEEDS_REVIEW" by auto
  qed
  moreover have "states_ok ?d"
  proof -
    have "complete_ok ?d s" if "complete_ok d s" for s
    proof -
      have "reviewed (e_verification_status (g x))"
        if "x \<in> set (entries_of d (s_id s) (s_current_transcript_revision_id s))" for x
        using that \<open>complete_ok d s\<close> status [of x] by (auto simp: complete_ok_def entries_of_def)
      with that show ?thesis by (auto simp: complete_ok_def entries_of_map [OF same])
    qed
    then show ?thesis using inv by (auto simp: inv_defs deletion_requested_def)
  qed
  ultimately show ?thesis using inv by (simp add: inv_defs)
qed

lemma save_entry_map:
  assumes "distinct (map e_id (db_entries d))" "get_entry d (e_id e) = Some old"
  shows "\<exists>t. save_entry now e d =
    d\<lparr>db_entries := map (\<lambda>x. if e_id x = e_id e then e\<lparr>e_updated_at := t\<rparr> else x) (db_entries d)\<rparr>"
proof (cases "get_entry d (e_id e) = Some e")
  case True
  have "x = e" if "x \<in> set (db_entries d)" "e_id x = e_id e" for x
    using ent.get_row [OF assms(1) that(1)] True that(2) by (simp add: get_entry_def)
  then have "map (\<lambda>x. if e_id x = e_id e then e\<lparr>e_updated_at := e_updated_at e\<rparr> else x) (db_entries d) =
      db_entries d" by (intro map_idI) auto
  then show ?thesis using True by (intro exI [of _ "e_updated_at e"]) (simp add: save_entry_def)
next
  case False
  then show ?thesis by (auto simp: save_entry_def tbl_put_def)
qed

lemma after_review_cases:
  assumes "after_review d sess = Inr sess'"
  shows "benign sess sess' \<or> s_id sess' = s_id sess \<and>
    s_current_transcript_revision_id sess' = s_current_transcript_revision_id sess \<and>
    s_state sess' = S_COMPLETE \<and> complete_ok d sess'"
proof (cases "s_state sess' = S_COMPLETE \<and> s_state sess \<noteq> S_COMPLETE")
  case True
  with assms have st: "statuses_of d (s_id sess) (s_current_transcript_revision_id sess) \<noteq> {}"
    "statuses_of d (s_id sess) (s_current_transcript_revision_id sess) \<subseteq> {V_VERIFIED, V_REJECTED}"
    and sess': "sess' = sess\<lparr>s_state := S_COMPLETE\<rparr>"
    by (auto simp: after_review_def Let_def transition_Inr_iff split: if_splits)
  then have "complete_ok d sess'"
    by (auto simp: complete_ok_def statuses_of_def reviewed_def)
  with sess' show ?thesis by simp
next
  case False
  with assms show ?thesis
    by (auto simp: after_review_def Let_def transition_Inr_iff benign_def split: if_splits)
qed

text \<open>Recording a review decision on an entry of the current revision.\<close>

lemma inv_reviewed_entry:
  assumes inv: "db_inv d" and entry: "get_entry d eid = Some entry"
    and sess: "get_session d (e_session_id entry) = Some sess"
    and cur: "s_current_transcript_revision_id sess = Some (e_transcript_revision_id entry)"
    and e': "same_evidence entry e'" "reviewed (e_verification_status e')"
  shows "db_inv (save_entry now e' d)"
proof -
  have keys: "distinct (map e_id (db_entries d))" using inv by (simp add: inv_defs)
  have id: "e_id entry = eid" "e_id e' = eid" "entry \<in> set (db_entries d)"
    using ent.get_in [of "db_entries d" eid entry] entry e'(1)
    by (auto simp: get_entry_def same_evidence_def)
  have "get_entry d (e_id e') = Some entry" using entry id by simp
  from save_entry_map [OF keys this, of now] obtain t where
    t: "save_entry now e' d = d\<lparr>db_entries :=
       map (\<lambda>x. if e_id x = e_id e' then e'\<lparr>e_updated_at := t\<rparr> else x) (db_entries d)\<rparr>" by blast
  have only: "x = entry" if "x \<in> set (db_entries d)" "e_id x = eid" for x
    using ent.get_row [OF keys that(1)] entry that(2) by (simp add: get_entry_def)
  show ?thesis unfolding t
  proof (rule inv_map_entries [OF inv])
    fix x assume x: "x \<in> set (db_entries d)"
    show "same_evidence x (if e_id x = e_id e' then e'\<lparr>e_updated_at := t\<rparr> else x)"
      using only [OF x] e'(1) id by (auto simp: same_evidence_def)
    have "\<forall>s \<in> set (db_sessions d). s_id s = e_session_id entry \<longrightarrow>
        s_current_transcript_revision_id s = Some (e_transcript_revision_id entry)"
      using session_unique [OF inv sess] cur by blast
    then show "e_verification_status (if e_id x = e_id e' then e'\<lparr>e_updated_at := t\<rparr> else x) =
        e_verification_status x \<or>
      reviewed (e_verification_status (if e_id x = e_id e' then e'\<lparr>e_updated_at := t\<rparr> else x)) \<and>
      (\<forall>s \<in> set (db_sessions d). s_id s = e_session_id x \<longrightarrow>
         s_current_transcript_revision_id s = Some (e_transcript_revision_id x))"
      using only [OF x] e'(2) id by auto
  qed
qed

lemma save_entry_get_session [simp]: "get_session (save_entry now e d) i = get_session d i"
  by (simp add: save_entry_def get_session_def)

lemma inv_verify:
  assumes inv: "db_inv d" and body: "valid_verification body"
  shows "db_inv (snd (verify_ledger_entry i now d who eid body))"
  unfolding verify_ledger_entry_def
proof (rule transaction_inv [OF inv], goal_cases)
  case (1 x d')
  then obtain entry sess sess' log e' where entry: "get_entry d eid = Some entry"
    and sess: "get_session d (e_session_id entry) = Some sess"
    and cur: "s_current_transcript_revision_id sess = Some (e_transcript_revision_id entry)"
    and e': "e' = entry\<lparr>e_verification_status := vr_status body, e_verified_by := Some who,
        e_verified_at := Some now\<rparr>"
    and next': "after_review (save_entry now e'
        (d\<lparr>db_verifications := tbl_add (db_verifications d) log\<rparr>)) sess = Inr sess'"
    and d': "d' = save_session now sess' (save_entry now e'
        (d\<lparr>db_verifications := tbl_add (db_verifications d) log\<rparr>))"
    by (auto simp: session_or_404_Inr Let_def split: option.splits if_splits)
  let ?d0 = "d\<lparr>db_verifications := tbl_add (db_verifications d) log\<rparr>"
  let ?d1 = "save_entry now e' ?d0"
  have d0: "db_inv ?d0" by (rule verifs.inv_frame [OF inv])
  have d1: "db_inv ?d1"
    by (rule inv_reviewed_entry [OF d0, of eid entry sess])
      (use entry sess cur valid_verification_reviewed [OF body] in
        \<open>simp_all add: e' same_evidence_def get_entry_def get_session_def\<close>)
  have row: "get_session ?d1 (e_session_id entry) = Some sess"
    using sess by (simp add: save_entry_def get_session_def)
  have id: "s_id sess = e_session_id entry" using get_session_Some [OF sess] by simp
  from after_review_cases [OF next'] show "db_inv d'" unfolding d'
  proof
    assume "benign sess sess'"
    then show "db_inv (save_session now sess' ?d1)" by (rule inv_save_benign [OF d1 row])
  next
    assume "s_id sess' = s_id sess \<and>
      s_current_transcript_revision_id sess' = s_current_transcript_revision_id sess \<and>
      s_state sess' = S_COMPLETE \<and> complete_ok ?d1 sess'"
    then show "db_inv (save_session now sess' ?d1)"
      by (intro inv_save_session [OF d1, of sess' sess]) (use row id in auto)
  qed
qed

subsection \<open>Deletion and webhooks\<close>

lemma inv_request_deletion:
  assumes inv: "db_inv d" shows "db_inv (snd (request_deletion now d sid))"
  unfolding request_deletion_def
proof (rule transaction_inv [OF inv], goal_cases)
  case (1 x d')
  then obtain rec r where row: "get_session d sid = Some rec"
    and r: "r = rec\<lparr>s_state := S_DELETE_PENDING\<rparr>"
    and d': "d' = save_session now r (cancel_active_jobs now sid {J_QUEUED} (record_deletion_intent now d sid))"
    by (auto simp: session_or_404_Inr Let_def transition_Inr_iff)
  let ?d1 = "cancel_active_jobs now sid {J_QUEUED} (record_deletion_intent now d sid)"
  have d1: "db_inv ?d1" by (intro cancels.inv_frame intent.inv_frame inv)
  have id: "s_id rec = sid" using get_session_Some [OF row] by simp
  have "deletion_requested ?d1 sid" by (intro cancels.deletion_frame intent_requested)
  with row id show "db_inv d'" unfolding d'
    by (intro inv_save_session [OF d1, of r rec]) (auto simp: r)
qed

lemma entry_revision_session:
  assumes inv: "db_inv d" and "e \<in> set (db_entries d)" "rv \<in> set (db_revisions d)"
    "r_id rv = e_transcript_revision_id e"
  shows "r_session_id rv = e_session_id e"
proof -
  from assms obtain rv' where rv': "rv' \<in> set (db_revisions d)" "r_id rv' = e_transcript_revision_id e"
    "r_session_id rv' = e_session_id e" by (auto simp: inv_defs)
  have keys: "distinct (map r_id (db_revisions d))" using inv by (simp add: inv_defs)
  have "rv' = rv"
    using rev.get_row [OF keys rv'(1)] rev.get_row [OF keys assms(3)] rv'(2) assms(4) by simp
  with rv'(3) show ?thesis by simp
qed

lemma inv_delete_session:
  assumes inv: "db_inv d" shows "db_inv (delete_session i d)"
proof -
  let ?d = "delete_session i d"
  have ss: "set (db_sessions ?d) = {s \<in> set (db_sessions d). s_id s \<noteq> i}"
    by (simp add: delete_session_def Let_def sess.remove_set)
  have rs: "set (db_revisions ?d) = {r \<in> set (db_revisions d). r_session_id r \<noteq> i}"
    by (auto simp: delete_session_def Let_def)
  have es: "set (db_entries ?d) = {e \<in> set (db_entries d). e_session_id e \<noteq> i}"
    using entry_revision_session [OF inv] by (auto simp: delete_session_def Let_def)
  have "entries_ok ?d" unfolding entries_ok_def es rs
  proof
    fix e assume e: "e \<in> {e \<in> set (db_entries d). e_session_id e \<noteq> i}"
    then obtain rv where "rv \<in> set (db_revisions d)" "r_id rv = e_transcript_revision_id e"
      "r_session_id rv = e_session_id e" "grounded rv (e_evidence e) (e_exact_coach_feedback e)"
      using inv by (auto simp: inv_defs)
    with e show "\<exists>rv \<in> {r \<in> set (db_revisions d). r_session_id r \<noteq> i}.
        r_id rv = e_transcript_revision_id e \<and> r_session_id rv = e_session_id e \<and>
        grounded rv (e_evidence e) (e_exact_coach_feedback e)" by auto
  qed
  moreover have "keys_ok ?d"
    using inv ss rs by (auto simp: inv_defs delete_session_def Let_def distinct_map_filter sess.remove_distinct)
  moreover have "revisions_ok ?d" using inv rs by (auto simp: inv_defs list_all_iff)
  moreover have "current_ok ?d" using inv unfolding inv_defs ss rs by fastforce
  moreover have "history_ok ?d" using inv es ss by (auto simp: db_inv_def history_ok_def)
  moreover have "states_ok ?d"
  proof -
    have "complete_ok ?d s" if "complete_ok d s" "s \<in> set (db_sessions ?d)" for s
    proof -
      have "entries_of ?d (s_id s) (s_current_transcript_revision_id s) =
          entries_of d (s_id s) (s_current_transcript_revision_id s)"
        unfolding entries_of_def delete_session_def Let_def
        by (auto intro!: filter_cong simp: filter_filter)
          (use ss that(2) entry_revision_session [OF inv] in auto)
      with that show ?thesis by (simp add: complete_ok_def)
    qed
    then show ?thesis using inv ss by (auto simp: inv_defs deletion_requested_def delete_session_def Let_def)
  qed
  ultimately show ?thesis by (simp add: db_inv_def)
qed

lemma inv_confirm_deletion:
  assumes inv: "db_inv d" shows "db_inv (snd (snd (confirm_deletion st del now d sid c)))"
proof -
  have d1: "db_inv (record_deletion_intent now d sid)" by (rule intent.inv_frame [OF inv])
  show ?thesis
    by (auto simp: confirm_deletion_def Let_def inv d1 inv_delete_session
        intro!: intent.inv_save [OF inv] split: option.splits sum.splits)
qed

lemma webhook_session:
  assumes "db_inv d" "find P (db_sessions d) = Some r"
  shows "get_session d (s_id r) = Some r"
  using assms find_SomeD [OF assms(2)] sess.get_row [of "db_sessions d" r]
  by (simp add: get_session_def inv_defs)

lemma inv_webhook:
  assumes inv: "db_inv d" shows "db_inv (snd (receive_speakr_webhook lib st i now d req))"
proof -
  have completed: "db_inv (save_session now (r\<lparr>s_duration_ms := y\<rparr>)
      (snd (snd (ensure_job i now d sid T_RECONCILE m))))" if "get_session d (s_id r) = Some r" for r y sid m
    by (rule ensure.inv_save [OF inv that]) simp
  have event: "db_inv d'" if "apply_webhook_event lib st i now d payload = Inr (x, d')" for payload x d'
    using that inv unfolding apply_webhook_event_def
    by (auto simp: Let_def completed intro: ensure.inv_save cancels.inv_save inv_save_benign transition_benign
          benign_fields [THEN iffD2]
        split: json.splits option.splits if_splits dest!: webhook_session [OF inv])
  show ?thesis unfolding receive_speakr_webhook_def
    by (rule transaction_inv [OF inv])
      (auto simp: Let_def inv intro!: deliveries.inv_frame dest: event split: option.splits json.splits if_splits)
qed

end
