(* ===== verification/Worker_Safety.thy ===== *)
theory Worker_Safety
  imports System
begin

text \<open>
  The worker's transactions keep the invariant of the store: failing, requeuing and recovering
  jobs, adopting a new transcript revision (which reopens the review of the one it replaces)
  and storing the entries of an extraction.
\<close>

subsection \<open>The worker keeps the invariant\<close>

lemma live_Some:
  assumes "live d jid sid = Some (job, sess)"
  shows "get_session d sid = Some sess \<and> get_job d jid = Some job \<and> j_status job = J_RUNNING \<and>
    \<not> halted_state (s_state sess) \<and> \<not> deletion_requested d sid \<and> s_id sess = sid"
  using assms get_session_Some [of d sid sess]
  by (auto simp: live_def split: option.splits if_splits)

lemma inv_touch_lease: "touch_lease now d jid sid = Some d' \<Longrightarrow> db_inv d \<Longrightarrow> db_inv d'"
  by (auto simp: touch_lease_def jobs.inv_frame split: option.splits)

lemma inv_set_jobs: "db_inv d \<Longrightarrow> db_inv (d\<lparr>db_jobs := js\<rparr>)"
  by (rule addjob.inv_frame [where f = "\<lambda>_. js"])

lemma inv_heartbeat: "db_inv d \<Longrightarrow> db_inv (snd (renew_job_lease now d jid))"
  by (simp add: renew_job_lease_def Let_def inv_set_jobs)

lemma inv_stale_fallback: "db_inv d \<Longrightarrow> db_inv (resolve_stale_fallback st now d jid sid)"
  by (simp add: resolve_stale_fallback_def Let_def inv_set_jobs)

lemma inv_claim: "db_inv d \<Longrightarrow> db_inv (snd (claim_job now d))"
  by (auto simp: claim_job_def Let_def jobs.inv_frame split: list.splits)

lemma inv_complete: "db_inv d \<Longrightarrow> db_inv (complete_job now d jid sid)"
  by (auto simp: complete_job_def wcancel.inv_frame split: option.splits
      intro!: jobs.inv_save dest!: live_Some)

lemma inv_requeue: "db_inv d \<Longrightarrow> db_inv (requeue_pending st now d jid sid c m)"
  by (auto simp: requeue_pending_def wcancel.inv_frame jobs.inv_frame split: option.splits)

lemma failure_states_benign:
  "await_retry sess = Inr r \<Longrightarrow> benign sess r" "give_up sess = Inr r \<Longrightarrow> benign sess r"
  "halt_transcription sess = Inr r \<Longrightarrow> benign sess r"
  by (auto simp: await_retry_def give_up_def halt_transcription_def intro: transition_benign split: if_splits)

lemma inv_job_and_session:
  assumes "db_inv d" "get_session d sid = Some sess" "benign sess r"
  shows "db_inv (save_session now r (save_job now j d))"
    "db_inv (save_session now (r\<lparr>s_last_error := x\<rparr>) (save_job now j d))"
  using jobs.inv_save [OF assms(1,2)] assms(3) by simp_all

lemma inv_fail_job:
  assumes "db_inv d" "fail_job st now d jid sid c m = Inr d'" shows "db_inv d'"
proof (cases "live d jid sid")
  case None
  with assms show ?thesis by (auto simp: fail_job_def wcancel.inv_frame)
next
  case (Some js)
  obtain job sess where js: "js = (job, sess)" by force
  note row = conjunct1 [OF live_Some [OF Some [unfolded js]]]
  show ?thesis
    using assms Some js
    by (auto simp: fail_job_def Let_def split: if_splits
        dest!: failure_states_benign dest: inv_job_and_session [OF assms(1) row])
qed

lemma inv_mark_ambiguous:
  assumes "db_inv d" "get_session d sid = Some sess" "mark_ambiguous now m a job sess d = Inr d'"
  shows "db_inv d'"
  using assms(3)
  by (auto simp: mark_ambiguous_def Let_def
      dest!: failure_states_benign dest: inv_job_and_session [OF assms(1,2)])

lemma inv_recover_one:
  assumes "db_inv d" "recover_one_abandoned_job st now m d jid cutoff = Inr (b, d')" shows "db_inv d'"
  using assms
  by (auto simp: recover_one_abandoned_job_def Let_def is_ambiguous_def jobs.inv_frame
      dest: inv_mark_ambiguous [OF assms(1)] split: option.splits if_splits)

lemma inv_resolve_stale:
  assumes "db_inv d" "resolve_stale_processing st now m d jid sid = Inr d'" shows "db_inv d'"
proof (cases "get_session d sid")
  case None
  with assms show ?thesis
    by (auto simp: resolve_stale_processing_def jobs.inv_frame split: option.splits if_splits)
next
  case (Some sess)
  show ?thesis using assms Some
    by (auto simp: resolve_stale_processing_def jobs.inv_frame split: option.splits if_splits
        dest!: failure_states_benign
        dest: inv_mark_ambiguous [OF assms(1) Some] inv_job_and_session [OF assms(1) Some])
qed

lemma inv_scheduled: "db_inv d \<Longrightarrow> db_inv (snd (enqueue_scheduled_reconciliation st ids now d))"
proof -
  have "db_inv d \<Longrightarrow> db_inv (snd (fold (\<lambda>(i, r) (n, d).
         let (_, created, d') = ensure_job (ids i) now d (s_id r) T_RECONCILE (ws_max_attempts st)
         in (if created then Suc n else n, d')) xs (n, d)))" for xs n d
    by (induction xs arbitrary: n d) (auto simp: case_prod_beta Let_def ensure.inv_frame)
  then show "db_inv d \<Longrightarrow> ?thesis" by (simp add: enqueue_scheduled_reconciliation_def)
qed

lemma inv_begin_compensation: "db_inv d \<Longrightarrow> db_inv (snd (begin_compensation d cid))"
  by (auto simp: begin_compensation_def Let_def compensation.inv_frame split: option.splits)

lemma inv_finish_compensation: "db_inv d \<Longrightarrow> db_inv (finish_compensation st now d c ans)"
  by (auto simp: finish_compensation_def compensation.inv_frame compensated.inv_frame
      split: option.splits sum.splits)

lemma reconcile_revision_ok:
  assumes "normalize_speakr_segments repr raw = Inr segs"
  shows "list_all valid_segment segs \<and> distinct (map ts_segment_id segs)"
  using assms normalize_from_spec [of repr 0 "[]" raw segs]
  by (auto simp: normalize_speakr_segments_def split: if_splits)

text \<open>A stored transcript seen again: the session completes only on its current revision, because
  entries of any other are waiting for review.\<close>

lemma inv_resume_existing:
  assumes inv: "db_inv d" and row: "get_session d sid = Some sess"
    and rv: "rv \<in> set (db_revisions d)"
    and res: "resume_existing d (sess\<lparr>s_last_reconciled_at := Some now\<rparr>) rv = Inr sess'"
  shows "db_inv (save_session now sess' d)"
proof -
  have id: "s_id sess = sid" "sess \<in> set (db_sessions d)" using get_session_Some [OF row] by auto
  show ?thesis
  proof (cases "s_state sess' = S_COMPLETE \<and> s_state sess \<noteq> S_COMPLETE")
    case False
    then have "benign sess sess'"
      using res by (auto simp: resume_existing_def Let_def transition_Inr_iff benign_def split: if_splits)
    then show ?thesis by (rule inv_save_benign [OF inv row])
  next
    case True
    then have st: "statuses_of d sid (Some (r_id rv)) \<noteq> {}"
      "statuses_of d sid (Some (r_id rv)) \<subseteq> {V_VERIFIED, V_REJECTED}"
      and sess': "s_id sess' = sid" "s_state sess' = S_COMPLETE"
        "s_current_transcript_revision_id sess' = s_current_transcript_revision_id sess"
      using res id by (auto simp: resume_existing_def Let_def transition_Inr_iff split: if_splits)
    have "s_current_transcript_revision_id sess = Some (r_id rv)"
    proof (rule ccontr)
      assume other: "\<not> ?thesis"
      from st(1) obtain e where e: "e \<in> set (db_entries d)" "e_session_id e = sid"
        "e_transcript_revision_id e = r_id rv" by (auto simp: statuses_of_def entries_of_def)
      then have "e_verification_status e = V_NEEDS_REVIEW"
        using inv id other by (auto simp: db_inv_def history_ok_def)
      moreover have "e_verification_status e \<in> statuses_of d sid (Some (r_id rv))"
        using e by (auto simp: statuses_of_def entries_of_def)
      ultimately show False using st(2) by auto
    qed
    then have "complete_ok d sess'"
      using st sess' by (auto simp: complete_ok_def statuses_of_def reviewed_def)
    then show ?thesis
      by (intro inv_save_session [OF inv, of sess' sess]) (use row sess' in auto)
  qed
qed

lemma save_session_mine:
  assumes "distinct (map s_id (db_sessions d))" "x \<in> set (db_sessions (save_session now r d))"
    "s_id x = s_id r"
  shows "s_state x = s_state r \<and>
    s_current_transcript_revision_id x = s_current_transcript_revision_id r"
proof (cases "get_session d (s_id r) = Some r")
  case True
  then have "x \<in> set (db_sessions d)" using assms(2) by (simp add: save_session_def)
  from sess.get_row [OF assms(1) this] have "get_session d (s_id r) = Some x"
    unfolding get_session_def assms(3) .
  with True show ?thesis by simp
next
  case False
  with assms sess.put_set [of x "db_sessions d" "r\<lparr>s_updated_at := now, s_version := Suc (s_version r)\<rparr>"]
  show ?thesis by (auto simp: save_session_def)
qed

text \<open>A new transcript: the old entries go back to review, the session follows the new revision.\<close>

lemma inv_adopt_revision:
  assumes inv: "db_inv d" and row: "get_session d sid = Some sess"
    and new: "r_id rv \<notin> r_id ` set (db_revisions d)" "r_session_id rv = sid" "revision_ok rv"
    and es: "db_entries d' = map g (db_entries d)" "db_revisions d' = db_revisions d @ [rv]"
      "db_sessions d' = db_sessions d" "db_tombstones d' = db_tombstones d"
    and g: "\<And>e. e \<in> set (db_entries d) \<Longrightarrow> same_evidence e (g e) \<and>
      (if e_session_id e = sid \<and> Some (e_transcript_revision_id e) = s_current_transcript_revision_id sess
       then e_verification_status (g e) = V_NEEDS_REVIEW else g e = e)"
    and sess': "s_id sess' = sid" "s_current_transcript_revision_id sess' = Some (r_id rv)"
      "s_state sess' \<noteq> S_COMPLETE" "s_state sess' = S_DELETE_PENDING \<Longrightarrow> s_state sess = S_DELETE_PENDING"
  shows "db_inv (save_session now sess' d')" (is "db_inv ?d")
proof -
  have sid: "s_id sess = sid" "sess \<in> set (db_sessions d)" using get_session_Some [OF row] by auto
  have same: "same_evidence e (g e)" if "e \<in> set (db_entries d)" for e using g [OF that] by simp
  have other: "x \<in> set (db_sessions d)" if "x \<in> set (db_sessions ?d)" "s_id x \<noteq> sid" for x
    using save_session_member [OF that(1)] that(2) sess'(1) es(3) by auto
  have mine: "s_current_transcript_revision_id x = Some (r_id rv) \<and> s_state x = s_state sess'"
    if "x \<in> set (db_sessions ?d)" "s_id x = sid" for x
    using save_session_mine [of d' x now sess'] that sess'(1,2) es(3) inv by (simp add: inv_defs)
  have unchanged: "g e = e" if "e \<in> set (db_entries d)" "e_session_id e \<noteq> sid" for e
    using g [OF that(1)] that(2) by simp
  have "map e_id (map g (db_entries d)) = map e_id (db_entries d)"
    using same by (simp add: same_evidence_def)
  then have "distinct (map e_id (db_entries ?d))" using inv es(1) by (metis db_inv_def keys_ok_def save_session_frame(2))
  moreover have "distinct (map s_id (db_sessions ?d))"
    using inv es(3) by (simp add: save_session_def sess.put_distinct inv_defs)
  moreover have "distinct (map r_id (db_revisions ?d))" using inv new(1) es(2) by (simp add: inv_defs)
  moreover have "r_session_id ` set (db_revisions ?d) \<subseteq> s_id ` set (db_sessions ?d)"
  proof -
    have "sid \<in> s_id ` set (db_sessions d)" using sid by (metis image_eqI)
    then show ?thesis using inv es(2,3) new(2) by (auto simp: db_inv_def keys_ok_def)
  qed
  ultimately have "keys_ok ?d" by (simp add: keys_ok_def)
  moreover have "revisions_ok ?d" using inv new(3) es(2) by (simp add: inv_defs)
  moreover have "entries_ok ?d"
  proof -
    have "\<exists>rv \<in> set (db_revisions ?d). r_id rv = e_transcript_revision_id (g e) \<and>
        r_session_id rv = e_session_id (g e) \<and> grounded rv (e_evidence (g e)) (e_exact_coach_feedback (g e))"
      if "e \<in> set (db_entries d)" for e
      using inv that same [OF that] es(2) by (auto simp: db_inv_def entries_ok_def same_evidence_def)
    then show ?thesis using es(1) by (simp add: entries_ok_def)
  qed
  moreover have "current_ok ?d"
    unfolding current_ok_def
  proof (intro ballI allI impI)
    fix x rid assume x: "x \<in> set (db_sessions ?d)" "s_current_transcript_revision_id x = Some rid"
    show "\<exists>rv \<in> set (db_revisions ?d). r_id rv = rid \<and> r_session_id rv = s_id x"
    proof (cases "s_id x = sid")
      case True
      with mine [OF x(1)] x(2) new(2) es(2) show ?thesis by auto
    next
      case False
      with other [OF x(1)] x(2) inv es(2) show ?thesis by (auto simp: db_inv_def current_ok_def)
    qed
  qed
  moreover have "history_ok ?d"
    unfolding history_ok_def
  proof (intro ballI impI)
    fix x e' assume x: "x \<in> set (db_sessions ?d)" and e': "e' \<in> set (db_entries ?d)"
      and h: "e_session_id e' = s_id x \<and>
        s_current_transcript_revision_id x \<noteq> Some (e_transcript_revision_id e')"
    from e' es(1) obtain e where e: "e \<in> set (db_entries d)" "e' = g e" by auto
    with h same [OF e(1)] have eh: "e_session_id e = s_id x"
      "s_current_transcript_revision_id x \<noteq> Some (e_transcript_revision_id e)"
      by (auto simp: same_evidence_def)
    show "e_verification_status e' = V_NEEDS_REVIEW"
    proof (cases "s_id x = sid")
      case True
      with g [OF e(1)] eh(1) e inv sid show ?thesis
        by (auto simp: db_inv_def history_ok_def split: if_splits)
    next
      case False
      with other [OF x] unchanged [OF e(1)] eh e inv show ?thesis
        by (auto simp: db_inv_def history_ok_def)
    qed
  qed
  moreover have "states_ok ?d"
    unfolding states_ok_def
  proof
    fix x assume x: "x \<in> set (db_sessions ?d)"
    have del: "deletion_requested d' i = deletion_requested d i" for i
      by (simp add: deletion_requested_def es(4))
    show "(s_state x = S_COMPLETE \<longrightarrow> complete_ok ?d x) \<and>
      (s_state x = S_DELETE_PENDING \<longrightarrow> deletion_requested ?d (s_id x))"
    proof (cases "s_id x = sid")
      case True
      with mine [OF x] sess'(3,4) inv sid show ?thesis
        by (auto simp: del db_inv_def states_ok_def)
    next
      case False
      have "entries_of ?d (s_id x) c = entries_of d (s_id x) c" for c
      proof -
        have "entries_of ?d (s_id x) c = map g (entries_of d (s_id x) c)"
          using entries_of_map [of d g] same es(1) by (simp add: entries_of_def)
        also have "\<dots> = entries_of d (s_id x) c"
          using unchanged False by (intro map_idI) (auto simp: entries_of_def)
        finally show ?thesis .
      qed
      with other [OF x False] inv show ?thesis
        by (simp add: del db_inv_def states_ok_def complete_ok_def)
    qed
  qed
  ultimately show ?thesis by (simp add: db_inv_def)
qed

context core_frame
begin

lemma inv_save_frame: "db_inv (save_session now r d) \<Longrightarrow> db_inv (save_session now r (f d))"
  by (erule inv_core_eq)
    (use tombstones [of d] in \<open>simp_all add: save_session_def get_session_def sessions revisions entries\<close>)

end

lemma adopt_new_revision_facts:
  assumes "adopt_new_revision sess rid = Inr sess'"
  shows "s_id sess' = s_id sess \<and> s_current_transcript_revision_id sess' = Some rid \<and>
    (s_state sess' = S_DELETE_PENDING \<longrightarrow> s_state sess = S_DELETE_PENDING) \<and>
    (s_state sess' = S_COMPLETE \<longrightarrow> s_state sess = S_COMPLETE \<and> s_current_transcript_revision_id sess = None)"
  using assms by (auto simp: adopt_new_revision_def Let_def transition_Inr_iff split: if_splits)

lemma complete_has_revision:
  assumes "db_inv d" "get_session d sid = Some sess" "s_state sess = S_COMPLETE"
  shows "s_current_transcript_revision_id sess \<noteq> None"
proof -
  have "complete_ok d sess"
    using assms get_session_Some [OF assms(2)] by (simp add: db_inv_def states_ok_def)
  then show ?thesis
    by (cases "s_current_transcript_revision_id sess") (simp_all add: complete_ok_def entries_of_def)
qed

lemma reopen_entry_keeps:
  "same_evidence e (reopen_entry now e)" "e_verification_status (reopen_entry now e) = V_NEEDS_REVIEW"
  "same_evidence e e"
proof -
  show "same_evidence e (reopen_entry now e)"
    by (subst reopen_entry_fields) (simp add: same_evidence_def)
  show "e_verification_status (reopen_entry now e) = V_NEEDS_REVIEW"
    by (subst reopen_entry_fields) simp
qed (simp add: same_evidence_def)

lemma inv_store_reconciled:
  assumes inv: "db_inv d" and row: "get_session d sid = Some sess" and fresh: "fresh d rid"
    and res: "store_reconciled st repr sha rid jid now d raw sess = Inr d'"
  shows "db_inv d'"
proof -
  from res obtain rv created sess' d1 where
    rec: "reconcile_transcript_data repr sha rid now d sess raw = Inr (rv, created, sess', d1)"
    and d': "d' = save_session now sess' d1 \<or>
      d' = save_session now sess' (snd (snd (ensure_job jid now d1 (s_id sess) T_EXTRACT (ws_max_attempts st))))"
    by (auto simp: store_reconciled_def Let_def split: if_splits)
  have id: "s_id sess = sid" using get_session_Some [OF row] by simp
  from rec have "db_inv (save_session now sess' d1)"
  proof (cases rule: reconcile_cases)
    case (existing segs)
    have "rv \<in> set (db_revisions d)" using find_revision_Some [OF existing(3)] by simp
    from inv_resume_existing [OF inv row this existing(5)] show ?thesis using existing(4) by simp
  next
    case (adopted segs)
    note facts = adopt_new_revision_facts [OF adopted(5)]
    have "s_state sess' \<noteq> S_COMPLETE"
      using facts complete_has_revision [OF inv row] by auto
    let ?g = "if s_current_transcript_revision_id sess \<noteq> None
      then (\<lambda>e. if e_session_id e = sid \<and> Some (e_transcript_revision_id e) =
              s_current_transcript_revision_id sess then reopen_entry now e else e)
      else (\<lambda>e. e)"
    show ?thesis
    proof (rule inv_adopt_revision [OF inv row, where rv = rv and g = ?g])
      show "r_id rv \<notin> r_id ` set (db_revisions d)" using fresh adopted(4) by (simp add: fresh_def)
      show "revision_ok rv"
        using reconcile_revision_ok [OF adopted(1)] adopted(4) by (simp add: revision_ok_def)
      show "db_entries d1 = map ?g (db_entries d)"
        using adopted(6) id by (auto simp: reopen_entries_def)
      show "same_evidence e (?g e) \<and>
        (if e_session_id e = sid \<and> Some (e_transcript_revision_id e) = s_current_transcript_revision_id sess
         then e_verification_status (?g e) = V_NEEDS_REVIEW else ?g e = e)" for e
        using reopen_entry_keeps by auto
    qed (use adopted facts id \<open>s_state sess' \<noteq> S_COMPLETE\<close> in auto)
  qed
  with d' ensure.inv_save_frame show ?thesis by metis
qed

lemma inv_store_entries:
  assumes "fold_result (\<lambda>d (i, entry). rbind (create_ledger_entry (ids i) now d sess' entry)
                (\<lambda>(_, d'). Inr d')) d (enumerate k entries) = Inr d'"
    and "db_inv (save_session now sess' d)" "db_inv d0" "db_sessions d = db_sessions d0"
      "db_revisions d = db_revisions d0" "get_session d0 (s_id sess') = Some old"
    and "s_state sess' \<noteq> S_COMPLETE" "list_all valid_entry entries"
    and "inj ids" "\<And>i. k \<le> i \<Longrightarrow> ids i \<notin> e_id ` set (db_entries d)"
  shows "db_inv (save_session now sess' d') \<and> db_sessions d' = db_sessions d0 \<and> db_revisions d' = db_revisions d0"
  using assms
proof (induction entries arbitrary: d k)
  case (Cons e es)
  from Cons.prems(1) obtain row d1 where c: "create_ledger_entry (ids k) now d sess' e = Inr (row, d1)"
    and rest: "fold_result (\<lambda>d (i, entry). rbind (create_ledger_entry (ids i) now d sess' entry)
                (\<lambda>(_, d'). Inr d')) d1 (enumerate (Suc k) es) = Inr d'" by auto
  have v: "valid_entry e" "list_all valid_entry es" using Cons.prems(8) by simp_all
  have step: "db_inv (save_session now sess' d1) \<and> db_sessions d1 = db_sessions d \<and>
      db_revisions d1 = db_revisions d \<and> db_entries d1 = db_entries d @ [row] \<and> e_id row = ids k"
    by (rule inv_create_entry [OF Cons.prems(2-7) v(1) c]) (simp add: Cons.prems(10))
  have "ids i \<notin> e_id ` set (db_entries d1)" if "Suc k \<le> i" for i
    using step Cons.prems(10) [of i] that injD [OF Cons.prems(9), of i k] by auto
  with Cons.IH [OF rest] step Cons.prems v(2) show ?case by simp
qed simp

lemma inv_store_extracted:
  assumes inv: "db_inv d" and row: "get_session d sid = Some sess"
    and es: "list_all valid_entry entries" "inj ids" "\<And>i. fresh d (ids i)"
    and res: "store_extracted st ids jid now d entries sess = Inr d'"
  shows "db_inv d'"
proof -
  from res obtain sess' d1 where t: "transition sess S_AWAITING_REVIEW = Inr sess'"
    and f: "fold_result (\<lambda>d (i, entry). rbind (create_ledger_entry (ids i) now d sess' entry)
                (\<lambda>(_, d'). Inr d')) d (enumerate 0 entries) = Inr d1"
    and d': "d' = save_session now sess' d1 \<or>
      d' = save_session now sess' (snd (snd (ensure_job jid now d1 (s_id sess) T_SUMMARIZE (ws_max_attempts st))))"
    by (auto simp: store_extracted_def Let_def split: if_splits)
  have id: "s_id sess = sid" using get_session_Some [OF row] by simp
  have b: "benign sess sess'" by (rule transition_benign [OF t]) simp
  have s': "s_id sess' = sid" "s_state sess' = S_AWAITING_REVIEW" using t id by (auto simp: transition_Inr_iff)
  have i: "db_inv (save_session now sess' d1)"
    by (rule inv_store_entries [OF f inv_save_benign [OF inv row b] inv refl refl, THEN conjunct1])
      (use row s' es in \<open>auto simp: fresh_def\<close>)
  from d' i ensure.inv_save_frame show ?thesis by metis
qed

end
