(* ===== verification/Reachable.thy ===== *)
theory Reachable
  imports Worker_Safety
begin

text \<open>
  The step relation of the whole system, its reachable databases, and what holds in all of them.
\<close>

subsection \<open>The steps of the system\<close>

text \<open>The worker's stages on a session row, with whatever the provider answered before them.\<close>

inductive stage_body :: "worker_settings \<Rightarrow> int \<Rightarrow> db \<Rightarrow> SessionRecord \<Rightarrow> db \<Rightarrow> bool" for st now d sess where
  b_resume: "resume_transcribing now d sess = Inr d' \<Longrightarrow> stage_body st now d sess d'"
| b_begin_upload: "begin_upload st op now d sess = Inr (plan, d') \<Longrightarrow> stage_body st now d sess d'"
| b_ambiguous: "fail_ambiguous_operation now m d jid sess = Inr d' \<Longrightarrow> stage_body st now d sess d'"
| b_record_upload: "record_upload now d uploaded sess = Inr d' \<Longrightarrow> stage_body st now d sess d'"
| b_begin_submission: "begin_submission st mode op now d sess = Inr (plan, d') \<Longrightarrow> stage_body st now d sess d'"
| b_record_submission: "record_submission now d sess = Inr d' \<Longrightarrow> stage_body st now d sess d'"
| b_finish_transcribe: "finish_transcribe st i now d (s_id sess) = Inr d' \<Longrightarrow> stage_body st now d sess d'"
| b_begin_reconcile: "begin_reconcile now d sess = Inr d' \<Longrightarrow> stage_body st now d sess d'"
| b_duration: "record_duration now d dur sess = Inr d' \<Longrightarrow> stage_body st now d sess d'"
| b_reconciled: "fresh d rid \<Longrightarrow> store_reconciled st repr sha rid i now d raw sess = Inr d' \<Longrightarrow>
    stage_body st now d sess d'"
| b_begin_extract: "begin_extract now d sess = Inr d' \<Longrightarrow> stage_body st now d sess d'"
| b_plan_extract: "plan_extract now d sess = Inr (plan, d') \<Longrightarrow> stage_body st now d sess d'"
| b_extracted: "list_all valid_entry entries \<Longrightarrow> inj ids \<Longrightarrow> (\<And>i. fresh d (ids i)) \<Longrightarrow>
    store_extracted st ids i now d entries sess = Inr d' \<Longrightarrow> stage_body st now d sess d'"
| b_summary: "store_summary i now d rv es themes sess = Inr d' \<Longrightarrow> stage_body st now d sess d'"

text \<open>
  One transaction of the API or of a worker. The second half of an upload is a step only on the
  row its first half left: on any other version of the row it answers 409 and changes nothing.
\<close>

inductive db_step :: "db \<Rightarrow> db \<Rightarrow> bool" for d where
  api_create_session: "fresh d i \<Longrightarrow> db_step d (snd (create_session i now d b))"
| api_start_upload: "db_step d (snd (start_upload as i now d sid))"
| api_finish_upload: "get_session d (s_id r) = Some r \<Longrightarrow> s_state r = S_UPLOADING \<Longrightarrow>
    db_step d (snd (finish_upload as sha sh disk stale i now d r filename chunks))"
| api_create_job: "db_step d (snd (create_job as i now d sid t))"
| api_cancel_job: "db_step d (snd (cancel_job now d jid))"
| api_retry_job: "db_step d (snd (retry_job i now d jid))"
| api_refresh: "db_step d (snd (refresh_from_speakr as i now d sid))"
| api_resolve: "db_step d (snd (resolve_upload_operation ad i now d who sid rb))"
| api_cancel_session: "db_step d (snd (cancel_session now d sid))"
| api_add_entry: "fresh d i \<Longrightarrow> valid_entry le \<Longrightarrow> db_step d (snd (add_ledger_entry i now d sid le))"
| api_verify: "valid_verification vb \<Longrightarrow> db_step d (snd (verify_ledger_entry i now d who eid vb))"
| api_request_deletion: "db_step d (snd (request_deletion now d sid))"
| api_confirm_deletion: "db_step d (snd (snd (confirm_deletion as del now d sid c)))"
| api_webhook: "db_step d (snd (receive_speakr_webhook lib as i now d req))"
| w_claim: "db_step d (snd (claim_job now d))"
| w_checkpoint: "touch_lease now d jid sid = Some d' \<Longrightarrow> db_step d d'"
| w_cancel: "db_step d (worker_cancel_job now d jid)"
| w_complete: "db_step d (complete_job now d jid sid)"
| w_requeue: "db_step d (requeue_pending st now d jid sid code m)"
| w_fail: "fail_job st now d jid sid code m = Inr d' \<Longrightarrow> db_step d d'"
| w_recover: "recover_one_abandoned_job st now m d jid cutoff = Inr (b, d') \<Longrightarrow> db_step d d'"
| w_stale: "resolve_stale_processing st now m d jid sid = Inr d' \<Longrightarrow> db_step d d'"
| w_schedule: "db_step d (snd (enqueue_scheduled_reconciliation st ids now d))"
| w_orphan: "db_step d (snd (ensure_deletion_compensation i now d sid rid))"
| w_begin_compensation: "db_step d (snd (begin_compensation d cid))"
| w_finish_compensation: "db_step d (finish_compensation st now d begun ans)"
| w_heartbeat: "db_step d (snd (renew_job_lease now d jid))"
| w_stale_fallback: "db_step d (resolve_stale_fallback st now d jid sid)"
| w_body: "get_session d sid = Some sess \<Longrightarrow> stage_body st now d sess d' \<Longrightarrow> db_step d d'"

definition db_reachable :: "db \<Rightarrow> bool" where
  "db_reachable d \<longleftrightarrow> db_step\<^sup>*\<^sup>* empty_db d"

lemma inv_stage_body:
  assumes body: "stage_body st now d sess d'" and inv: "db_inv d" and row: "get_session d sid = Some sess"
  shows "db_inv d'"
proof -
  note save = inv_save_benign [OF inv row]
  show ?thesis
    using body
  proof cases
    case b_resume
    with inv show ?thesis by (auto simp: resume_transcribing_def intro: save transition_benign split: if_splits)
  next
    case b_begin_upload
    with inv show ?thesis by (auto simp: begin_upload_def intro!: save split: if_splits)
  next
    case b_ambiguous
    with inv row show ?thesis
      by (auto simp: fail_ambiguous_operation_def split: option.splits dest: inv_mark_ambiguous)
  next
    case b_record_upload
    then show ?thesis by (auto simp: record_upload_def Let_def intro!: save split: option.splits if_splits)
  next
    case b_begin_submission
    with inv show ?thesis
      by (auto simp: begin_submission_def intro!: save split: if_splits submission_mode.splits)
  next
    case b_record_submission
    then show ?thesis by (auto simp: record_submission_def intro!: save)
  next
    case b_finish_transcribe
    with inv show ?thesis by (auto simp: finish_transcribe_def ensure.inv_frame)
  next
    case b_begin_reconcile
    with inv show ?thesis by (auto simp: begin_reconcile_def intro: save transition_benign split: if_splits)
  next
    case b_duration
    with inv show ?thesis by (auto simp: record_duration_def intro!: save split: option.splits)
  next
    case b_reconciled
    with inv_store_reconciled [OF inv row] show ?thesis by blast
  next
    case b_begin_extract
    with inv show ?thesis by (auto simp: begin_extract_def intro: save transition_benign split: if_splits)
  next
    case b_plan_extract
    with inv show ?thesis by (auto simp: plan_extract_def intro: save transition_benign split: if_splits)
  next
    case b_extracted
    with inv_store_extracted [OF inv row] show ?thesis by blast
  next
    case b_summary
    with inv show ?thesis by (auto simp: store_summary_def summaries.inv_frame)
  qed
qed

lemma inv_step:
  assumes "db_step d d'" "db_inv d" shows "db_inv d'"
  using assms(1)
proof cases
  case w_checkpoint
  then show ?thesis using inv_touch_lease assms(2) by blast
next
  case w_body
  then show ?thesis using inv_stage_body assms(2) by blast
next
  case w_fail
  then show ?thesis using inv_fail_job [OF assms(2)] by blast
next
  case w_recover
  then show ?thesis using inv_recover_one [OF assms(2)] by blast
next
  case w_stale
  then show ?thesis using inv_resolve_stale [OF assms(2)] by blast
qed (simp_all only: assms(2) inv_create_session inv_start_upload inv_finish_upload inv_create_job
    inv_cancel_job inv_retry_job inv_refresh inv_resolve inv_cancel_session inv_add_ledger_entry
    inv_verify inv_request_deletion inv_confirm_deletion inv_webhook inv_claim
    inv_complete inv_requeue inv_scheduled inv_begin_compensation inv_finish_compensation
    wcancel.inv_frame orphans.inv_frame inv_heartbeat inv_stale_fallback)

lemma inv_empty: "db_inv empty_db"
  by (simp add: inv_defs empty_db_def)

lemma reachable_inv: "db_reachable d \<Longrightarrow> db_inv d"
  unfolding db_reachable_def by (induction rule: rtranclp_induct) (auto intro: inv_empty inv_step)

subsection \<open>An example run\<close>

definition demo_create :: CreateSessionRequest where
  "demo_create = \<lparr>cs_title = ''Lesson'', cs_recorded_at = None, cs_duration_ms = None, cs_notes = None\<rparr>"

definition demo_span :: EvidenceReference where
  "demo_span = \<lparr>er_transcript_revision_id = ''r'', er_start_ms = 4000, er_end_ms = 5000,
     er_segment_ids = [''0'']\<rparr>"

definition demo_note :: LedgerEntryCreate where
  "demo_note = demo_entry\<lparr>le_exact_coach_feedback := None, le_evidence := [demo_span]\<rparr>"

definition demo_review :: VerificationRequest where
  "demo_review = \<lparr>vr_status = V_VERIFIED, vr_note = None\<rparr>"

definition demo_d1 :: db where "demo_d1 = snd (create_session ''a'' 1 empty_db demo_create)"

definition demo_d2 :: db where "demo_d2 = snd (start_upload demo_api ''x'' 2 demo_d1 ''a'')"

definition demo_d3 :: db where
  "demo_d3 = snd (finish_upload demo_api (\<lambda>_. ''h'') (\<lambda>_. []) (Inr ()) (Http 500 []) ''j'' 3 demo_d2
     (the (get_session demo_d2 ''a'')) None [''x''])"

definition demo_d4 :: db where "demo_d4 = snd (claim_job 4 demo_d3)"

definition demo_s1 :: SessionRecord where "demo_s1 = new_session ''a'' 1 demo_create"

definition demo_s2 where "demo_s2 = demo_s1\<lparr>s_state := S_UPLOADING, s_updated_at := 2, s_version := 2\<rparr>"

definition demo_s3 where "demo_s3 = demo_s2\<lparr>s_state := S_TRANSCRIBING,
  s_original_filename := Some (safe_filename ''recording.bin''),
  s_media_path := Some (media_destination demo_api ''a'' (safe_filename ''recording.bin'')),
  s_media_sha256 := Some ''h'', s_media_size_bytes := Some 1, s_updated_at := 3, s_version := 3\<rparr>"

definition demo_d5 :: db where
  "demo_d5 = projr (store_reconciled demo_worker (\<lambda>_. []) (\<lambda>_. ''q'') ''r'' ''k'' 5 demo_d4 demo_raw demo_s3)"

definition demo_d6 :: db where "demo_d6 = snd (add_ledger_entry ''e'' 6 demo_d5 ''a'' demo_note)"

definition demo_d7 :: db where "demo_d7 = snd (verify_ledger_entry ''v'' 7 demo_d6 ''rev'' ''e'' demo_review)"

definition demo_j3 where "demo_j3 = new_job ''j'' 3 ''a'' T_TRANSCRIBE 3"

definition demo_j4 where "demo_j4 = demo_j3\<lparr>j_status := J_RUNNING, j_attempts := 1, j_updated_at := 4, j_version := 2\<rparr>"

definition demo_s5 where "demo_s5 = demo_s3\<lparr>s_state := S_TRANSCRIPT_READY, s_last_reconciled_at := Some 5,
  s_current_transcript_revision_id := Some ''r'', s_updated_at := 5, s_version := 4\<rparr>"

definition demo_g5 :: TranscriptSegment where "demo_g5 = \<lparr>ts_segment_id = ''0'', ts_start_ms = 4000, ts_end_ms = 5000, ts_text = [],
   ts_provider_speaker_label = None\<rparr>"

definition demo_r5 where "demo_r5 = \<lparr>r_id = ''r'', r_session_id = ''a'', r_sha256 = ''q'', r_segments = [demo_g5], r_source = ''speakr'', r_created_at = 5\<rparr>"

definition demo_j5 where "demo_j5 = new_job ''k'' 5 ''a'' T_EXTRACT 3"

definition demo_s6 where "demo_s6 = demo_s5\<lparr>s_state := S_AWAITING_REVIEW, s_updated_at := 6, s_version := 5\<rparr>"

definition demo_e6 where "demo_e6 = entry_row ''e'' 6 ''a'' ''r'' demo_note"

definition demo_s7 where "demo_s7 = demo_s6\<lparr>s_state := S_COMPLETE, s_updated_at := 7, s_version := 6\<rparr>"

definition demo_e7 where "demo_e7 = demo_e6\<lparr>e_verification_status := V_VERIFIED, e_verified_by := Some ''rev'',
  e_verified_at := Some 7, e_updated_at := 7\<rparr>"

lemma d1: "demo_d1 = empty_db\<lparr>db_sessions := [demo_s1]\<rparr>"
  by (simp add: demo_d1_def create_session_def Let_def tbl_add_def empty_db_def demo_s1_def)

lemma d2: "demo_d2 = empty_db\<lparr>db_sessions := [demo_s2]\<rparr>"
  by (simp add: demo_d2_def d1 start_upload_def transaction_def session_or_404_def get_session_def tbl_get_def
    empty_db_def demo_s1_def demo_s2_def transition_def from_py_def Let_def save_session_def tbl_put_def new_session_def demo_create_def)

lemma d3: "demo_d3 = empty_db\<lparr>db_sessions := [demo_s3], db_jobs := [demo_j3]\<rparr>"
  by (simp add: demo_d3_def d2 finish_upload_def row_eval demo_s2_def demo_s1_def new_session_def demo_create_def
    transition_def from_py_def ensure_job_def demo_s3_def demo_j3_def demo_api_def empty_db_def)

lemma d4: "demo_d4 = empty_db\<lparr>db_sessions := [demo_s3], db_jobs := [demo_j4]\<rparr>"
  by (simp add: demo_d4_def d3 claim_job_def row_eval demo_j3_def demo_j4_def new_job_def empty_db_def)

lemma norm5: "normalize_speakr_segments (\<lambda>_. []) demo_raw = Inr [demo_g5]"
  by (simp add: normalize_speakr_segments_def demo_raw_def raw_start_def raw_end_def raw_id_def raw_text_def raw_speaker_def
    mk_segment_def obj_get_def seconds_to_ms_JInt py_str_def int_str_def nat_str_digit demo_g5_def valid_segment_def)

lemma d5: "demo_d5 = empty_db\<lparr>db_sessions := [demo_s5], db_jobs := [demo_j4, demo_j5], db_revisions := [demo_r5]\<rparr>"
  "store_reconciled demo_worker (\<lambda>_. []) (\<lambda>_. ''q'') ''r'' ''k'' 5 demo_d4 demo_raw demo_s3 = Inr demo_d5"
  by (simp_all add: demo_d5_def d4 row_eval demo_s2_def demo_s1_def new_session_def demo_create_def
    store_reconciled_def reconcile_transcript_data_def norm5 find_revision_def
    transcript_sha256_def adopt_new_revision_def transition_def entries_of_def ensure_job_def active_status_def
    demo_s3_def demo_j3_def demo_j4_def new_job_def demo_s5_def demo_r5_def demo_j5_def demo_worker_def empty_db_def)

lemma check6: "create_ledger_entry ''e'' 6 demo_d5 demo_s5 demo_note = Inr (demo_e6, demo_d5\<lparr>db_entries := [demo_e6]\<rparr>)"
  by (simp add: create_ledger_entry_def validate_evidence_def check_reference_def d5(1) row_eval demo_note_def demo_span_def
     demo_entry_def demo_s5_def demo_s3_def demo_s2_def demo_s1_def new_session_def demo_create_def demo_r5_def demo_g5_def
     dict_by_def demo_e6_def empty_db_def)

lemma row_changed:
  "s_state r \<noteq> t \<Longrightarrow> r \<noteq> r\<lparr>s_state := t\<rparr>"
  "e_verification_status e \<noteq> v \<Longrightarrow> e \<noteq> e\<lparr>e_verification_status := v, e_verified_by := w, e_verified_at := x\<rparr>"
  by (cases r; simp) (cases e; simp)

lemma s5: "s_state demo_s5 = S_TRANSCRIPT_READY" "s_id demo_s5 = ''a''" "s_version demo_s5 = 4"
    "s_current_transcript_revision_id demo_s5 = Some ''r''"
    "db_sessions demo_d5 = [demo_s5]" "db_entries demo_d5 = []" "get_session demo_d5 ''a'' = Some demo_s5"
  by (simp_all add: d5(1) row_eval empty_db_def demo_s5_def demo_s3_def demo_s2_def demo_s1_def new_session_def)

lemma d6: "demo_d6 = demo_d5\<lparr>db_sessions := [demo_s6], db_entries := [demo_e6]\<rparr>"
proof -
  have "save_session 6 (demo_s5\<lparr>s_state := S_AWAITING_REVIEW\<rparr>) (demo_d5\<lparr>db_entries := [demo_e6]\<rparr>) =
      demo_d5\<lparr>db_entries := [demo_e6], db_sessions := [demo_s6]\<rparr>"
    using s5 row_changed(1) [of demo_s5 S_AWAITING_REVIEW]
    by (simp add: save_session_def get_session_def tbl_get_def tbl_put_def demo_s6_def)
  then show ?thesis
    using s5 by (simp add: demo_d6_def add_ledger_entry_def session_or_404_def check6 evidence_error_def from_py_def
        transaction_def reopen_review_def transition_def)
qed

lemma d7: "db_sessions demo_d7 = [demo_s7] \<and> db_entries demo_d7 = [demo_e7]"
proof -
  have s: "get_session demo_d6 ''a'' = Some demo_s6" "get_entry demo_d6 ''e'' = Some demo_e6"
    "e_session_id demo_e6 = ''a''" "e_transcript_revision_id demo_e6 = ''r''" "s_current_transcript_revision_id demo_s6 = Some ''r''"
    "s_state demo_s6 = S_AWAITING_REVIEW" "s_id demo_s6 = ''a''" "e_id demo_e6 = ''e''" "e_verification_status demo_e6 = V_UNVERIFIED"
    "db_sessions demo_d6 = [demo_s6]" "db_entries demo_d6 = [demo_e6]" "s_version demo_s6 = 5"
    using s5 by (simp_all add: get_session_def get_entry_def tbl_get_def d6 demo_s6_def demo_e6_def entry_row_def)
  have a: "after_review (demo_d6\<lparr>db_verifications := l, db_entries := [demo_e7]\<rparr>) demo_s6 = Inr (demo_s6\<lparr>s_state := S_COMPLETE\<rparr>)" for l
    using s by (simp add: after_review_def statuses_of_def entries_of_def demo_e7_def transition_def from_py_def)
  have e: "save_entry 7 (demo_e6\<lparr>e_verification_status := V_VERIFIED, e_verified_by := Some ''rev'', e_verified_at := Some 7\<rparr>)
     (demo_d6\<lparr>db_verifications := l\<rparr>) = demo_d6\<lparr>db_verifications := l, db_entries := [demo_e7]\<rparr>" (is "save_entry 7 ?e ?d = _") for l
  proof -
    have ne: "demo_e6 \<noteq> ?e" by (rule row_changed(2)) (simp add: s)
    have "get_entry ?d (e_id ?e) = Some demo_e6" using s by (simp add: get_entry_def tbl_get_def)
    then have "save_entry 7 ?e ?d = ?d\<lparr>db_entries := tbl_put e_id (db_entries ?d) (?e\<lparr>e_updated_at := 7\<rparr>)\<rparr>"
      by (simp only: save_entry_def option.inject ne if_False)
    also have "tbl_put e_id (db_entries ?d) (?e\<lparr>e_updated_at := 7\<rparr>) = [demo_e7]"
      by (simp add: tbl_put_def s demo_e7_def)
    finally show ?thesis .
  qed
  show ?thesis
    using s by (simp add: demo_d7_def verify_ledger_entry_def session_or_404_def transaction_def Let_def demo_review_def e a)
      (use s row_changed(1) [of demo_s6 S_COMPLETE] in
        \<open>simp add: save_session_def get_session_def tbl_get_def tbl_put_def demo_s7_def\<close>)
qed

lemma reachable_step: "db_reachable d \<Longrightarrow> db_step d d' \<Longrightarrow> db_reachable d'"
  unfolding db_reachable_def by (rule rtranclp.rtrancl_into_rtrancl)

lemma demo_steps:
  "db_step empty_db demo_d1" "db_step demo_d1 demo_d2" "db_step demo_d2 demo_d3" "db_step demo_d3 demo_d4"
  "db_step demo_d4 demo_d5" "db_step demo_d5 demo_d6" "db_step demo_d6 demo_d7"
proof -
  show "db_step empty_db demo_d1"
    unfolding demo_d1_def by (rule api_create_session) (simp add: fresh_def empty_db_def)
  show "db_step demo_d1 demo_d2" unfolding demo_d2_def by (rule api_start_upload)
  show "db_step demo_d2 demo_d3"
    unfolding demo_d3_def
    by (rule api_finish_upload) (simp_all add: d2 row_eval demo_s2_def demo_s1_def)
  show "db_step demo_d3 demo_d4" unfolding demo_d4_def by (rule w_claim)
  show "db_step demo_d4 demo_d5"
    by (rule w_body [OF _ b_reconciled [OF _ d5(2)], where sid = "''a''"])
      (simp_all add: fresh_def d4 row_eval demo_s3_def demo_s2_def demo_s1_def new_session_def demo_create_def
        demo_j4_def demo_j3_def new_job_def empty_db_def)
  show "db_step demo_d5 demo_d6"
    unfolding demo_d6_def
    by (rule api_add_entry) (simp_all add: fresh_def d5(1) demo_s5_def demo_s3_def demo_s2_def demo_s1_def demo_j4_def
      demo_j3_def demo_j5_def demo_r5_def empty_db_def valid_entry_def demo_note_def demo_entry_def demo_span_def
      valid_reference_def)
  show "db_step demo_d6 demo_d7"
    unfolding demo_d7_def by (rule api_verify) (simp add: demo_review_def valid_verification_def)
qed

lemma reachable_empty: "db_reachable empty_db"
  by (simp add: db_reachable_def)

lemma demo_reachable: "db_reachable demo_d7" "db_reachable demo_d6" "db_reachable demo_d5" "db_reachable demo_d4"
  using reachable_empty demo_steps by (metis reachable_step)+

text \<open>C1: whatever the API and the workers did, every ledger entry in the database cites a stored
  revision of its own session, its time ranges are exactly the spans of the segments they name,
  and its quote occurs in those segments' text.\<close>

theorem ledger_always_grounded:
  assumes "db_reachable d" "e \<in> set (db_entries d)"
  shows "\<exists>rv \<in> set (db_revisions d). r_id rv = e_transcript_revision_id e \<and>
    r_session_id rv = e_session_id e \<and> grounded rv (e_evidence e) (e_exact_coach_feedback e)"
  using reachable_inv [OF assms(1)] assms(2) by (simp add: inv_defs)

theorem ledger_always_grounded_witness:
  "\<exists>rv \<in> set (db_revisions demo_d6). r_id rv = e_transcript_revision_id demo_e6 \<and>
    r_session_id rv = e_session_id demo_e6 \<and> grounded rv (e_evidence demo_e6) (e_exact_coach_feedback demo_e6)"
  by (rule ledger_always_grounded [OF demo_reachable(2)]) (simp add: d6)

text \<open>C2: a session shown as complete has ledger entries for its current transcript revision, and a
  reviewer has verified or rejected every one of them, after any interleaving of requests and
  workers.\<close>

theorem complete_is_reviewed:
  assumes "db_reachable d" "s \<in> set (db_sessions d)" "s_state s = S_COMPLETE"
  shows "entries_of d (s_id s) (s_current_transcript_revision_id s) \<noteq> [] \<and>
    (\<forall>e \<in> set (entries_of d (s_id s) (s_current_transcript_revision_id s)).
       reviewed (e_verification_status e))"
  using reachable_inv [OF assms(1)] assms(2,3) by (simp add: inv_defs complete_ok_def)

theorem complete_is_reviewed_witness:
  "s_state demo_s7 = S_COMPLETE \<and>
   entries_of demo_d7 (s_id demo_s7) (s_current_transcript_revision_id demo_s7) \<noteq> []"
  using complete_is_reviewed [OF demo_reachable(1), of demo_s7] d7 by (simp add: demo_s7_def)

text \<open>C3: an entry of a superseded revision never keeps a verdict: every entry that does not belong to
  its session's current revision is waiting for review.\<close>

theorem superseded_needs_review:
  assumes "db_reachable d" "s \<in> set (db_sessions d)" "e \<in> set (db_entries d)"
    "e_session_id e = s_id s" "reviewed (e_verification_status e)"
  shows "s_current_transcript_revision_id s = Some (e_transcript_revision_id e)"
proof -
  have "history_ok d" using reachable_inv [OF assms(1)] by (simp add: db_inv_def)
  with assms(2-5) show ?thesis by (force simp: history_ok_def reviewed_def)
qed

theorem superseded_needs_review_witness:
  "s_current_transcript_revision_id demo_s7 = Some (e_transcript_revision_id demo_e7)"
  by (rule superseded_needs_review [OF demo_reachable(1)])
    (use d7 s5 in \<open>simp_all add: demo_s7_def demo_s6_def demo_e7_def demo_e6_def entry_row_def reviewed_def\<close>)

end
