(* ===== verification/Accountable.thy ===== *)
theory Accountable
  imports Reachable
begin

text \<open>
  What one transaction may not destroy. Between any two consecutive databases of the system a
  deletion request stays recorded, an operator's resolution stays recorded, a transcript revision
  stays as it was stored, and the marker of an upload in flight goes only with a reason that the
  next database shows. Revisions and sessions may go only with a confirmed deletion.
\<close>

subsection \<open>The guarantee of a transaction\<close>

text \<open>
  \<^term>\<open>marker_kept\<close>: the marker of an upload is the same, or the recording it made is known, or the
  submission it implied is recorded, or an operator resolved exactly this operation.
\<close>

definition marker_kept :: "db \<Rightarrow> SessionRecord \<Rightarrow> SessionRecord \<Rightarrow> bool" where
  "marker_kept d r r' \<longleftrightarrow> s_pending_operation_kind r = Some ''upload'' \<longrightarrow>
     (s_pending_operation_kind r' = Some ''upload'' \<and> s_pending_operation_id r' = s_pending_operation_id r) \<or>
     s_speakr_recording_id r' \<noteq> None \<or>
     (s_pending_operation_kind r' = None \<and> s_transcription_submitted_at r' \<noteq> None) \<or>
     (\<exists>p \<in> set (db_resolutions d). p_session_id p = s_id r \<and> p_operation_kind p = ''upload'' \<and>
        p_operation_id p = s_pending_operation_id r)"

definition deleted_session :: "db \<Rightarrow> string \<Rightarrow> bool" where
  "deleted_session d i \<longleftrightarrow> deletion_requested d i \<and> i \<notin> s_id ` set (db_sessions d)"

definition durable :: "db \<Rightarrow> db \<Rightarrow> bool" where
  "durable d d' \<longleftrightarrow>
     (\<forall>i. deletion_requested d i \<longrightarrow> deletion_requested d' i) \<and>
     set (db_resolutions d) \<subseteq> set (db_resolutions d') \<and>
     (\<forall>rv \<in> set (db_revisions d). rv \<in> set (db_revisions d') \<or> deleted_session d' (r_session_id rv)) \<and>
     (\<forall>r \<in> set (db_sessions d). deleted_session d' (s_id r) \<or>
        (\<exists>r' \<in> set (db_sessions d'). s_id r' = s_id r \<and> marker_kept d' r r'))"

definition keeps :: "db \<Rightarrow> db \<Rightarrow> bool" where
  "keeps d d' \<longleftrightarrow> db_sessions d' = db_sessions d \<and> set (db_revisions d) \<subseteq> set (db_revisions d') \<and>
     set (db_resolutions d) \<subseteq> set (db_resolutions d') \<and>
     (\<forall>i. deletion_requested d i \<longrightarrow> deletion_requested d' i)"

definition calm :: "SessionRecord \<Rightarrow> SessionRecord \<Rightarrow> bool" where
  "calm r r' \<longleftrightarrow> s_id r' = s_id r \<and> s_pending_operation_kind r' = s_pending_operation_kind r \<and>
     s_pending_operation_id r' = s_pending_operation_id r"

lemma marker_kept_refl [simp]: "marker_kept d r r"
  by (simp add: marker_kept_def)

lemma keeps_refl [simp, intro]: "keeps d d"
  by (simp add: keeps_def)

lemma keeps_step:
  "keeps d d1 \<Longrightarrow> keeps d (save_job now j d1)"
  "keeps d d1 \<Longrightarrow> keeps d (snd (snd (ensure_job i now d1 sid t m)))"
  "keeps d d1 \<Longrightarrow> keeps d (cancel_active_jobs now sid sts d1)"
  "keeps d d1 \<Longrightarrow> keeps d (worker_cancel_job now d1 jid)"
  "keeps d d1 \<Longrightarrow> keeps d (d1\<lparr>db_jobs := js\<rparr>)"
  "keeps d d1 \<Longrightarrow> keeps d (d1\<lparr>db_entries := es\<rparr>)"
  "keeps d d1 \<Longrightarrow> keeps d (d1\<lparr>db_verifications := vs\<rparr>)"
  "keeps d d1 \<Longrightarrow> keeps d (d1\<lparr>db_deliveries := hs\<rparr>)"
  "keeps d d1 \<Longrightarrow> keeps d (save_entry now e d1)"
  "keeps d d1 \<Longrightarrow> keeps d (reopen_entries now sid rid d1)"
  "keeps d d1 \<Longrightarrow> keeps d (save_compensation c d1)"
  "keeps d d1 \<Longrightarrow> keeps d (store_summary_row i now d1 sid' rid' ths n u)"
  "keeps d d1 \<Longrightarrow> keeps d (d1\<lparr>db_revisions := tbl_add (db_revisions d1) rv\<rparr>)"
  "keeps d d1 \<Longrightarrow> keeps d (d1\<lparr>db_resolutions := tbl_add (db_resolutions d1) p\<rparr>)"
  by (auto simp: keeps_def save_job_def ensure_job_def cancel_active_jobs_def worker_cancel_job_def save_entry_def
      reopen_entries_def save_compensation_def store_summary_row_def deletion_requested_def tbl_add_def Let_def
      split: option.splits)

lemma keeps_tombstones:
  "keeps d d1 \<Longrightarrow> keeps d (record_deletion_intent now d1 sid)"
  "keeps d d1 \<Longrightarrow> keeps d (record_deletion_compensation now d1 sid rid)"
  "keeps d d1 \<Longrightarrow> keeps d (snd (ensure_deletion_compensation i now d1 sid rid))"
proof -
  have *: "db_resolutions (record_deletion_intent now d1 sid) = db_resolutions d1"
    "db_resolutions (record_deletion_compensation now d1 sid rid) = db_resolutions d1"
    "db_resolutions (snd (ensure_deletion_compensation i now d1 sid rid)) = db_resolutions d1"
    by (auto simp: record_deletion_intent_def record_deletion_compensation_def ensure_deletion_compensation_def Let_def
        split: option.splits)
  show "keeps d d1 \<Longrightarrow> keeps d (record_deletion_intent now d1 sid)"
    by (auto simp: keeps_def * intent.sessions intent.revisions intro: intent.deletion_frame)
  show "keeps d d1 \<Longrightarrow> keeps d (record_deletion_compensation now d1 sid rid)"
    by (auto simp: keeps_def * compensated.sessions compensated.revisions intro: compensated.deletion_frame)
  show "keeps d d1 \<Longrightarrow> keeps d (snd (ensure_deletion_compensation i now d1 sid rid))"
    by (auto simp: keeps_def * orphans.sessions orphans.revisions intro: orphans.deletion_frame)
qed

lemma durable_keeps: "keeps d d' \<Longrightarrow> durable d d'"
  by (auto simp: keeps_def durable_def)

lemma durable_refl [simp]: "durable d d"
  by (rule durable_keeps) simp

lemma durable_save:
  assumes "db_inv d" "keeps d d1" "get_session d i = Some old" "s_id r = s_id old" "marker_kept d1 old r"
  shows "durable d (save_session now r d1)"
proof -
  let ?d = "save_session now r d1"
  have id: "s_id r = i" using get_session_Some [OF assms(3)] assms(4) by simp
  have row: "get_session d1 (s_id r) = Some old"
    using assms(2,3) id by (simp add: keeps_def get_session_def)
  have res: "db_resolutions ?d = db_resolutions d1" by (simp add: save_session_def)
  have "\<exists>r' \<in> set (db_sessions ?d). s_id r' = s_id x \<and> marker_kept ?d x r'" if x: "x \<in> set (db_sessions d)" for x
  proof (cases "s_id x = i")
    case True
    then have old: "x = old" by (rule session_unique [OF assms(1,3) x])
    from get_session_saved [OF row, of now] obtain r' where "get_session ?d (s_id r) = Some r'"
      "s_pending_operation_kind r' = s_pending_operation_kind r" "s_pending_operation_id r' = s_pending_operation_id r"
      "s_speakr_recording_id r' = s_speakr_recording_id r"
      "s_transcription_submitted_at r' = s_transcription_submitted_at r" by auto
    with assms(5) get_session_Some [OF this(1)] True id show ?thesis
      by (intro bexI [of _ r']) (auto simp: old marker_kept_def res)
  next
    case False
    then have "x \<in> set (db_sessions ?d)"
      using x assms(2) id by (auto simp: save_session_def keeps_def intro!: sess.put_other)
    then show ?thesis by auto
  qed
  with assms(2) show ?thesis by (auto simp: durable_def keeps_def res)
qed

lemma calm_simps [simp]:
  "calm r r" "calm r (r'\<lparr>s_last_error := a\<rparr>) = calm r r'" "calm r (r'\<lparr>s_duration_ms := b\<rparr>) = calm r r'"
  "calm r (r'\<lparr>s_transcription_submitted_at := q\<rparr>) = calm r r'" "calm r (r'\<lparr>s_state := v\<rparr>) = calm r r'"
  "calm r (r'\<lparr>s_speakr_recording_id := c\<rparr>) = calm r r'"
  by (simp_all add: calm_def)

lemma calm_trans: "calm a b \<Longrightarrow> calm b c \<Longrightarrow> calm a c"
  by (simp add: calm_def)

lemma transition_calm: "transition r t = Inr r' \<Longrightarrow> calm r r'"
  by (auto simp: transition_Inr_iff)

lemma prepare_state_calm: "prepare_state_for_job r t = Inr r' \<Longrightarrow> calm r r'"
  by (cases t) (auto simp: prepare_state_for_job_def Let_def intro: transition_calm split: if_splits)

lemma durable_calm:
  assumes "db_inv d" "keeps d d1" "get_session d i = Some old" "calm old r"
  shows "durable d (save_session now r d1)"
  using assms by (intro durable_save [OF assms(1-3)]) (auto simp: calm_def marker_kept_def)

lemma transaction_durable:
  "(\<And>x d'. r = Inr (x, d') \<Longrightarrow> durable d d') \<Longrightarrow> durable d (snd (transaction d r))"
  by (auto simp: transaction_def split: sum.splits)

lemmas keeps_intros = keeps_step keeps_tombstones

lemmas durable_frames = keeps_intros [THEN durable_keeps]

subsection \<open>The API\<close>

lemma durable_create_session:
  assumes "fresh d i" shows "durable d (snd (create_session i now d b))"
  by (auto simp: create_session_def Let_def durable_def deletion_requested_def tbl_add_def)

lemma durable_start_upload: "db_inv d \<Longrightarrow> durable d (snd (start_upload st i now d sid))"
  unfolding start_upload_def
  by (rule transaction_durable)
    (auto simp: session_or_404_Inr Let_def intro!: durable_calm durable_frames keeps_intros dest: transition_calm split: if_splits)

lemma durable_finish_upload:
  assumes "db_inv d" "get_session d (s_id r) = Some r"
  shows "durable d (snd (finish_upload st sha sh disk stale i now d r filename chunks))"
  using assms unfolding finish_upload_def
  by (auto simp: Let_def case_prod_beta transition_Inr_iff calm_def rbind_eq_Inl intro!: durable_calm [OF assms(1) _ assms(2)] keeps_intros
      split: sum.splits)

lemma durable_create_job: "db_inv d \<Longrightarrow> durable d (snd (create_job st i now d sid t))"
  unfolding create_job_def
  by (rule transaction_durable)
    (auto simp: session_or_404_Inr case_prod_beta Let_def intro!: durable_calm durable_frames keeps_intros
      dest: prepare_state_calm split: if_splits)

lemma durable_cancel_job: "db_inv d \<Longrightarrow> durable d (snd (cancel_job now d jid))"
  unfolding cancel_job_def
  by (rule transaction_durable)
    (auto simp: session_or_404_Inr Let_def intro!: durable_calm durable_frames keeps_intros dest: transition_calm split: if_splits)

lemma durable_retry_job: "db_inv d \<Longrightarrow> durable d (snd (retry_job i now d jid))"
  unfolding retry_job_def
  by (rule transaction_durable)
    (auto simp: session_or_404_Inr Let_def intro!: durable_calm keeps_intros
      dest!: transition_calm prepare_state_calm intro: calm_trans split: if_splits)

lemma durable_refresh: "db_inv d \<Longrightarrow> durable d (snd (refresh_from_speakr st i now d sid))"
  unfolding refresh_from_speakr_def
  by (rule transaction_durable)
    (auto simp: session_or_404_Inr Let_def intro!: durable_calm keeps_intros dest!: transition_calm intro: calm_trans
      split: if_splits)

lemma durable_cancel_session: "db_inv d \<Longrightarrow> durable d (snd (cancel_session now d sid))"
  unfolding cancel_session_def
  by (rule transaction_durable)
    (auto simp: session_or_404_Inr Let_def intro!: durable_calm keeps_intros dest: transition_calm split: if_splits)

lemma durable_add_ledger_entry: "db_inv d \<Longrightarrow> durable d (snd (add_ledger_entry i now d sid le))"
  unfolding add_ledger_entry_def
  by (rule transaction_durable)
    (auto simp: session_or_404_Inr evidence_error_Inr create_ledger_entry_def reopen_review_def Let_def
      intro!: durable_calm keeps_intros dest: transition_calm split: if_splits)

lemma durable_verify: "db_inv d \<Longrightarrow> durable d (snd (verify_ledger_entry i now d who eid vb))"
  unfolding verify_ledger_entry_def
  by (rule transaction_durable)
    (auto simp: session_or_404_Inr after_review_def Let_def
      intro!: durable_calm keeps_intros dest: transition_calm split: if_splits option.splits)

lemma durable_request_deletion: "db_inv d \<Longrightarrow> durable d (snd (request_deletion now d sid))"
  unfolding request_deletion_def
  by (rule transaction_durable)
    (auto simp: session_or_404_Inr Let_def intro!: durable_calm keeps_intros dest: transition_calm)

lemma durable_resolve:
  assumes inv: "db_inv d" shows "durable d (snd (resolve_upload_operation ad i now d who sid rb))"
proof (cases "resolve_upload_operation ad i now d who sid rb")
  case (Pair res d')
  show ?thesis
  proof (cases res)
    case (Inl e)
    with Pair have "d' = d" using resolve_refused by blast
    with Pair show ?thesis by simp
  next
    case (Inr x)
    from Pair [unfolded Inr] obtain r r1 p where *: "get_session d sid = Some r" "s_id r1 = s_id r"
      "p_session_id p = sid" "p_operation_kind p = the (s_pending_operation_kind r)"
      "p_operation_id p = s_pending_operation_id r"
      "d' = save_session now (clear_pending_operation r1) (d\<lparr>db_resolutions := tbl_add (db_resolutions d) p\<rparr>)"
      by (rule resolve_cases)
    have "durable d d'" unfolding *(6)
      by (rule durable_save [OF inv _ *(1)])
        (use * get_session_Some [OF *(1)] in \<open>auto simp: marker_kept_def clear_pending_operation_def tbl_add_def keeps_def
          deletion_requested_def\<close>)
    with Pair show ?thesis by simp
  qed
qed

lemma durable_delete_session:
  assumes "keeps d d1" "deletion_requested d1 sid"
  shows "durable d (delete_session sid d1)"
proof -
  let ?d = "delete_session sid d1"
  have req: "deletion_requested ?d i = deletion_requested d1 i" for i
    by (simp add: deletion_requested_def delete_session_def Let_def)
  have gone: "deleted_session ?d sid"
    using assms(2) by (simp add: deleted_session_def req) (auto simp: delete_session_def Let_def sess.remove_set)
  have "x \<in> set (db_sessions ?d)" if "x \<in> set (db_sessions d)" "s_id x \<noteq> sid" for x
    using that assms(1) by (simp add: delete_session_def Let_def sess.remove_set keeps_def)
  moreover have "rv \<in> set (db_revisions ?d)" if "rv \<in> set (db_revisions d)" "r_session_id rv \<noteq> sid" for rv
    using that assms(1) by (auto simp: delete_session_def Let_def keeps_def)
  moreover have "db_resolutions ?d = db_resolutions d1" by (simp add: delete_session_def Let_def)
  ultimately show ?thesis
    using assms(1) gone marker_kept_refl unfolding durable_def req keeps_def by metis
qed

lemma durable_confirm_deletion:
  assumes inv: "db_inv d" shows "durable d (snd (snd (confirm_deletion st del now d sid c)))"
proof -
  have k: "keeps d (record_deletion_intent now d sid)" by (intro keeps_intros keeps_refl)
  note gone = durable_delete_session [OF k intent_requested]
  show ?thesis
    by (auto simp: confirm_deletion_def Let_def gone durable_keeps [OF k]
        intro!: durable_calm [OF inv k] split: option.splits sum.splits)
qed

lemma durable_webhook:
  assumes inv: "db_inv d" shows "durable d (snd (receive_speakr_webhook lib st i now d req))"
proof -
  have event: "durable d d' \<and> db_sessions (d'\<lparr>db_deliveries := x\<rparr>) = db_sessions d'"
    if "apply_webhook_event lib st i now d payload = Inr (y, d')" for payload y d' x
    using that unfolding apply_webhook_event_def
    by (auto simp: Let_def intro!: durable_calm [OF inv] keeps_intros dest!: transition_calm webhook_session [OF inv]
        split: json.splits option.splits if_splits)
  have deliveries: "durable d (d'\<lparr>db_deliveries := x\<rparr>) = durable d d'" for d' x
    by (simp add: durable_def deleted_session_def deletion_requested_def marker_kept_def)
  show ?thesis unfolding receive_speakr_webhook_def
    by (rule transaction_durable)
      (auto simp: Let_def deliveries dest: event split: option.splits json.splits if_splits)
qed

subsection \<open>The worker\<close>

lemma durable_touch_lease: "touch_lease now d jid sid = Some d' \<Longrightarrow> durable d d'"
  by (auto simp: touch_lease_def intro!: durable_frames split: option.splits)

lemma durable_heartbeat: "durable d (snd (renew_job_lease now d jid))"
  by (auto simp: renew_job_lease_def Let_def intro!: durable_frames)

lemma durable_stale_fallback: "durable d (resolve_stale_fallback st now d jid sid)"
  by (auto simp: resolve_stale_fallback_def Let_def intro!: durable_frames)

lemma durable_claim: "durable d (snd (claim_job now d))"
  by (auto simp: claim_job_def Let_def intro!: durable_frames split: list.splits)

lemma durable_cancel: "durable d (worker_cancel_job now d jid)"
  by (intro durable_frames) simp

lemma durable_complete: "db_inv d \<Longrightarrow> durable d (complete_job now d jid sid)"
  by (auto simp: complete_job_def durable_cancel intro!: durable_calm keeps_intros split: option.splits dest!: live_Some)

lemma durable_requeue: "durable d (requeue_pending st now d jid sid c m)"
  by (auto simp: requeue_pending_def durable_cancel intro!: durable_frames split: option.splits)

lemma failure_states_calm:
  "await_retry sess = Inr r \<Longrightarrow> calm sess r" "give_up sess = Inr r \<Longrightarrow> calm sess r"
  "halt_transcription sess = Inr r \<Longrightarrow> calm sess r"
  by (auto simp: await_retry_def give_up_def halt_transcription_def intro: transition_calm split: if_splits)

lemma durable_fail_job:
  assumes "db_inv d" "fail_job st now d jid sid c m = Inr d'" shows "durable d d'"
  using assms
  by (auto simp: fail_job_def Let_def durable_cancel intro!: durable_calm [OF assms(1)] keeps_intros
      dest!: failure_states_calm live_Some split: option.splits if_splits)

lemma durable_mark_ambiguous:
  assumes "db_inv d" "get_session d sid = Some sess" "mark_ambiguous now m a job sess d = Inr d'"
  shows "durable d d'"
  using assms(3)
  by (auto simp: mark_ambiguous_def Let_def intro!: durable_calm [OF assms(1) _ assms(2)] keeps_intros
      dest!: failure_states_calm)

lemma durable_recover_one:
  assumes "db_inv d" "recover_one_abandoned_job st now m d jid cutoff = Inr (b, d')" shows "durable d d'"
  using assms
  by (auto simp: recover_one_abandoned_job_def Let_def is_ambiguous_def intro!: durable_frames
      dest: durable_mark_ambiguous [OF assms(1)] split: option.splits if_splits)

lemma durable_resolve_stale:
  assumes "db_inv d" "resolve_stale_processing st now m d jid sid = Inr d'" shows "durable d d'"
  using assms
  by (auto simp: resolve_stale_processing_def intro!: durable_frames durable_calm [OF assms(1)] keeps_intros
      dest!: failure_states_calm dest: durable_mark_ambiguous [OF assms(1)] split: option.splits if_splits)

lemma durable_scheduled: "durable d (snd (enqueue_scheduled_reconciliation st ids now d))"
proof -
  have "keeps d (snd (fold (\<lambda>(i, r) (n, d).
         let (_, created, d') = ensure_job (ids i) now d (s_id r) T_RECONCILE (ws_max_attempts st)
         in (if created then Suc n else n, d')) xs (0, d)))" for xs
    by (rule fold_invariant [where Q = "\<lambda>_. True" and P = "\<lambda>p. keeps d (snd p)"])
      (auto simp: case_prod_beta Let_def keeps_step(2))
  then show ?thesis unfolding enqueue_scheduled_reconciliation_def by (rule durable_keeps)
qed

lemma durable_begin_compensation: "durable d (snd (begin_compensation d cid))"
  by (auto simp: begin_compensation_def Let_def intro!: durable_frames split: option.splits)

lemma durable_finish_compensation: "durable d (finish_compensation st now d c ans)"
  by (auto simp: finish_compensation_def intro!: durable_frames keeps_intros split: option.splits sum.splits)

lemma durable_orphan: "durable d (snd (ensure_deletion_compensation i now d sid rid))"
  by (intro durable_frames) simp

subsection \<open>Every step\<close>

lemma reconcile_keeps:
  assumes "reconcile_transcript_data repr sha rid now d sess raw = Inr (rv, created, sess', d1)"
  shows "keeps d d1 \<and> calm sess sess'"
  using assms
proof (cases rule: reconcile_cases)
  case (existing segs)
  then show ?thesis
    by (auto simp: resume_existing_def Let_def transition_Inr_iff calm_def split: if_splits)
next
  case (adopted segs)
  have "keeps d (d\<lparr>db_revisions := db_revisions d @ [rv]\<rparr>)" by (auto simp: keeps_def deletion_requested_def)
  with adopted show ?thesis
    by (auto simp: adopt_new_revision_def Let_def transition_Inr_iff calm_def tbl_add_def keeps_step(10) split: if_splits)
qed

lemma entries_keeps:
  assumes "fold_result (\<lambda>d (i, entry). rbind (create_ledger_entry (ids i) now d sess' entry)
                (\<lambda>(_, d'). Inr d')) d1 xs = Inr d'" and "keeps d d1"
  shows "keeps d d'"
  by (rule fold_result_invariant [where P = "keeps d", OF assms])
    (auto simp: create_ledger_entry_def Let_def intro: keeps_step(6))

lemma durable_stage_body:
  assumes body: "stage_body st now d sess d'" and inv: "db_inv d" and row: "get_session d sid = Some sess"
  shows "durable d d'"
proof -
  note save = durable_calm [OF inv _ row]
  note store = durable_save [OF inv _ row]
  show ?thesis
    using body
  proof cases
    case b_resume
    then show ?thesis by (auto simp: resume_transcribing_def intro!: save dest: transition_calm split: if_splits)
  next
    case b_begin_upload
    then show ?thesis
      by (auto simp: begin_upload_def begin_pending_operation_def marker_kept_def intro!: store split: if_splits)
  next
    case b_ambiguous
    with row show ?thesis
      by (auto simp: fail_ambiguous_operation_def split: option.splits dest: durable_mark_ambiguous [OF inv])
  next
    case b_record_upload
    then show ?thesis
      by (auto simp: record_upload_def clear_pending_operation_def marker_kept_def Let_def intro!: store
          split: option.splits if_splits)
  next
    case b_begin_submission
    then show ?thesis
      by (auto simp: begin_submission_def begin_pending_operation_def marker_kept_def intro!: store
          dest: truthyD split: if_splits submission_mode.splits)
  next
    case b_record_submission
    then show ?thesis
      by (auto simp: record_submission_def clear_pending_operation_def marker_kept_def intro!: store)
  next
    case b_finish_transcribe
    then show ?thesis by (auto simp: finish_transcribe_def intro!: durable_frames)
  next
    case b_begin_reconcile
    then show ?thesis by (auto simp: begin_reconcile_def intro!: save dest: transition_calm split: if_splits)
  next
    case b_duration
    then show ?thesis by (auto simp: record_duration_def intro!: save split: option.splits)
  next
    case b_reconciled
    then show ?thesis
      by (auto simp: store_reconciled_def Let_def intro!: save keeps_intros dest!: reconcile_keeps split: if_splits)
  next
    case b_begin_extract
    then show ?thesis by (auto simp: begin_extract_def intro!: save dest: transition_calm split: if_splits)
  next
    case b_plan_extract
    then show ?thesis by (auto simp: plan_extract_def intro!: save dest: transition_calm split: if_splits)
  next
    case b_extracted
    then show ?thesis
      by (auto simp: store_extracted_def Let_def intro!: save keeps_intros dest!: transition_calm
          dest: entries_keeps split: if_splits)
  next
    case b_summary
    then show ?thesis by (auto simp: store_summary_def intro!: durable_frames)
  qed
qed

lemma durable_step:
  assumes "db_step d d'" "db_inv d" shows "durable d d'"
  using assms(1)
proof cases
  case w_checkpoint
  then show ?thesis using durable_touch_lease by blast
next
  case w_body
  then show ?thesis using durable_stage_body assms(2) by blast
next
  case w_fail
  then show ?thesis using durable_fail_job [OF assms(2)] by blast
next
  case w_recover
  then show ?thesis using durable_recover_one [OF assms(2)] by blast
next
  case w_stale
  then show ?thesis using durable_resolve_stale [OF assms(2)] by blast
qed (simp_all only: assms(2) durable_create_session durable_start_upload durable_finish_upload durable_create_job
    durable_cancel_job durable_retry_job durable_refresh durable_resolve durable_cancel_session
    durable_add_ledger_entry durable_verify durable_request_deletion durable_confirm_deletion durable_webhook
    durable_claim durable_cancel durable_complete durable_requeue durable_scheduled
    durable_orphan durable_begin_compensation durable_finish_compensation durable_heartbeat durable_stale_fallback)

subsection \<open>An upload in the example run\<close>

definition demo_m5 :: db where
  "demo_m5 = save_session 5 (begin_pending_operation ''o'' 5 demo_s3 ''upload'') demo_d4"

definition demo_ms :: SessionRecord where
  "demo_ms = (begin_pending_operation ''o'' 5 demo_s3 ''upload'')\<lparr>s_updated_at := 5, s_version := 4\<rparr>"

definition demo_m6 :: db where
  "demo_m6 = projr (record_upload 6 demo_m5 \<lparr>sr_recording_id = ''sp'', sr_status = ''PENDING'', sr_duration_seconds = None\<rparr> demo_ms)"

lemma demo_m5_rows: "get_session demo_m5 ''a'' = Some demo_ms" "get_job demo_m5 ''j'' = Some demo_j4"
  "demo_ms \<in> set (db_sessions demo_m5)" "s_pending_operation_kind demo_ms = Some ''upload''"
  "s_id demo_ms = ''a''" "s_pending_operation_id demo_ms = Some ''o''" "db_tombstones demo_m5 = []"
  by (simp_all add: demo_m5_def demo_ms_def d4 row_eval begin_pending_operation_def demo_s3_def demo_s2_def demo_s1_def
      new_session_def demo_create_def demo_j4_def demo_j3_def new_job_def empty_db_def)

lemma demo_uploads: "db_reachable demo_m5" "db_step demo_m5 demo_m6"
proof -
  have "begin_upload demo_worker ''o'' 5 demo_d4 demo_s3 = Inr (Upload_call ''o'', demo_m5)"
    by (simp add: begin_upload_def demo_m5_def demo_s3_def demo_s2_def demo_s1_def new_session_def demo_create_def
        demo_api_def media_destination_def)
  then have "db_step demo_d4 demo_m5"
    by (intro w_body [where sid = "''a''" and sess = demo_s3, OF _ b_begin_upload])
      (simp_all add: d4 row_eval demo_s3_def demo_s2_def demo_s1_def new_session_def demo_create_def empty_db_def)
  then show "db_reachable demo_m5" by (rule reachable_step [OF demo_reachable(4)])
  show "db_step demo_m5 demo_m6"
    by (rule w_body [OF demo_m5_rows(1)], rule b_record_upload [of 6 _
          "\<lparr>sr_recording_id = ''sp'', sr_status = ''PENDING'', sr_duration_seconds = None\<rparr>"])
      (simp add: demo_m6_def record_upload_def)
qed


subsection \<open>Properties\<close>

lemma durable_steps:
  assumes "db_step\<^sup>*\<^sup>* d d'" "db_inv d"
  shows "db_inv d' \<and> (\<forall>i. deletion_requested d i \<longrightarrow> deletion_requested d' i) \<and>
    (\<forall>rv \<in> set (db_revisions d). rv \<in> set (db_revisions d') \<or> deletion_requested d' (r_session_id rv)) \<and>
    set (db_resolutions d) \<subseteq> set (db_resolutions d')"
  using assms
proof (induction rule: rtranclp_induct)
  case (step y z)
  then have "durable y z" "db_inv z" using durable_step inv_step by auto
  with step show ?case unfolding durable_def deleted_session_def by (metis subset_trans)
qed auto

text \<open>C7: the history is append-only. However many requests and worker transactions follow, a deletion
  that was requested stays requested, an operator's resolution of an upload stays on record, and a
  stored transcript revision is still there, unchanged, unless its session's deletion was requested.\<close>

theorem history_append_only:
  assumes "db_reachable d" "db_step\<^sup>*\<^sup>* d d'"
  shows "(\<forall>i. deletion_requested d i \<longrightarrow> deletion_requested d' i) \<and>
    set (db_resolutions d) \<subseteq> set (db_resolutions d') \<and>
    (\<forall>rv \<in> set (db_revisions d). rv \<in> set (db_revisions d') \<or> deletion_requested d' (r_session_id rv))"
  using durable_steps [OF assms(2) reachable_inv [OF assms(1)]] by auto

theorem history_append_only_witness:
  "demo_r5 \<in> set (db_revisions demo_d7) \<or> deletion_requested demo_d7 (r_session_id demo_r5)"
proof -
  have "db_step\<^sup>*\<^sup>* demo_d5 demo_d7" using demo_steps(6,7) by auto
  from history_append_only [OF demo_reachable(3) this] show ?thesis by (simp add: d5(1))
qed

text \<open>C6: no upload is forgotten. When a session marks an upload in flight, the next transaction of
  any process leaves the marker as it is, or the session then names the recording or its recorded
  submission, or an operator resolved this very operation, or the session is gone after a deletion
  was requested.\<close>

theorem upload_never_forgotten:
  assumes "db_reachable d" "db_step d d'" "r \<in> set (db_sessions d)"
    and "s_pending_operation_kind r = Some ''upload''"
  shows "(\<exists>r' \<in> set (db_sessions d'). s_id r' = s_id r \<and>
      (s_pending_operation_kind r' = Some ''upload'' \<and> s_pending_operation_id r' = s_pending_operation_id r \<or>
       s_speakr_recording_id r' \<noteq> None \<or>
       s_pending_operation_kind r' = None \<and> s_transcription_submitted_at r' \<noteq> None \<or>
       (\<exists>p \<in> set (db_resolutions d'). p_session_id p = s_id r \<and> p_operation_kind p = ''upload'' \<and>
          p_operation_id p = s_pending_operation_id r))) \<or>
    deletion_requested d' (s_id r) \<and> s_id r \<notin> s_id ` set (db_sessions d')"
proof -
  have "durable d d'" by (rule durable_step [OF assms(2) reachable_inv [OF assms(1)]])
  with assms(3) have "deleted_session d' (s_id r) \<or> (\<exists>r' \<in> set (db_sessions d'). s_id r' = s_id r \<and> marker_kept d' r r')"
    unfolding durable_def by blast
  with assms(4) show ?thesis unfolding deleted_session_def marker_kept_def by blast
qed

theorem upload_never_forgotten_witness:
  "s_pending_operation_kind demo_ms = Some ''upload'' \<and>
   ((\<exists>r' \<in> set (db_sessions demo_m6). s_id r' = s_id demo_ms \<and>
      (s_pending_operation_kind r' = Some ''upload'' \<and> s_pending_operation_id r' = s_pending_operation_id demo_ms \<or>
       s_speakr_recording_id r' \<noteq> None \<or>
       s_pending_operation_kind r' = None \<and> s_transcription_submitted_at r' \<noteq> None \<or>
       (\<exists>p \<in> set (db_resolutions demo_m6). p_session_id p = s_id demo_ms \<and> p_operation_kind p = ''upload'' \<and>
          p_operation_id p = s_pending_operation_id demo_ms))) \<or>
    deletion_requested demo_m6 (s_id demo_ms) \<and> s_id demo_ms \<notin> s_id ` set (db_sessions demo_m6))"
  by (rule conjI [OF demo_m5_rows(4)], rule upload_never_forgotten [OF demo_uploads demo_m5_rows(3,4)])

end
