(* ===== verification/Worker_Run.thy ===== *)
theory Worker_Run
  imports Reachable
begin

text \<open>
  A whole run of the worker: \<^verbatim>\<open>run_once\<close> and \<^verbatim>\<open>_process\<close> of \<^verbatim>\<open>evidence_worker/worker.py\<close>, composed of
  the transactions of the theory \<open>Worker\<close>, the calls to the providers between them, and the
  exceptions that connect them. Other processes commit between any two transactions, and
  between the load of a row and the commit of its change; there the version column makes the
  commit fail, \<^verbatim>\<open>StaleDataError\<close>. What the others commit and what the providers answer is the
  environment of the run.
\<close>

subsection \<open>The environment and the state of a run\<close>

text \<open>
  The natural number is the moment of the run. A new identifier depends on the moment and may
  depend on the database: \<^verbatim>\<open>uuid4\<close> does not collide with an identifier in use.
\<close>

record run_env =
  en_settings :: worker_settings
  en_now :: "nat \<Rightarrow> int"
  en_isoformat :: "int \<Rightarrow> string"
  en_id :: "nat \<Rightarrow> db \<Rightarrow> string"
  en_ids :: "nat \<Rightarrow> db \<Rightarrow> nat \<Rightarrow> string"
  en_others :: "nat \<Rightarrow> db \<Rightarrow> db"
  en_claim_lost :: "nat \<Rightarrow> bool"
  en_repr :: "json \<Rightarrow> string"
  en_sha256 :: "string \<Rightarrow> string"
  en_mode :: submission_mode
  en_upload :: "nat \<Rightarrow> string \<Rightarrow> string \<Rightarrow> string \<Rightarrow> (provider_exc, SpeakrRecording) result"
  en_queue :: "nat \<Rightarrow> string \<Rightarrow> string \<Rightarrow> (provider_exc, string) result"
  en_recording :: "nat \<Rightarrow> string \<Rightarrow> (provider_exc, SpeakrRecording) result"
  en_transcript :: "nat \<Rightarrow> string \<Rightarrow> (provider_exc, json list) result"
  en_delete :: "nat \<Rightarrow> string \<Rightarrow> (AdapterError, unit) result"
  en_extract :: "nat \<Rightarrow> string \<Rightarrow> string \<Rightarrow> string \<Rightarrow> TranscriptSegment list \<Rightarrow>
     (provider_exc, LedgerEntryCreate list) result"
  en_consolidate :: "nat \<Rightarrow> string \<Rightarrow> string \<Rightarrow> json list \<Rightarrow> (provider_exc, json) result"
  en_summarize :: "nat \<Rightarrow> string \<Rightarrow> string \<Rightarrow> string \<Rightarrow> json list \<Rightarrow> json list option \<Rightarrow>
     (provider_exc, SummaryThemeCreate list) result"

datatype provider_call =
    Call_upload string string
  | Call_queue string string
  | Call_recording string
  | Call_transcript string
  | Call_delete string
  | Call_extract string
  | Call_consolidate
  | Call_summarize string

datatype run_event = Committed db | Called provider_call

record run_state =
  rs_tick :: nat
  rs_db :: db
  rs_log :: "run_event list"

datatype worker_exc =
    Job_cancelled
  | Transcription_pending string
  | Transcription_failed string
  | Stale_data
  | Integrity_error
  | Provider_failed provider_exc

type_synonym 'a run = "run_state \<Rightarrow> (worker_exc, 'a) result \<times> run_state"

definition rn_return :: "'a \<Rightarrow> 'a run" where
  "rn_return x s = (Inr x, s)"

definition rn_raise :: "worker_exc \<Rightarrow> 'a run" where
  "rn_raise e s = (Inl e, s)"

definition rn_bind :: "'a run \<Rightarrow> ('a \<Rightarrow> 'b run) \<Rightarrow> 'b run" where
  "rn_bind m f s = (case m s of (Inl e, s') \<Rightarrow> (Inl e, s') | (Inr x, s') \<Rightarrow> f x s')"

definition rn_catch :: "'a run \<Rightarrow> (worker_exc \<Rightarrow> 'a run) \<Rightarrow> 'a run" where
  "rn_catch m h s = (case m s of (Inl e, s') \<Rightarrow> h e s' | (Inr x, s') \<Rightarrow> (Inr x, s'))"

subsection \<open>Transactions and calls\<close>

text \<open>
  \<open>d0\<close> is the database at the load and \<open>d0'\<close> what the transaction would make of it, \<open>d\<close> the database
  at the commit. The commit loses the race when a row that it writes has another version by then.
\<close>

definition lost_race :: "db \<Rightarrow> db \<Rightarrow> db \<Rightarrow> string \<Rightarrow> string \<Rightarrow> bool" where
  "lost_race d0 d0' d jid sid \<longleftrightarrow>
     (get_job d0' jid \<noteq> get_job d0 jid \<and>
        map_option j_version (get_job d jid) \<noteq> map_option j_version (get_job d0 jid)) \<or>
     (get_session d0' sid \<noteq> get_session d0 sid \<and>
        map_option s_version (get_session d sid) \<noteq> map_option s_version (get_session d0 sid))"

text \<open>
  A transaction of the worker's session on a job and its session: \<open>f k d0 d\<close> is what it does at
  moment \<open>k\<close> when it read \<open>d0\<close> and commits on \<open>d\<close>. With \<open>reload\<close> it reads the rows
  anew; without, it goes on with the objects of the transaction before, which
  \<^verbatim>\<open>expire_on_commit=False\<close> keeps. A row inserted for a session that is gone by then violates
  its foreign key.
\<close>

definition load_db :: "run_env \<Rightarrow> bool \<Rightarrow> run_state \<Rightarrow> db" where
  "load_db env reload s = (if reload then en_others env (2 * rs_tick s) (rs_db s) else rs_db s)"

definition commit_db :: "run_env \<Rightarrow> bool \<Rightarrow> run_state \<Rightarrow> db" where
  "commit_db env reload s = en_others env (2 * rs_tick s + 1) (load_db env reload s)"

definition at_db :: "run_state \<Rightarrow> db \<Rightarrow> run_state" where
  "at_db s d = s\<lparr>rs_tick := Suc (rs_tick s), rs_db := d\<rparr>"

definition committed :: "run_state \<Rightarrow> db \<Rightarrow> run_state" where
  "committed s d = s\<lparr>rs_tick := Suc (rs_tick s), rs_db := d, rs_log := rs_log s @ [Committed d]\<rparr>"

definition txn ::
  "run_env \<Rightarrow> bool \<Rightarrow> string \<Rightarrow> string \<Rightarrow> (nat \<Rightarrow> db \<Rightarrow> db \<Rightarrow> (py_error, 'a \<times> db) result) \<Rightarrow> 'a run" where
  "txn env reload jid sid f s =
     (let d0 = load_db env reload s; d = commit_db env reload s
      in case f (rs_tick s) d0 d0 of
           Inl e \<Rightarrow> (Inl (Provider_failed (Raised e)), at_db s d0)
         | Inr (x, d0') \<Rightarrow>
             if d0' = d0 then (Inr x, at_db s d0)
             else if lost_race d0 d0' d jid sid then (Inl Stale_data, at_db s d)
             else if get_session d0 sid \<noteq> None \<and> get_session d sid = None then (Inl Integrity_error, at_db s d)
             else case f (rs_tick s) d0 d of
                 Inl e \<Rightarrow> (Inl (Provider_failed (Raised e)), at_db s d)
               | Inr (x', d') \<Rightarrow> (Inr x', committed s d'))"

text \<open>A transaction that writes no versioned row, or holds a row lock.\<close>

definition atomic :: "run_env \<Rightarrow> (nat \<Rightarrow> db \<Rightarrow> 'a \<times> db) \<Rightarrow> 'a run" where
  "atomic env f s =
     (let (x, d') = f (rs_tick s) (load_db env True s) in (Inr x, committed s d'))"

definition remote :: "run_env \<Rightarrow> provider_call \<Rightarrow> (nat \<Rightarrow> 'a) \<Rightarrow> 'a run" where
  "remote env c answer s =
     (Inr (answer (rs_tick s)), (at_db s (load_db env True s))\<lparr>rs_log := rs_log s @ [Called c]\<rparr>)"

definition raise_answer :: "(provider_exc, 'a) result \<Rightarrow> 'a run" where
  "raise_answer r = (case r of Inl e \<Rightarrow> rn_raise (Provider_failed e) | Inr x \<Rightarrow> rn_return x)"

definition touch :: "run_env \<Rightarrow> string \<Rightarrow> string \<Rightarrow> bool run" where
  "touch env jid sid = txn env True jid sid (\<lambda>k d0 d.
     case touch_lease (en_now env k) d jid sid of
       None \<Rightarrow> Inr (False, d) | Some d' \<Rightarrow> Inr (True, d'))"

definition on_row :: "db \<Rightarrow> string \<Rightarrow> (SessionRecord \<Rightarrow> (py_error, 'a) result) \<Rightarrow> (py_error, 'a) result" where
  "on_row d sid f = (case get_session d sid of None \<Rightarrow> Inl (KeyError sid) | Some sess \<Rightarrow> f sess)"

definition checkpointed ::
  "run_env \<Rightarrow> string \<Rightarrow> string \<Rightarrow> (nat \<Rightarrow> db \<Rightarrow> JobRecord \<Rightarrow> SessionRecord \<Rightarrow> (py_error, 'a \<times> db) result) \<Rightarrow>
   'a option run" where
  "checkpointed env jid sid f =
     rn_bind (touch env jid sid) (\<lambda>ok.
       if \<not> ok then rn_return None
       else txn env True jid sid (\<lambda>k d0 d. case reload_checked d0 jid sid of
              None \<Rightarrow> Inr (None, d)
            | Some (job, _) \<Rightarrow> on_row d sid (\<lambda>sess. rbind (f k d job sess) (\<lambda>(x, d'). Inr (Some x, d')))))"

definition leased_provider_call ::
  "run_env \<Rightarrow> string \<Rightarrow> string \<Rightarrow> provider_call \<Rightarrow> (nat \<Rightarrow> (provider_exc, 'a) result) \<Rightarrow> 'a run" where
  "leased_provider_call env jid sid c answer =
     rn_bind (checkpointed env jid sid (\<lambda>k d job sess. Inr ((), d))) (\<lambda>ok.
       case ok of None \<Rightarrow> rn_raise Job_cancelled
       | Some _ \<Rightarrow> rn_bind (remote env c answer) raise_answer)"

text \<open>The transaction after a call: \<open>None\<close> when the job was cancelled meanwhile.\<close>

definition after_remote ::
  "run_env \<Rightarrow> string \<Rightarrow> string \<Rightarrow> (nat \<Rightarrow> db \<Rightarrow> SessionRecord \<Rightarrow> (py_error, 'a \<times> db) result) \<Rightarrow>
   'a option run" where
  "after_remote env jid sid f =
     txn env True jid sid (\<lambda>k d0 d. case live d0 jid sid of
         None \<Rightarrow> Inr (None, d)
       | Some _ \<Rightarrow> on_row d sid (\<lambda>sess. rbind (f k d sess) (\<lambda>(x, d'). Inr (Some x, d'))))"

subsection \<open>The texts of the worker\<close>

definition py_opt :: "string option \<Rightarrow> string" where
  "py_opt v = (case v of None \<Rightarrow> ''None'' | Some s \<Rightarrow> s)"

definition session_state_value :: "SessionState \<Rightarrow> string" where
  "session_state_value s = (case s of
      S_CREATED \<Rightarrow> ''CREATED'' | S_UPLOADING \<Rightarrow> ''UPLOADING'' | S_UPLOADED \<Rightarrow> ''UPLOADED''
    | S_TRANSCRIBING \<Rightarrow> ''TRANSCRIBING'' | S_RECONCILING \<Rightarrow> ''RECONCILING''
    | S_TRANSCRIPT_READY \<Rightarrow> ''TRANSCRIPT_READY'' | S_EXTRACTING \<Rightarrow> ''EXTRACTING''
    | S_AWAITING_REVIEW \<Rightarrow> ''AWAITING_REVIEW'' | S_COMPLETE \<Rightarrow> ''COMPLETE''
    | S_RETRY_PENDING \<Rightarrow> ''RETRY_PENDING'' | S_FAILED \<Rightarrow> ''FAILED'' | S_CANCELLED \<Rightarrow> ''CANCELLED''
    | S_DELETE_PENDING \<Rightarrow> ''DELETE_PENDING'' | S_DELETED \<Rightarrow> ''DELETED'')"

definition py_message :: "py_error \<Rightarrow> string" where
  "py_message e = (case e of
      ValueError m \<Rightarrow> m | EvidenceValidationError m \<Rightarrow> m
    | InvalidStateTransition a b \<Rightarrow>
        ''cannot transition '' @ session_state_value a @ '' -> '' @ session_state_value b
    | KeyError k \<Rightarrow> k | ArithmeticError \<Rightarrow> [] | IndexError \<Rightarrow> ''list index out of range'')"

definition ambiguous_message :: "run_env \<Rightarrow> SessionRecord \<Rightarrow> string" where
  "ambiguous_message env sess =
     ''a previous '' @ py_opt (s_pending_operation_kind sess) @ '' attempt to the media provider (operation '' @
     py_opt (s_pending_operation_id sess) @ '', started '' @
     (case s_pending_operation_started_at sess of None \<Rightarrow> ''unknown'' | Some t \<Rightarrow> en_isoformat env t) @
     '') may have been accepted upstream before this worker crashed or its lease expired; the provider has no idempotency key or lookup-by-key endpoint, so this cannot be safely auto-retried. An operator must check the provider for a stray recording and resolve via POST /api/sessions/{id}/upload-operation/resolve before retrying.''"

definition lease_message :: "db \<Rightarrow> string \<Rightarrow> string" where
  "lease_message d sid =
     ''worker lease expired while a non-idempotent provider call ('' @
     py_opt (Option.bind (get_session d sid) s_pending_operation_kind) @ '', operation '' @
     py_opt (Option.bind (get_session d sid) s_pending_operation_id) @
     '') may still have been in flight; safe auto-retry is not possible without upstream idempotency support, so this job requires operator reconciliation instead of being requeued''"

definition race_message :: "run_env \<Rightarrow> db \<Rightarrow> string \<Rightarrow> string \<Rightarrow> string" where
  "race_message env d jid sid =
     (if (case get_job d jid of None \<Rightarrow> False | Some job \<Rightarrow> is_ambiguous (en_settings env) job (get_session d sid))
      then ''processing lost a concurrency race while a non-idempotent provider operation was pending; operation '' @
        py_opt (Option.bind (get_session d sid) s_pending_operation_id) @ '' requires manual reconciliation''
      else ''processing lost an optimistic concurrency race; the transaction was rolled back before retry'')"

subsection \<open>Processing a job\<close>

datatype ProcessOutcome = STEP_COMPLETED | ALREADY_FINALIZED

definition cancel_run :: "run_env \<Rightarrow> string \<Rightarrow> string \<Rightarrow> unit run" where
  "cancel_run env jid sid = txn env True jid sid (\<lambda>k d0 d. Inr ((), worker_cancel_job (en_now env k) d jid))"

definition finalize_cancelled :: "run_env \<Rightarrow> string \<Rightarrow> string \<Rightarrow> ProcessOutcome run" where
  "finalize_cancelled env jid sid = rn_bind (cancel_run env jid sid) (\<lambda>_. rn_return ALREADY_FINALIZED)"

definition attempt_compensation :: "run_env \<Rightarrow> string \<Rightarrow> bool run" where
  "attempt_compensation env cid =
     rn_bind (atomic env (\<lambda>k d. begin_compensation d cid)) (\<lambda>begun.
       case begun of
         None \<Rightarrow> rn_return True
       | Some c \<Rightarrow>
           rn_bind (remote env (Call_delete (c_recording_id c)) (\<lambda>k. en_delete env k (c_recording_id c))) (\<lambda>answer.
             atomic env (\<lambda>k d.
               (case answer of Inr _ \<Rightarrow> True | Inl exc \<Rightarrow> provider_deletion_not_found exc,
                finish_compensation (en_settings env) (en_now env k) d c answer))))"

definition compensate_orphan :: "run_env \<Rightarrow> string \<Rightarrow> string \<Rightarrow> bool run" where
  "compensate_orphan env sid rid =
     rn_bind (atomic env (\<lambda>k d. let (c, d') = ensure_deletion_compensation (en_id env k d) (en_now env k) d sid rid
                                 in (c_id c, d')))
       (attempt_compensation env)"

text \<open>The upload decision, with the session of the checkpoint; an ambiguous one is settled at once.\<close>

definition upload_stage ::
  "run_env \<Rightarrow> nat \<Rightarrow> db \<Rightarrow> string \<Rightarrow> SessionRecord \<Rightarrow> (py_error, (upload_plan \<times> SessionRecord) \<times> db) result" where
  "upload_stage env k d jid sess =
     rbind (begin_upload (en_settings env) (en_id env k d) (en_now env k) d sess) (\<lambda>(plan, d').
       if plan = Upload_ambiguous
       then rbind (fail_ambiguous_operation (en_now env k) (ambiguous_message env sess) d jid sess) (\<lambda>d''.
              Inr ((plan, sess), d''))
       else Inr ((plan, sess), d'))"

definition submission_stage ::
  "run_env \<Rightarrow> nat \<Rightarrow> db \<Rightarrow> string \<Rightarrow> SessionRecord \<Rightarrow> (py_error, submission_plan \<times> db) result" where
  "submission_stage env k d jid sess =
     rbind (begin_submission (en_settings env) (en_mode env) (en_id env k d) (en_now env k) d sess) (\<lambda>(plan, d').
       if plan = Submission_ambiguous
       then rbind (fail_ambiguous_operation (en_now env k) (ambiguous_message env sess) d jid sess) (\<lambda>d''.
              Inr (plan, d''))
       else Inr (plan, d'))"

definition or_cancelled :: "run_env \<Rightarrow> string \<Rightarrow> string \<Rightarrow> 'a option run \<Rightarrow> ('a \<Rightarrow> ProcessOutcome run) \<Rightarrow> ProcessOutcome run" where
  "or_cancelled env jid sid m f =
     rn_bind m (\<lambda>r. case r of None \<Rightarrow> finalize_cancelled env jid sid | Some x \<Rightarrow> f x)"

definition finish_transcription :: "run_env \<Rightarrow> string \<Rightarrow> string \<Rightarrow> ProcessOutcome run" where
  "finish_transcription env jid sid =
     or_cancelled env jid sid
       (checkpointed env jid sid (\<lambda>k d job sess.
          rbind (finish_transcribe (en_settings env) (en_id env k d) (en_now env k) d (s_id sess)) (\<lambda>d'. Inr ((), d'))))
       (\<lambda>_. rn_return STEP_COMPLETED)"

definition submit_transcription :: "run_env \<Rightarrow> string \<Rightarrow> string \<Rightarrow> ProcessOutcome run" where
  "submit_transcription env jid sid =
     or_cancelled env jid sid (checkpointed env jid sid (\<lambda>k d job sess. submission_stage env k d jid sess)) (\<lambda>plan.
       case plan of
         Submission_ambiguous \<Rightarrow> rn_return ALREADY_FINALIZED
       | Submission_call rid op \<Rightarrow>
           rn_bind (leased_provider_call env jid sid (Call_queue rid op) (\<lambda>k. en_queue env k rid op)) (\<lambda>_.
             or_cancelled env jid sid
               (after_remote env jid sid (\<lambda>k d sess.
                  rbind (record_submission (en_now env k) d sess) (\<lambda>d'. Inr ((), d'))))
               (\<lambda>_. finish_transcription env jid sid))
       | _ \<Rightarrow> finish_transcription env jid sid)"

definition upload_media :: "run_env \<Rightarrow> string \<Rightarrow> string \<Rightarrow> SessionRecord \<Rightarrow> string \<Rightarrow> ProcessOutcome run" where
  "upload_media env jid sid sess op =
     rn_bind (leased_provider_call env jid sid (Call_upload (the (s_media_path sess)) op)
                (\<lambda>k. en_upload env k (the (s_media_path sess)) (s_title sess) op)) (\<lambda>uploaded.
       rn_bind (after_remote env jid sid (\<lambda>k d sess.
                  rbind (record_upload (en_now env k) d uploaded sess) (\<lambda>d'. Inr ((), d')))) (\<lambda>r.
         case r of
           None \<Rightarrow> rn_bind (compensate_orphan env sid (sr_recording_id uploaded))
                     (\<lambda>_. finalize_cancelled env jid sid)
         | Some _ \<Rightarrow> submit_transcription env jid sid))"

definition process_transcribe :: "run_env \<Rightarrow> string \<Rightarrow> string \<Rightarrow> ProcessOutcome run" where
  "process_transcribe env jid sid =
     rn_bind (txn env False jid sid (\<lambda>k d0 d. on_row d sid (upload_stage env k d jid))) (\<lambda>(plan, sess).
       case plan of
         Upload_ambiguous \<Rightarrow> rn_return ALREADY_FINALIZED
       | Upload_known \<Rightarrow> submit_transcription env jid sid
       | Upload_call op \<Rightarrow> upload_media env jid sid sess op)"

text \<open>Reconciliation, from the recording on; \<open>rid\<close> is the session's recording as loaded.\<close>

definition store_transcript :: "run_env \<Rightarrow> string \<Rightarrow> string \<Rightarrow> string \<Rightarrow> ProcessOutcome run" where
  "store_transcript env jid sid rid =
     rn_bind (leased_provider_call env jid sid (Call_transcript rid) (\<lambda>k. en_transcript env k rid)) (\<lambda>raw.
       or_cancelled env jid sid
         (after_remote env jid sid (\<lambda>k d sess.
            rbind (store_reconciled (en_settings env) (en_repr env) (en_sha256 env) (en_ids env k d 0) (en_ids env k d 1)
                     (en_now env k) d raw sess) (\<lambda>d'. Inr ((), d'))))
         (\<lambda>_. rn_return STEP_COMPLETED))"

definition poll_recording :: "run_env \<Rightarrow> string \<Rightarrow> string \<Rightarrow> string option \<Rightarrow> ProcessOutcome run" where
  "poll_recording env jid sid recording =
     (if \<not> truthy recording
      then rn_raise (Provider_failed (Raised (ValueError ''session has no Speakr recording id'')))
      else
        rn_bind (leased_provider_call env jid sid (Call_recording (the recording))
                   (\<lambda>k. en_recording env k (the recording))) (\<lambda>rec.
          or_cancelled env jid sid
            (after_remote env jid sid (\<lambda>k d sess.
               rbind (record_duration (en_now env k) d (sr_duration_seconds rec) sess) (\<lambda>d'. Inr ((), d'))))
            (\<lambda>_. let status = upper (strip (sr_status rec))
                  in case recording_status_of (sr_status rec) of
                       Recording_failed \<Rightarrow>
                         rn_raise (Transcription_failed (''Speakr transcription ended with status '' @ status))
                     | Recording_pending \<Rightarrow>
                         rn_raise (Transcription_pending (''Speakr transcription status is '' @
                           (if status = [] then ''UNKNOWN'' else status)))
                     | Recording_ready \<Rightarrow> store_transcript env jid sid (the recording))))"

text \<open>After a transition the session is loaded again, otherwise the loaded one is used.\<close>

definition process_reconcile :: "run_env \<Rightarrow> string \<Rightarrow> string \<Rightarrow> SessionRecord \<Rightarrow> ProcessOutcome run" where
  "process_reconcile env jid sid sess =
     (if s_state sess \<in> {S_TRANSCRIBING, S_TRANSCRIPT_READY, S_AWAITING_REVIEW, S_COMPLETE, S_RETRY_PENDING}
      then or_cancelled env jid sid
             (checkpointed env jid sid (\<lambda>k d job sess. Inr (s_speakr_recording_id sess, d)))
             (poll_recording env jid sid)
      else poll_recording env jid sid (s_speakr_recording_id sess))"

definition process_extract :: "run_env \<Rightarrow> string \<Rightarrow> string \<Rightarrow> ProcessOutcome run" where
  "process_extract env jid sid =
     or_cancelled env jid sid
       (checkpointed env jid sid (\<lambda>k d job sess.
          rbind (plan_extract (en_now env k) d sess) (\<lambda>(plan, d'). Inr ((plan, s_title sess), d'))))
       (\<lambda>(plan, title). case plan of
            None \<Rightarrow> rn_return STEP_COMPLETED
          | Some rv \<Rightarrow>
              rn_bind (leased_provider_call env jid sid (Call_extract (r_id rv))
                         (\<lambda>k. en_extract env k sid title (r_id rv) (r_segments rv))) (\<lambda>entries.
                or_cancelled env jid sid
                  (after_remote env jid sid (\<lambda>k d sess.
                     rbind (store_extracted (en_settings env) (en_ids env k d) (en_id env k d) (en_now env k) d
                              entries sess) (\<lambda>d'. Inr ((), d'))))
                  (\<lambda>_. rn_return STEP_COMPLETED)))"

subsection \<open>Summaries\<close>

definition entry_json :: "LedgerEntryRecord \<Rightarrow> int \<times> int \<Rightarrow> json" where
  "entry_json e sp = JObj [
     (''id'', JStr (e_id e)), (''topic'', JStr (e_topic e)),
     (''exact_coach_feedback'', json_opt (e_exact_coach_feedback e)),
     (''interpretation'', json_opt (e_interpretation e)), (''applies_to'', json_opt (e_applies_to e)),
     (''exercise_or_requested_change'', json_opt (e_exercise_or_requested_change e)),
     (''next_action_and_owner'', json_opt (e_next_action_and_owner e)),
     (''start_ms'', JInt (fst sp)), (''end_ms'', JInt (snd sp))]"

definition summary_payload :: "LedgerEntryRecord list \<Rightarrow> (py_error, json list) result" where
  "summary_payload records = map_result (\<lambda>e. rbind (entry_span e) (\<lambda>sp. Inr (entry_json e sp))) records"

text \<open>The groups of a consolidation; anything that is not a sequence of objects raises inside the
  \<^verbatim>\<open>try\<close>, and then there are none.\<close>

definition group_json :: "json \<Rightarrow> json option" where
  "group_json g = (case g of
      JObj kvs \<Rightarrow> Some (JObj [(''canonical_topic'', obj_get kvs ''canonical_topic'' (JStr [])),
                              (''entry_ids'', obj_get kvs ''entry_ids'' (JList []))])
    | _ \<Rightarrow> None)"

definition pre_groups_of :: "(provider_exc, json) result \<Rightarrow> json list option" where
  "pre_groups_of answer = (case answer of
      Inr (JList gs) \<Rightarrow> those (map group_json gs)
    | Inr (JObj []) \<Rightarrow> Some []
    | Inr (JStr []) \<Rightarrow> Some []
    | _ \<Rightarrow> None)"

definition process_summarize :: "run_env \<Rightarrow> string \<Rightarrow> string \<Rightarrow> ProcessOutcome run" where
  "process_summarize env jid sid =
     rn_bind (txn env False jid sid (\<lambda>k d0 d. on_row d sid (\<lambda>sess.
         rbind (summary_source d sess) (\<lambda>(rv, records).
           rbind (summary_payload records) (\<lambda>payload. Inr ((rv, records, payload, s_title sess), d))))))
       (\<lambda>(rv, records, payload, title).
         if records = [] then rn_return STEP_COMPLETED
         else
           rn_bind (remote env Call_consolidate (\<lambda>k. en_consolidate env k sid title payload)) (\<lambda>answer.
             rn_bind (leased_provider_call env jid sid (Call_summarize (r_id rv))
                        (\<lambda>k. en_summarize env k sid title (r_id rv) payload (pre_groups_of answer))) (\<lambda>themes.
               or_cancelled env jid sid
                 (after_remote env jid sid (\<lambda>k d sess.
                    rbind (store_summary (en_id env k d) (en_now env k) d rv records themes sess) (\<lambda>d'. Inr ((), d'))))
                 (\<lambda>_. rn_return STEP_COMPLETED))))"

definition enter_stage :: "run_env \<Rightarrow> nat \<Rightarrow> db \<Rightarrow> JobRecord \<Rightarrow> SessionRecord \<Rightarrow> (py_error, db) result" where
  "enter_stage env k d job sess =
     (case j_type job of
        T_TRANSCRIBE \<Rightarrow> resume_transcribing (en_now env k) d sess
      | T_RECONCILE \<Rightarrow> begin_reconcile (en_now env k) d sess
      | T_EXTRACT \<Rightarrow> begin_extract (en_now env k) d sess
      | T_SUMMARIZE \<Rightarrow> Inr d)"

definition process_job :: "run_env \<Rightarrow> string \<Rightarrow> string \<Rightarrow> ProcessOutcome run" where
  "process_job env jid sid =
     or_cancelled env jid sid
       (checkpointed env jid sid (\<lambda>k d job sess.
          rbind (enter_stage env k d job sess) (\<lambda>d'. Inr ((j_type job, sess), d'))))
       (\<lambda>(t, sess). case t of
            T_TRANSCRIBE \<Rightarrow> process_transcribe env jid sid
          | T_RECONCILE \<Rightarrow> process_reconcile env jid sid sess
          | T_EXTRACT \<Rightarrow> process_extract env jid sid
          | T_SUMMARIZE \<Rightarrow> process_summarize env jid sid)"

subsection \<open>One run\<close>

text \<open>The exceptions of a provider or of Python that \<^verbatim>\<open>run_once\<close> catches, with code and message; the
  others leave it.\<close>

definition caught :: "provider_exc \<Rightarrow> (string \<times> string) option" where
  "caught e = (case e of
      Coded a \<Rightarrow> Some (ae_code a, ae_message a)
    | Os_error m \<Rightarrow> Some (''worker_error'', m)
    | Raised p \<Rightarrow> if is_value_error p then Some (''worker_error'', py_message p) else None
    | _ \<Rightarrow> None)"

definition fail_run :: "run_env \<Rightarrow> string \<Rightarrow> string \<Rightarrow> string \<Rightarrow> string \<Rightarrow> unit run" where
  "fail_run env jid sid code message =
     txn env True jid sid (\<lambda>k d0 d.
       rbind (fail_job (en_settings env) (en_now env k) d jid sid code message) (\<lambda>d'. Inr ((), d')))"

definition handle_failure :: "run_env \<Rightarrow> string \<Rightarrow> string \<Rightarrow> worker_exc \<Rightarrow> unit run" where
  "handle_failure env jid sid e =
     (case e of
        Job_cancelled \<Rightarrow> cancel_run env jid sid
      | Transcription_pending m \<Rightarrow>
          txn env True jid sid (\<lambda>k d0 d.
            Inr ((), requeue_pending (en_settings env) (en_now env k) d jid sid ''transcription_pending'' m))
      | Transcription_failed m \<Rightarrow> fail_run env jid sid ''transcription_failed'' m
      | Provider_failed p \<Rightarrow>
          (case caught p of None \<Rightarrow> rn_raise e | Some (code, m) \<Rightarrow> fail_run env jid sid code m)
      | _ \<Rightarrow> rn_raise e)"

primrec settle_stale :: "run_env \<Rightarrow> string \<Rightarrow> string \<Rightarrow> nat \<Rightarrow> unit run" where
  "settle_stale env jid sid 0 =
     atomic env (\<lambda>k d. ((), resolve_stale_fallback (en_settings env) (en_now env k) d jid sid))"
| "settle_stale env jid sid (Suc n) =
     rn_catch
       (txn env True jid sid (\<lambda>k d0 d.
          rbind (resolve_stale_processing (en_settings env) (en_now env k) (race_message env d jid sid) d jid sid)
            (\<lambda>d'. Inr ((), d'))))
       (\<lambda>e. if e = Stale_data then settle_stale env jid sid n else rn_raise e)"

definition complete_run :: "run_env \<Rightarrow> string \<Rightarrow> string \<Rightarrow> unit run" where
  "complete_run env jid sid =
     txn env True jid sid (\<lambda>k d0 d. Inr ((), complete_job (en_now env k) d jid sid))"

definition work_on :: "run_env \<Rightarrow> string \<Rightarrow> string \<Rightarrow> unit run" where
  "work_on env jid sid =
     rn_catch
       (rn_catch
          (rn_bind (process_job env jid sid) (\<lambda>outcome.
             if outcome = STEP_COMPLETED then complete_run env jid sid else rn_return ()))
          (handle_failure env jid sid))
       (\<lambda>e. if e = Stale_data then settle_stale env jid sid 3 else rn_raise e)"

text \<open>Whether the claimed job may be worked on: \<open>None\<close> when its row or its session is gone.\<close>

definition admit :: "run_env \<Rightarrow> string \<Rightarrow> string \<Rightarrow> bool run" where
  "admit env jid sid = txn env True jid sid (\<lambda>k d0 d.
     case reload_current d0 jid sid of
       None \<Rightarrow> Inr (False, d)
     | Some (job, sess) \<Rightarrow>
         if deletion_requested d0 sid \<or> j_status job = J_CANCELLED \<or> s_state sess \<in> {S_CANCELLED, S_DELETE_PENDING}
         then Inr (False, worker_cancel_job (en_now env k) d jid) else Inr (True, d))"

definition run_job :: "run_env \<Rightarrow> string \<Rightarrow> string \<Rightarrow> unit run" where
  "run_job env jid sid =
     rn_bind (admit env jid sid) (\<lambda>go. if go then work_on env jid sid else rn_return ())"

primrec recover_tries :: "run_env \<Rightarrow> int \<Rightarrow> string \<times> string \<Rightarrow> nat \<Rightarrow> bool run" where
  "recover_tries env cutoff job 0 = rn_return False"
| "recover_tries env cutoff job (Suc n) =
     rn_catch
       (txn env True (fst job) (snd job) (\<lambda>k d0 d.
          recover_one_abandoned_job (en_settings env) (en_now env k) (lease_message d (snd job)) d (fst job) cutoff))
       (\<lambda>e. if e = Stale_data then recover_tries env cutoff job n else rn_raise e)"

primrec recover_jobs :: "run_env \<Rightarrow> int \<Rightarrow> (string \<times> string) list \<Rightarrow> nat run" where
  "recover_jobs env cutoff [] = rn_return 0"
| "recover_jobs env cutoff (job # jobs) =
     rn_bind (recover_tries env cutoff job 3) (\<lambda>recovered.
       rn_bind (recover_jobs env cutoff jobs) (\<lambda>n. rn_return (if recovered then Suc n else n)))"

definition recover_sweep :: "run_env \<Rightarrow> nat run" where
  "recover_sweep env =
     rn_bind (atomic env (\<lambda>k d.
         ((en_now env k - ws_job_lease_seconds (en_settings env),
           map (\<lambda>i. (i, case get_job d i of None \<Rightarrow> [] | Some j \<Rightarrow> j_session_id j))
             (abandoned_jobs (en_settings env) (en_now env k) d)), d)))
       (\<lambda>(cutoff, jobs). recover_jobs env cutoff jobs)"

definition retry_compensation :: "run_env \<Rightarrow> bool run" where
  "retry_compensation env =
     rn_bind (atomic env (\<lambda>k d. (due_compensation (en_now env k) d, d))) (\<lambda>due.
       case due of
         None \<Rightarrow> rn_return False
       | Some c \<Rightarrow> rn_bind (attempt_compensation env (c_id c)) (\<lambda>_. rn_return True))"

text \<open>The claim locks the row; where the database has no row locks it may lose the race, and then the
  run ends.\<close>

definition claim_run :: "run_env \<Rightarrow> JobRecord option option run" where
  "claim_run env = atomic env (\<lambda>k d.
     case claim_job (en_now env k) d of
       (None, d') \<Rightarrow> (None, d')
     | (Some job, d') \<Rightarrow> if en_claim_lost env k then (Some None, d) else (Some (Some job), d'))"

definition run_once :: "run_env \<Rightarrow> bool run" where
  "run_once env =
     rn_bind (retry_compensation env) (\<lambda>compensated.
       if compensated then rn_return True
       else
         rn_bind (recover_sweep env) (\<lambda>_.
           rn_bind (atomic env (\<lambda>k d.
               enqueue_scheduled_reconciliation (en_settings env) (\<lambda>i. en_ids env k d i) (en_now env k) d)) (\<lambda>_.
             rn_bind (claim_run env) (\<lambda>claimed.
               case claimed of
                 None \<Rightarrow> rn_return False
               | Some None \<Rightarrow> rn_return True
               | Some (Some job) \<Rightarrow>
                   rn_bind (run_job env (j_id job) (j_session_id job)) (\<lambda>_. rn_return True)))))"

subsection \<open>Every run is a sequence of steps\<close>

text \<open>
  What is assumed of the environment: the others commit transactions of the step relation, a new
  identifier is not in use, and the extraction client returns entries that Pydantic has validated.
\<close>

definition env_ok :: "run_env \<Rightarrow> bool" where
  "env_ok env \<longleftrightarrow> (\<forall>k d. db_step\<^sup>*\<^sup>* d (en_others env k d)) \<and>
     (\<forall>k d. inj (en_ids env k d) \<and> (\<forall>i. fresh d (en_ids env k d i))) \<and>
     (\<forall>k sid title rid segs es. en_extract env k sid title rid segs = Inr es \<longrightarrow> list_all valid_entry es)"

definition steps :: "'a run \<Rightarrow> bool" where
  "steps m \<longleftrightarrow> (\<forall>s. db_step\<^sup>*\<^sup>* (rs_db s) (rs_db (snd (m s))))"

lemma steps_return [intro!]: "steps (rn_return x)" "steps (rn_raise e)"
  by (simp_all add: steps_def rn_return_def rn_raise_def)

lemma steps_bind_post:
  assumes "steps m" "\<And>x s s'. m s = (Inr x, s') \<Longrightarrow> steps (f x)"
  shows "steps (rn_bind m f)"
  unfolding steps_def
proof
  fix s
  obtain r s' where m: "m s = (r, s')" by force
  with assms(1) have "db_step\<^sup>*\<^sup>* (rs_db s) (rs_db s')" unfolding steps_def by (metis snd_conv)
  moreover have "db_step\<^sup>*\<^sup>* (rs_db s') (rs_db (snd (f x s')))" if "r = Inr x" for x
    using assms(2) m that unfolding steps_def by blast
  ultimately show "db_step\<^sup>*\<^sup>* (rs_db s) (rs_db (snd (rn_bind m f s)))"
    by (cases r) (auto simp: rn_bind_def m intro: rtranclp_trans)
qed

lemma steps_bind [intro!]: "steps m \<Longrightarrow> (\<And>x. steps (f x)) \<Longrightarrow> steps (rn_bind m f)"
  by (rule steps_bind_post)

lemma steps_catch [intro!]:
  assumes "steps m" "\<And>e. steps (h e)" shows "steps (rn_catch m h)"
  unfolding steps_def
proof
  fix s
  obtain r s' where m: "m s = (r, s')" by force
  with assms(1) have "db_step\<^sup>*\<^sup>* (rs_db s) (rs_db s')" unfolding steps_def by (metis snd_conv)
  moreover have "db_step\<^sup>*\<^sup>* (rs_db s') (rs_db (snd (h e s')))" for e
    using assms(2) unfolding steps_def by blast
  ultimately show "db_step\<^sup>*\<^sup>* (rs_db s) (rs_db (snd (rn_catch m h s)))"
    by (cases r) (auto simp: rn_catch_def m intro: rtranclp_trans)
qed

lemma others_steps: "env_ok env \<Longrightarrow> db_step\<^sup>*\<^sup>* d (en_others env k d)"
  by (simp add: env_ok_def)

lemma at_db_simps [simp]: "rs_db (at_db s d) = d" "rs_log (at_db s d) = rs_log s"
  "rs_db (committed s d) = d" "rs_log (committed s d) = rs_log s @ [Committed d]"
  by (simp_all add: at_db_def committed_def)

lemma load_steps: "env_ok env \<Longrightarrow> db_step\<^sup>*\<^sup>* (rs_db s) (load_db env reload s)"
  by (simp add: load_db_def others_steps)

lemma commit_steps: "env_ok env \<Longrightarrow> db_step\<^sup>*\<^sup>* (rs_db s) (commit_db env reload s)"
  unfolding commit_db_def by (rule rtranclp_trans [OF load_steps others_steps])

lemma txn_cases:
  obtains (raised) e where "txn env reload jid sid f s = (Inl e, at_db s (load_db env reload s))"
  | (unchanged) x where "f (rs_tick s) (load_db env reload s) (load_db env reload s) = Inr (x, load_db env reload s)"
      "txn env reload jid sid f s = (Inr x, at_db s (load_db env reload s))"
  | (lost) e where "txn env reload jid sid f s = (Inl e, at_db s (commit_db env reload s))"
  | (wrote) x d' where "f (rs_tick s) (load_db env reload s) (commit_db env reload s) = Inr (x, d')"
      "txn env reload jid sid f s = (Inr x, committed s d')"
proof -
  obtain r where r: "r = txn env reload jid sid f s" by simp
  show thesis
    using raised unchanged lost wrote r [unfolded txn_def Let_def]
    by (auto simp: r [symmetric] split: sum.splits prod.splits if_splits)
qed

lemma steps_txn:
  assumes ok: "env_ok env" and f: "\<And>k d0 d x d'. f k d0 d = Inr (x, d') \<Longrightarrow> db_step\<^sup>*\<^sup>* d d'"
  shows "steps (txn env reload jid sid f)"
  unfolding steps_def
proof
  fix s
  show "db_step\<^sup>*\<^sup>* (rs_db s) (rs_db (snd (txn env reload jid sid f s)))"
    by (rule txn_cases [of env reload jid sid f s])
      (simp_all add: load_steps [OF ok] commit_steps [OF ok] rtranclp_trans [OF commit_steps [OF ok] f])
qed

lemma steps_atomic:
  assumes ok: "env_ok env" and f: "\<And>k d. db_step\<^sup>*\<^sup>* d (snd (f k d))"
  shows "steps (atomic env f)"
  unfolding steps_def atomic_def Let_def
  by (auto simp: case_prod_beta intro: rtranclp_trans [OF load_steps [OF ok] f])

lemma steps_remote [intro!]: "env_ok env \<Longrightarrow> steps (remote env c answer)"
  by (simp add: steps_def remote_def load_steps)

lemma steps_answer [intro!]: "steps (raise_answer r)"
  by (cases r) (auto simp: raise_answer_def)

lemma on_row_Inr [simp]: "on_row d sid f = Inr x \<longleftrightarrow> (\<exists>sess. get_session d sid = Some sess \<and> f sess = Inr x)"
  by (auto simp: on_row_def split: option.splits)

lemmas one_step = r_into_rtranclp [of db_step]

lemmas job_steps = w_cancel [THEN one_step] w_complete [THEN one_step] w_requeue [THEN one_step]
  w_schedule [THEN one_step] w_stale_fallback [THEN one_step] w_begin_compensation [THEN one_step]
  w_finish_compensation [THEN one_step] w_orphan [THEN one_step]

lemmas fallible_steps = w_fail [THEN one_step] w_recover [THEN one_step] w_stale [THEN one_step]

lemma steps_touch [intro!]: "env_ok env \<Longrightarrow> steps (touch env jid sid)"
  unfolding touch_def by (rule steps_txn) (auto intro: one_step w_checkpoint split: option.splits)

lemma steps_checkpointed:
  assumes "env_ok env" "\<And>k d job sess x d'. get_session d sid = Some sess \<Longrightarrow> f k d job sess = Inr (x, d') \<Longrightarrow> db_step\<^sup>*\<^sup>* d d'"
  shows "steps (checkpointed env jid sid f)"
  unfolding checkpointed_def
  by (rule steps_bind) (auto intro!: steps_txn assms(1) split: option.splits, erule (1) assms(2))

lemma steps_after_remote:
  assumes "env_ok env" "\<And>k d sess x d'. get_session d sid = Some sess \<Longrightarrow> f k d sess = Inr (x, d') \<Longrightarrow> db_step\<^sup>*\<^sup>* d d'"
  shows "steps (after_remote env jid sid f)"
  unfolding after_remote_def
  by (rule steps_txn) (auto intro!: assms(1) split: option.splits, erule (1) assms(2))

lemma steps_leased [intro!]: "env_ok env \<Longrightarrow> steps (leased_provider_call env jid sid c answer)"
  unfolding leased_provider_call_def
  by (rule steps_bind) (auto intro!: steps_checkpointed split: option.splits)

lemma steps_cancel [intro!]: "env_ok env \<Longrightarrow> steps (cancel_run env jid sid)"
  unfolding cancel_run_def by (rule steps_txn) (auto intro!: job_steps)

lemma steps_finalize [intro!]: "env_ok env \<Longrightarrow> steps (finalize_cancelled env jid sid)"
  unfolding finalize_cancelled_def by (rule steps_bind) auto

lemma steps_or_cancelled [intro!]:
  "env_ok env \<Longrightarrow> steps m \<Longrightarrow> (\<And>x. steps (f x)) \<Longrightarrow> steps (or_cancelled env jid sid m f)"
  unfolding or_cancelled_def by (rule steps_bind) (auto split: option.splits)

lemmas row_step = w_body [THEN one_step]

lemma steps_attempt [intro!]:
  assumes "env_ok env" shows "steps (attempt_compensation env cid)"
  unfolding attempt_compensation_def
  by (rule steps_bind) (auto intro!: steps_atomic assms job_steps
      split: option.splits)

lemma steps_compensate [intro!]: "env_ok env \<Longrightarrow> steps (compensate_orphan env sid rid)"
  unfolding compensate_orphan_def
  by (rule steps_bind) (auto intro!: steps_atomic job_steps simp: case_prod_beta)

lemma upload_stage_step:
  "get_session d sid = Some sess \<Longrightarrow> upload_stage env k d jid sess = Inr (x, d') \<Longrightarrow> db_step\<^sup>*\<^sup>* d d'"
  unfolding upload_stage_def
  by (auto split: if_splits intro: row_step b_ambiguous b_begin_upload)

lemma submission_stage_step:
  "get_session d sid = Some sess \<Longrightarrow> submission_stage env k d jid sess = Inr (x, d') \<Longrightarrow> db_step\<^sup>*\<^sup>* d d'"
  unfolding submission_stage_def
  by (auto split: if_splits intro: row_step b_ambiguous b_begin_submission)

lemma stage_steps:
  assumes row: "get_session d sid = Some sess"
  shows "rbind (finish_transcribe st i now d (s_id sess)) (\<lambda>d'. Inr (x, d')) = Inr (y, d') \<Longrightarrow> db_step\<^sup>*\<^sup>* d d'"
    "rbind (record_submission now d sess) (\<lambda>d'. Inr (x, d')) = Inr (y, d') \<Longrightarrow> db_step\<^sup>*\<^sup>* d d'"
    "rbind (record_upload now d up sess) (\<lambda>d'. Inr (x, d')) = Inr (y, d') \<Longrightarrow> db_step\<^sup>*\<^sup>* d d'"
    "rbind (record_duration now d dur sess) (\<lambda>d'. Inr (x, d')) = Inr (y, d') \<Longrightarrow> db_step\<^sup>*\<^sup>* d d'"
    "rbind (store_summary i now d rv es themes sess) (\<lambda>d'. Inr (x, d')) = Inr (y, d') \<Longrightarrow> db_step\<^sup>*\<^sup>* d d'"
    "fresh d rid \<Longrightarrow>
      rbind (store_reconciled st repr sha rid i now d raw sess) (\<lambda>d'. Inr (x, d')) = Inr (y, d') \<Longrightarrow> db_step\<^sup>*\<^sup>* d d'"
  by (auto intro: row_step [OF row] stage_body.intros)

lemma enter_stage_step:
  "get_session d sid = Some sess \<Longrightarrow> enter_stage env k d job sess = Inr d' \<Longrightarrow> db_step\<^sup>*\<^sup>* d d'"
  by (auto simp: enter_stage_def intro: row_step stage_body.intros split: JobType.splits)

lemma env_fresh: "env_ok env \<Longrightarrow> fresh d (en_ids env k d i)" "env_ok env \<Longrightarrow> inj (en_ids env k d)"
  by (simp_all add: env_ok_def)

lemma steps_finish [intro!]: "env_ok env \<Longrightarrow> steps (finish_transcription env jid sid)"
  unfolding finish_transcription_def
  by (rule steps_or_cancelled) (auto intro!: steps_checkpointed elim: stage_steps(1) simp del: rbind_eq_Inr)

lemma steps_submit [intro!]: "env_ok env \<Longrightarrow> steps (submit_transcription env jid sid)"
  unfolding submit_transcription_def
  by (rule steps_or_cancelled)
    (auto intro!: steps_checkpointed steps_bind steps_or_cancelled steps_after_remote elim: stage_steps(2) submission_stage_step
      simp del: rbind_eq_Inr split: submission_plan.splits)

lemma steps_upload [intro!]: "env_ok env \<Longrightarrow> steps (upload_media env jid sid sess op)"
  unfolding upload_media_def
  by (rule steps_bind)
    (auto intro!: steps_after_remote elim: stage_steps(3) simp del: rbind_eq_Inr split: option.splits)

lemma steps_transcribe [intro!]: "env_ok env \<Longrightarrow> steps (process_transcribe env jid sid)"
  unfolding process_transcribe_def
  by (rule steps_bind) (auto intro!: steps_txn elim: upload_stage_step split: upload_plan.splits)

lemma steps_store_transcript [intro!]: "env_ok env \<Longrightarrow> steps (store_transcript env jid sid rid)"
  unfolding store_transcript_def
  by (rule steps_bind)
    (auto intro!: steps_or_cancelled steps_after_remote elim: stage_steps(6) [OF _ env_fresh(1)] simp del: rbind_eq_Inr)

lemma steps_poll [intro!]: "env_ok env \<Longrightarrow> steps (poll_recording env jid sid r)"
  unfolding poll_recording_def
  by (auto intro!: steps_bind steps_or_cancelled steps_after_remote elim: stage_steps(4) simp: Let_def
      simp del: rbind_eq_Inr split: recording_status.splits)

lemma steps_reconcile [intro!]: "env_ok env \<Longrightarrow> steps (process_reconcile env jid sid sess)"
  unfolding process_reconcile_def by (auto intro!: steps_or_cancelled steps_checkpointed)

lemma leased_answer:
  "leased_provider_call env jid sid c answer s = (Inr x, s') \<Longrightarrow> \<exists>k. answer k = Inr x"
  by (auto simp: leased_provider_call_def rn_bind_def rn_raise_def rn_return_def raise_answer_def remote_def
      split: prod.splits sum.splits option.splits)

lemma extracted_step:
  assumes "env_ok env" "en_extract env k0 sid0 title rid segs = Inr entries"
    "get_session d sid = Some sess"
    "rbind (store_extracted st (en_ids env k d) i now d entries sess) (\<lambda>d'. Inr (x, d')) = Inr (y, d')"
  shows "db_step\<^sup>*\<^sup>* d d'"
proof -
  have "list_all valid_entry entries" using assms(1,2) unfolding env_ok_def by blast
  moreover from assms(4) have "store_extracted st (en_ids env k d) i now d entries sess = Inr d'" by auto
  ultimately show ?thesis
    by (rule row_step [OF assms(3) b_extracted [OF _ env_fresh(2,1) [OF assms(1)]]])
qed

lemma steps_extract [intro!]:
  assumes "env_ok env" shows "steps (process_extract env jid sid)"
proof -
  have "steps (rn_bind (leased_provider_call env jid sid c (\<lambda>k. en_extract env k sid title rid segs)) (\<lambda>entries.
      or_cancelled env jid sid (after_remote env jid sid (\<lambda>k d sess.
         rbind (store_extracted (en_settings env) (en_ids env k d) (en_id env k d) (en_now env k) d entries sess)
           (\<lambda>d'. Inr ((), d')))) (\<lambda>_. rn_return STEP_COMPLETED)))" for c title rid segs
    by (rule steps_bind_post)
      (auto intro!: assms steps_after_remote dest!: leased_answer elim: extracted_step [OF assms] simp del: rbind_eq_Inr)
  with assms show ?thesis unfolding process_extract_def
    by (intro steps_or_cancelled steps_checkpointed)
      (auto intro: row_step b_plan_extract split: option.splits)
qed

lemma steps_summarize [intro!]: "env_ok env \<Longrightarrow> steps (process_summarize env jid sid)"
  unfolding process_summarize_def
  by (rule steps_bind)
    (auto intro!: steps_txn steps_after_remote elim: stage_steps(5) simp del: rbind_eq_Inr, simp)

lemma steps_process [intro!]: "env_ok env \<Longrightarrow> steps (process_job env jid sid)"
  unfolding process_job_def
  by (rule steps_or_cancelled)
    (auto intro!: steps_checkpointed intro: enter_stage_step split: JobType.splits)

lemma steps_fail [intro!]: "env_ok env \<Longrightarrow> steps (fail_run env jid sid c m)"
  unfolding fail_run_def by (rule steps_txn) (auto intro: fallible_steps)

lemma steps_handle [intro!]: "env_ok env \<Longrightarrow> steps (handle_failure env jid sid e)"
  by (cases e) (auto simp: handle_failure_def intro!: steps_txn one_step w_requeue split: option.splits)

lemma steps_settle [intro!]: "env_ok env \<Longrightarrow> steps (settle_stale env jid sid n)"
  by (induction n) (auto intro!: steps_atomic steps_txn job_steps intro: fallible_steps)

lemma steps_work [intro!]: "env_ok env \<Longrightarrow> steps (work_on env jid sid)"
  unfolding work_on_def complete_run_def
  by (intro steps_catch steps_bind) (auto intro!: steps_txn job_steps)

lemma steps_run_job [intro!]: "env_ok env \<Longrightarrow> steps (run_job env jid sid)"
  unfolding run_job_def admit_def
  by (intro steps_bind) (auto intro!: steps_txn job_steps split: option.splits if_splits)

lemma steps_recover_tries [intro!]: "env_ok env \<Longrightarrow> steps (recover_tries env cutoff job n)"
  by (induction n) (auto intro!: steps_txn intro: fallible_steps)

lemma steps_recover_jobs [intro!]: "env_ok env \<Longrightarrow> steps (recover_jobs env cutoff jobs)"
  by (induction jobs) (auto intro!: steps_bind)

lemma steps_claim [intro!]:
  assumes "env_ok env" shows "steps (claim_run env)"
  unfolding claim_run_def
proof (rule steps_atomic [OF assms])
  fix k d
  have "db_step d (snd (claim_job (en_now env k) d))" by (rule w_claim)
  then show "db_step\<^sup>*\<^sup>* d (snd (case claim_job (en_now env k) d of (None, d') \<Rightarrow> (None, d')
     | (Some job, d') \<Rightarrow> if en_claim_lost env k then (Some None, d) else (Some (Some job), d')))"
    by (cases "claim_job (en_now env k) d") (auto split: option.splits)
qed

lemma steps_run_once: "env_ok env \<Longrightarrow> steps (run_once env)"
  unfolding run_once_def retry_compensation_def recover_sweep_def
  by (intro steps_bind) (auto intro!: steps_atomic job_steps split: option.splits)

end
