(* ===== verification/Run_Safety.thy ===== *)
theory Run_Safety
  imports Worker_Run
begin

text \<open>
  What holds of every run of the worker: it refines the step relation, its log shows the marker of
  an upload before the upload, and undisturbed it never leaves its job running.
\<close>

subsection \<open>The log of a run\<close>

text \<open>The log of a run in which every upload call comes after the commit of its marker.\<close>

definition marker_of :: "string \<Rightarrow> string \<Rightarrow> run_event \<Rightarrow> bool" where
  "marker_of p op e \<longleftrightarrow> (\<exists>d r. e = Committed d \<and> r \<in> set (db_sessions d) \<and> s_media_path r = Some p \<and>
     s_pending_operation_kind r = Some ''upload'' \<and> s_pending_operation_id r = Some op)"

definition marked :: "run_event list \<Rightarrow> bool" where
  "marked es \<longleftrightarrow> (\<forall>i < length es. \<forall>p op. es ! i = Called (Call_upload p op) \<longrightarrow>
     (\<exists>j < i. marker_of p op (es ! j)))"

definition uploads_only :: "(string \<times> string) set \<Rightarrow> run_event list \<Rightarrow> bool" where
  "uploads_only U es \<longleftrightarrow> (\<forall>p op. Called (Call_upload p op) \<in> set es \<longrightarrow> (p, op) \<in> U)"

definition logs :: "(run_event list \<Rightarrow> bool) \<Rightarrow> 'a run \<Rightarrow> bool" where
  "logs P m \<longleftrightarrow> (\<forall>s. \<exists>es. rs_log (snd (m s)) = rs_log s @ es \<and> P es)"

lemma logsD: "logs P m \<Longrightarrow> m s = (r, s') \<Longrightarrow> \<exists>es. rs_log s' = rs_log s @ es \<and> P es"
  unfolding logs_def by (drule spec [of _ s]) simp

text \<open>A property of logs that holds of no events, of a commit and of a call, and of two logs in a row.\<close>

locale log_property =
  fixes P :: "run_event list \<Rightarrow> bool"
  assumes empty_log: "P []" and commit: "P [Committed d]" and followed: "P es \<Longrightarrow> P es' \<Longrightarrow> P (es @ es')"
begin

lemma returns: "logs P (rn_return x)" "logs P (rn_raise e)" "logs P (raise_answer r)"
  using empty_log by (auto simp: logs_def rn_return_def rn_raise_def raise_answer_def split: sum.splits)

lemma bind:
  assumes "logs P m" "\<And>x. logs P (f x)" shows "logs P (rn_bind m f)"
  unfolding logs_def
proof
  fix s
  obtain r s' where m: "m s = (r, s')" by force
  from logsD [OF assms(1) m] obtain es where es: "rs_log s' = rs_log s @ es" "P es" by blast
  show "\<exists>es. rs_log (snd (rn_bind m f s)) = rs_log s @ es \<and> P es"
  proof (cases r)
    case (Inr x)
    from assms(2) [of x] obtain es' where "rs_log (snd (f x s')) = rs_log s' @ es'" "P es'" unfolding logs_def by blast
    with es Inr followed show ?thesis by (auto simp: rn_bind_def m)
  qed (use es in \<open>auto simp: rn_bind_def m\<close>)
qed

lemma catch:
  assumes "logs P m" "\<And>e. logs P (h e)" shows "logs P (rn_catch m h)"
  unfolding logs_def
proof
  fix s
  obtain r s' where m: "m s = (r, s')" by force
  from logsD [OF assms(1) m] obtain es where es: "rs_log s' = rs_log s @ es" "P es" by blast
  show "\<exists>es. rs_log (snd (rn_catch m h s)) = rs_log s @ es \<and> P es"
  proof (cases r)
    case (Inl e)
    from assms(2) [of e] obtain es' where "rs_log (snd (h e s')) = rs_log s' @ es'" "P es'" unfolding logs_def by blast
    with es Inl followed show ?thesis by (auto simp: rn_catch_def m)
  qed (use es in \<open>auto simp: rn_catch_def m\<close>)
qed

lemma txns: "logs P (txn env reload jid sid f)"
  unfolding logs_def
proof
  fix s
  show "\<exists>es. rs_log (snd (txn env reload jid sid f s)) = rs_log s @ es \<and> P es"
    by (rule txn_cases [of env reload jid sid f s]) (auto simp: empty_log commit)
qed

lemma atomics: "logs P (atomic env f)"
  using commit by (auto simp: logs_def atomic_def case_prod_beta)

lemmas parts = returns txns atomics

lemma checkpoints: "logs P (touch env jid sid)" "logs P (checkpointed env jid sid g)"
  "logs P (after_remote env jid sid h)" "logs P (cancel_run env jid sid)" "logs P (finalize_cancelled env jid sid)"
  "logs P (fail_run env jid sid c m)" "logs P (complete_run env jid sid)" "logs P (admit env jid sid)"
  by (auto simp: touch_def checkpointed_def after_remote_def cancel_run_def finalize_cancelled_def fail_run_def
      complete_run_def admit_def intro!: bind parts)

lemma or_cancel: "logs P m \<Longrightarrow> (\<And>x. logs P (f x)) \<Longrightarrow> logs P (or_cancelled env jid sid m f)"
  unfolding or_cancelled_def by (auto intro!: bind checkpoints split: option.splits)

lemma leased: "P [Called c] \<Longrightarrow> logs P (leased_provider_call env jid sid c answer)"
  unfolding leased_provider_call_def
  by (intro bind checkpoints) (auto intro!: bind parts simp: logs_def [of P "remote env c answer"] remote_def split: option.splits)

lemma calls: "P [Called c] \<Longrightarrow> logs P (remote env c answer)"
  by (auto simp: logs_def remote_def)

end

lemma marked_append:
  assumes "marked es" "marked es'" shows "marked (es @ es')"
  unfolding marked_def
proof (intro allI impI)
  fix i p op assume i: "i < length (es @ es')" "(es @ es') ! i = Called (Call_upload p op)"
  show "\<exists>j<i. marker_of p op ((es @ es') ! j)"
  proof (cases "i < length es")
    case True
    with i have "es ! i = Called (Call_upload p op)" by (simp add: nth_append)
    with assms(1) True obtain j where "j < i" "marker_of p op (es ! j)" unfolding marked_def by blast
    with True show ?thesis by (intro exI [of _ j]) (simp add: nth_append)
  next
    case False
    with i have "i - length es < length es'" "es' ! (i - length es) = Called (Call_upload p op)"
      by (simp_all add: nth_append less_diff_conv2)
    with assms(2) obtain j where "j < i - length es" "marker_of p op (es' ! j)" unfolding marked_def by blast
    with False show ?thesis by (intro exI [of _ "length es + j"]) (simp add: nth_append)
  qed
qed

lemma marked_then:
  assumes "marker_of p op e" "uploads_only {(p, op)} es" shows "marked (e # es)"
  unfolding marked_def
proof (intro allI impI)
  fix i q o'
  assume i: "i < length (e # es)" "(e # es) ! i = Called (Call_upload q o')"
  then have "0 < i" using assms(1) by (cases i) (auto simp: marker_of_def)
  then have "Called (Call_upload q o') \<in> set es" using i by (cases i) (auto simp: in_set_conv_nth)
  with assms(2) have "q = p" "o' = op" by (auto simp: uploads_only_def)
  with assms(1) \<open>0 < i\<close> show "\<exists>j<i. marker_of q o' ((e # es) ! j)" by auto
qed

interpretation wal: log_property marked
proof
  show "marked []" by (simp add: marked_def)
  show "marked [Committed d]" for d by (simp add: marked_def)
  show "marked es \<Longrightarrow> marked es' \<Longrightarrow> marked (es @ es')" for es es' by (rule marked_append)
qed

interpretation one_upload: log_property "uploads_only U"
  by unfold_locales (auto simp: uploads_only_def)

lemma marked_call: "\<forall>p op. c \<noteq> Call_upload p op \<Longrightarrow> marked [Called c]"
  by (simp add: marked_def)

lemmas wal_rules = wal.bind wal.catch wal.parts wal.checkpoints wal.or_cancel wal.leased wal.calls marked_call

lemma attempt_marked: "logs marked (attempt_compensation env cid)"
  unfolding attempt_compensation_def by (auto intro!: wal_rules split: option.splits)

lemma orphan_marked: "logs marked (compensate_orphan env sid rid)"
  unfolding compensate_orphan_def by (intro wal_rules attempt_marked)

lemma submit_marked: "logs marked (submit_transcription env jid sid)"
  unfolding submit_transcription_def finish_transcription_def
  by (auto intro!: wal_rules split: submission_plan.splits)

lemma others_marked:
  "logs marked (process_reconcile env jid sid sess)" "logs marked (process_extract env jid sid)"
  "logs marked (process_summarize env jid sid)"
  by (auto simp: process_reconcile_def poll_recording_def store_transcript_def process_extract_def
      process_summarize_def Let_def intro!: wal_rules split: option.splits recording_status.splits)

lemma upload_stage_marks:
  assumes row: "get_session d sid = Some sess" and st: "\<not> ws_supports_upload_idempotency (en_settings env)"
    and res: "upload_stage env k d jid sess = Inr ((Upload_call op, sess'), d')"
  shows "sess' = sess \<and> d' \<noteq> d \<and> marker_of (the (s_media_path sess)) op (Committed d')"
proof -
  from res st have s: "sess' = sess" "s_pending_operation_kind sess \<noteq> Some ''upload''" "truthy (s_media_path sess)"
    "d' = save_session (en_now env k) (begin_pending_operation op (en_now env k) sess ''upload'') d"
    by (auto simp: upload_stage_def begin_upload_def split: if_splits)
  let ?r = "begin_pending_operation op (en_now env k) sess ''upload''"
  have id: "s_id ?r = sid" using get_session_Some [OF row] by (simp add: begin_pending_operation_def)
  with row have "get_session d (s_id ?r) = Some sess" by simp
  from get_session_saved [OF this, of "en_now env k"] obtain r where r: "get_session d' sid = Some r"
    "s_pending_operation_kind r = Some ''upload''" "s_pending_operation_id r = Some op" "s_media_path r = s_media_path sess"
    unfolding id s(4) by (auto simp: begin_pending_operation_def)
  have "d' \<noteq> d" using r(1,2) row s(2) by auto
  moreover have "marker_of (the (s_media_path sess)) op (Committed d')"
    unfolding marker_of_def using r get_session_Some [OF r(1)] s(3)
    by (intro exI [of _ d'] exI [of _ r]) (auto simp: truthy_def split: option.splits)
  ultimately show ?thesis using s(1) by simp
qed

lemma upload_txn_marks:
  assumes st: "\<not> ws_supports_upload_idempotency (en_settings env)"
    and t: "txn env reload jid sid (\<lambda>k d0 d. on_row d sid (upload_stage env k d jid)) s = (Inr (Upload_call op, sess), s1)"
  obtains d' where "rs_log s1 = rs_log s @ [Committed d']" "marker_of (the (s_media_path sess)) op (Committed d')"
proof (rule txn_cases [of env reload jid sid "\<lambda>k d0 d. on_row d sid (upload_stage env k d jid)" s], goal_cases)
  case (2 x)
  with t have "on_row (load_db env reload s) sid (upload_stage env (rs_tick s) (load_db env reload s) jid) =
      Inr ((Upload_call op, sess), load_db env reload s)" by simp
  then have False using upload_stage_marks [OF _ st] unfolding on_row_Inr by blast
  then show ?thesis ..
next
  case (4 x d')
  with t have "on_row (commit_db env reload s) sid (upload_stage env (rs_tick s) (commit_db env reload s) jid) =
      Inr ((Upload_call op, sess), d')" and s1: "s1 = committed s d'" by simp_all
  then have "marker_of (the (s_media_path sess)) op (Committed d')"
    using upload_stage_marks [OF _ st] unfolding on_row_Inr by blast
  with s1 that show ?thesis by simp
qed (use t in simp_all)

lemma upload_media_marked:
  assumes "marker_of (the (s_media_path sess)) op e"
  shows "\<exists>es. rs_log (snd (upload_media env jid sid sess op s)) = rs_log s @ es \<and> marked (e # es)"
proof -
  let ?p = "the (s_media_path sess)"
  let ?call = "leased_provider_call env jid sid (Call_upload ?p op) (\<lambda>k. en_upload env k ?p (s_title sess) op)"
  let ?next = "\<lambda>uploaded. rn_bind (after_remote env jid sid (\<lambda>k d sess.
       rbind (record_upload (en_now env k) d uploaded sess) (\<lambda>d'. Inr ((), d')))) (\<lambda>r.
         case r of None \<Rightarrow> rn_bind (compensate_orphan env sid (sr_recording_id uploaded)) (\<lambda>_. finalize_cancelled env jid sid)
         | Some _ \<Rightarrow> submit_transcription env jid sid)"
  obtain a s' where c: "?call s = (a, s')" by force
  have "uploads_only {(?p, op)} [Called (Call_upload ?p op)]" by (simp add: uploads_only_def)
  from logsD [OF one_upload.leased [OF this] c] obtain es
    where es: "rs_log s' = rs_log s @ es" "uploads_only {(?p, op)} es" by blast
  note m = marked_then [OF assms es(2)]
  show ?thesis
  proof (cases a)
    case (Inl x)
    then show ?thesis using m es(1) by (auto simp: upload_media_def rn_bind_def c)
  next
    case (Inr up)
    have "logs marked (?next up)"
      by (intro wal.bind) (auto intro!: wal_rules orphan_marked submit_marked split: option.splits)
    then obtain es' where es': "rs_log (snd (?next up s')) = rs_log s' @ es'" "marked es'" unfolding logs_def by blast
    have "upload_media env jid sid sess op s = ?next up s'" by (simp add: upload_media_def rn_bind_def [of ?call] c Inr)
    with es' es(1) marked_append [OF m es'(2)] show ?thesis by auto
  qed
qed

lemma transcribe_marked:
  assumes st: "\<not> ws_supports_upload_idempotency (en_settings env)"
  shows "logs marked (process_transcribe env jid sid)"
  unfolding logs_def
proof
  fix s
  let ?t = "txn env False jid sid (\<lambda>k d0 d. on_row d sid (upload_stage env k d jid))"
  obtain r s1 where t: "?t s = (r, s1)" by force
  from logsD [OF wal.txns t] obtain es where es: "rs_log s1 = rs_log s @ es" "marked es" by blast
  consider e where "r = Inl e" | sess where "r = Inr (Upload_known, sess)" | sess where "r = Inr (Upload_ambiguous, sess)"
    | op sess where "r = Inr (Upload_call op, sess)"
    by (metis sum.exhaust prod.exhaust upload_plan.exhaust)
  then show "\<exists>es. rs_log (snd (process_transcribe env jid sid s)) = rs_log s @ es \<and> marked es"
  proof cases
    case 2
    from submit_marked [of env jid sid] obtain es' where
      "rs_log (snd (submit_transcription env jid sid s1)) = rs_log s1 @ es'" "marked es'" unfolding logs_def by blast
    with es 2 marked_append [OF es(2)] show ?thesis by (auto simp: process_transcribe_def rn_bind_def t)
  next
    case 4
    from upload_txn_marks [OF st t [unfolded 4]] obtain d'
      where d': "rs_log s1 = rs_log s @ [Committed d']" "marker_of (the (s_media_path sess)) op (Committed d')" .
    from upload_media_marked [OF d'(2), of env jid sid s1] d'(1) 4 show ?thesis
      by (auto simp: process_transcribe_def rn_bind_def [of ?t] t)
  qed (use es in \<open>auto simp: process_transcribe_def rn_bind_def rn_return_def t\<close>)
qed

lemma recover_marked: "logs marked (recover_tries env cutoff job n)" "logs marked (recover_jobs env cutoff jobs)"
proof -
  show tries: "logs marked (recover_tries env cutoff job n)" for job n
    by (induction n) (auto intro!: wal_rules)
  show "logs marked (recover_jobs env cutoff jobs)"
    by (induction jobs) (auto intro!: wal_rules tries)
qed

lemma run_once_marked:
  assumes "\<not> ws_supports_upload_idempotency (en_settings env)"
  shows "logs marked (run_once env)"
proof -
  have settle: "logs marked (settle_stale env jid sid n)" for jid sid n
    by (induction n) (auto intro!: wal_rules)
  have handle: "logs marked (handle_failure env jid sid e)" for jid sid e
    by (cases e) (auto simp: handle_failure_def intro!: wal_rules split: option.splits)
  have process: "logs marked (process_job env jid sid)" for jid sid
    unfolding process_job_def
    by (auto intro!: wal_rules transcribe_marked [OF assms] others_marked split: JobType.splits)
  have "logs marked (run_job env jid sid)" for jid sid
    unfolding run_job_def work_on_def by (auto intro!: wal_rules settle handle process)
  then show ?thesis
    unfolding run_once_def retry_compensation_def recover_sweep_def claim_run_def
    by (auto intro!: wal_rules attempt_marked recover_marked split: option.splits)
qed

subsection \<open>No job is left running\<close>

definition settled :: "db \<Rightarrow> string \<Rightarrow> bool" where
  "settled d jid \<longleftrightarrow> (\<forall>j. get_job d jid = Some j \<longrightarrow> j_status j \<noteq> J_RUNNING)"

definition quiet :: "run_env \<Rightarrow> bool" where
  "quiet env \<longleftrightarrow> (\<forall>k d. en_others env k d = d)"

definition ends :: "string \<Rightarrow> ProcessOutcome run \<Rightarrow> bool" where
  "ends jid m \<longleftrightarrow> (\<forall>s s'. m s = (Inr ALREADY_FINALIZED, s') \<longrightarrow> settled (rs_db s') jid)"

lemma settled_session [simp]: "settled (save_session now r d) jid = settled d jid"
  by (simp add: settled_def)

lemma settled_put [simp]:
  assumes "map_option j_id (get_job d jid) = Some (j_id r)"
  shows "settled (save_job now r d) jid \<longleftrightarrow> j_status r \<noteq> J_RUNNING"
proof -
  from assms obtain job where job: "get_job d jid = Some job" "j_id job = j_id r" by auto
  then have id: "j_id r = jid" using get_job_id by simp
  from job id have "get_job d (j_id r) = Some job" by simp
  from get_job_save [OF this, of now] show ?thesis unfolding id by (auto simp: settled_def)
qed

lemma settled_same [simp]: "get_job d jid = None \<Longrightarrow> settled d jid"
  "get_job d jid = Some j \<Longrightarrow> settled d jid \<longleftrightarrow> j_status j \<noteq> J_RUNNING"
  by (simp_all add: settled_def)

lemma settled_cancel [simp]: "settled (worker_cancel_job now d jid) jid"
  by (simp add: worker_cancel_job_def split: option.splits)

lemma settled_complete: "settled (complete_job now d jid sid) jid"
  by (auto simp: complete_job_def split: option.splits dest!: live_Some)

lemma settled_requeue: "settled (requeue_pending st now d jid sid c m) jid"
  by (auto simp: requeue_pending_def split: option.splits dest!: live_Some)

lemma settled_fail: "fail_job st now d jid sid c m = Inr d' \<Longrightarrow> settled d' jid"
  by (auto simp: fail_job_def Let_def split: option.splits if_splits dest!: live_Some)

lemma settled_mark: "mark_ambiguous now m a job sess d = Inr d' \<Longrightarrow> get_job d jid = Some job \<Longrightarrow> settled d' jid"
  by (auto simp: mark_ambiguous_def Let_def)

lemma settled_ambiguous: "fail_ambiguous_operation now m d jid sess = Inr d' \<Longrightarrow> settled d' jid"
  by (auto simp: fail_ambiguous_operation_def intro: settled_mark split: option.splits)

lemma settled_stale: "resolve_stale_processing st now m d jid sid = Inr d' \<Longrightarrow> settled d' jid"
  by (auto simp: resolve_stale_processing_def intro: settled_mark split: option.splits if_splits)

lemma settle_contested_status: "j_status (settle_contested st now c sess job) \<noteq> J_RUNNING"
  "j_id (settle_contested st now c sess job) = j_id job"
  by (simp_all add: settle_contested_def Let_def)

lemma settled_fallback: "settled (resolve_stale_fallback st now d jid sid) jid"
  unfolding settled_def
proof (intro allI impI)
  fix j assume "get_job (resolve_stale_fallback st now d jid sid) jid = Some j"
  then have "j \<in> set (db_jobs (resolve_stale_fallback st now d jid sid)) \<and> j_id j = jid"
    unfolding get_job_def by (rule job.get_in)
  then show "j_status j \<noteq> J_RUNNING"
    using settle_contested_status(1) by (simp add: resolve_stale_fallback_def Let_def image_iff) blast
qed

lemma txn_quiet:
  assumes "quiet env" "txn env reload jid sid f s = (Inr x, s')"
  shows "f (rs_tick s) (rs_db s) (rs_db s) = Inr (x, rs_db s')"
proof -
  have q: "load_db env reload s = rs_db s" "commit_db env reload s = rs_db s"
    using assms(1) by (simp_all add: quiet_def load_db_def commit_db_def)
  show ?thesis
    by (rule txn_cases [of env reload jid sid f s]) (use q assms(2) in simp_all)
qed

lemma ends_bind: "(\<And>x. ends jid (f x)) \<Longrightarrow> ends jid (rn_bind m f)"
  by (fastforce simp: ends_def rn_bind_def split: prod.splits sum.splits)

lemma ends_bind_post:
  "(\<And>s x s1 s'. m s = (Inr x, s1) \<Longrightarrow> f x s1 = (Inr ALREADY_FINALIZED, s') \<Longrightarrow> settled (rs_db s') jid) \<Longrightarrow>
   ends jid (rn_bind m f)"
  by (auto simp: ends_def rn_bind_def split: prod.splits sum.splits)

lemma ends_step [simp]: "ends jid (rn_return STEP_COMPLETED)" "ends jid (rn_raise e)"
  by (simp_all add: ends_def rn_return_def rn_raise_def)

lemma cancel_settles: "quiet env \<Longrightarrow> cancel_run env jid sid s = (Inr u, s') \<Longrightarrow> settled (rs_db s') jid"
  unfolding cancel_run_def by (drule (1) txn_quiet) (metis Inr_inject prod.inject settled_cancel)

lemma requeue_settles:
  "quiet env \<Longrightarrow> txn env True jid sid (\<lambda>k d0 d. Inr ((), requeue_pending st (now k) d jid sid c m)) s = (Inr u, s') \<Longrightarrow>
   settled (rs_db s') jid"
  by (drule (1) txn_quiet) (metis Inr_inject prod.inject settled_requeue)

lemma complete_settles: "quiet env \<Longrightarrow> complete_run env jid sid s = (Inr u, s') \<Longrightarrow> settled (rs_db s') jid"
  unfolding complete_run_def by (drule (1) txn_quiet) (metis Inr_inject prod.inject settled_complete)

lemma fail_settles: "quiet env \<Longrightarrow> fail_run env jid sid c m s = (Inr u, s') \<Longrightarrow> settled (rs_db s') jid"
  unfolding fail_run_def by (drule (1) txn_quiet) (auto dest: settled_fail)

lemma ends_cancelled: "quiet env \<Longrightarrow> ends jid (finalize_cancelled env jid sid)"
  unfolding finalize_cancelled_def
  by (rule ends_bind_post) (auto simp: rn_return_def dest: cancel_settles)

lemma ends_or_cancelled: "quiet env \<Longrightarrow> (\<And>x. ends jid (f x)) \<Longrightarrow> ends jid (or_cancelled env jid sid m f)"
  unfolding or_cancelled_def by (rule ends_bind) (auto simp: ends_cancelled split: option.splits)

lemma checkpointed_quiet:
  assumes "quiet env" "checkpointed env jid sid f s = (Inr (Some x), s')"
  shows "\<exists>k d job sess. f k d job sess = Inr (x, rs_db s')"
  using assms(2)
  by (auto simp: checkpointed_def rn_bind_def rn_return_def split: prod.splits sum.splits if_splits option.splits
      dest!: txn_quiet [OF assms(1)]) blast

lemma stage_settles:
  "upload_stage env k d jid sess = Inr ((Upload_ambiguous, sess'), d') \<Longrightarrow> settled d' jid"
  "submission_stage env k d jid sess = Inr (Submission_ambiguous, d') \<Longrightarrow> settled d' jid"
  by (auto simp: upload_stage_def submission_stage_def dest: settled_ambiguous split: if_splits)

lemmas ends_rules = ends_bind ends_or_cancelled ends_cancelled ends_step

lemma ends_finish: "quiet env \<Longrightarrow> ends jid (finish_transcription env jid sid)"
  unfolding finish_transcription_def by (auto intro!: ends_rules)

lemma ends_submit:
  assumes "quiet env" shows "ends jid (submit_transcription env jid sid)"
  unfolding submit_transcription_def or_cancelled_def [of env jid sid "checkpointed env jid sid g" for g]
proof (rule ends_bind_post, goal_cases)
  case (1 s x s1 s')
  let ?rest = "\<lambda>plan. case plan of Submission_ambiguous \<Rightarrow> rn_return ALREADY_FINALIZED
     | Submission_call rid op \<Rightarrow>
         rn_bind (leased_provider_call env jid sid (Call_queue rid op) (\<lambda>k. en_queue env k rid op)) (\<lambda>_.
           or_cancelled env jid sid (after_remote env jid sid (\<lambda>k d sess.
             rbind (record_submission (en_now env k) d sess) (\<lambda>d'. Inr ((), d')))) (\<lambda>_. finish_transcription env jid sid))
     | _ \<Rightarrow> finish_transcription env jid sid"
  have rest: "plan \<noteq> Submission_ambiguous \<Longrightarrow> ends jid (?rest plan)" for plan
    using assms by (auto intro!: ends_rules ends_finish split: submission_plan.splits)
  show ?case
  proof (cases x)
    case None
    with 1 ends_cancelled [OF assms] show ?thesis by (auto simp: ends_def)
  next
    case (Some plan)
    show ?thesis
    proof (cases "plan = Submission_ambiguous")
      case True
      with checkpointed_quiet [OF assms 1(1) [unfolded Some]] 1(2) Some show ?thesis
        by (auto simp: rn_return_def dest: stage_settles)
    next
      case False
      with rest 1(2) Some show ?thesis unfolding ends_def by simp
    qed
  qed
qed

lemma ends_transcribe:
  assumes "quiet env" shows "ends jid (process_transcribe env jid sid)"
  unfolding process_transcribe_def
proof (rule ends_bind_post, goal_cases)
  case (1 s x s1 s')
  obtain plan sess where x: "x = (plan, sess)" by force
  have up: "ends jid (upload_media env jid sid sess op)" for op
    unfolding upload_media_def using assms by (auto intro!: ends_rules ends_submit split: option.splits)
  show ?case
  proof (cases plan)
    case Upload_ambiguous
    with 1(2) txn_quiet [OF assms 1(1)] x show ?thesis by (auto simp: rn_return_def dest: stage_settles)
  qed (use 1(2) x up ends_submit [OF assms] in \<open>auto simp: ends_def\<close>)
qed

lemma ends_process:
  assumes "quiet env" shows "ends jid (process_job env jid sid)"
  unfolding process_job_def
  using assms
  by (auto simp: process_reconcile_def poll_recording_def store_transcript_def process_extract_def process_summarize_def
      Let_def intro!: ends_rules ends_transcribe split: JobType.splits option.splits recording_status.splits)

lemma work_settles:
  assumes q: "quiet env" and w: "work_on env jid sid s = (Inr (), s')"
  shows "settled (rs_db s') jid"
proof -
  have settle: "settle_stale env jid sid n s = (Inr (), s') \<Longrightarrow> settled (rs_db s') jid" for n s
  proof (induction n arbitrary: s)
    case 0
    then show ?case by (auto simp: atomic_def settled_fallback)
  next
    case (Suc n)
    then show ?case
      by (auto simp: rn_catch_def rn_raise_def split: prod.splits sum.splits if_splits
          dest!: txn_quiet [OF q] dest: settled_stale)
  qed
  have handle: "handle_failure env jid sid e s = (Inr (), s') \<Longrightarrow> settled (rs_db s') jid" for e s
    by (cases e) (auto simp: handle_failure_def rn_raise_def split: option.splits
        dest: cancel_settles [OF q] requeue_settles [OF q] fail_settles [OF q])
  have body: "rn_bind (process_job env jid sid) (\<lambda>outcome.
      if outcome = STEP_COMPLETED then complete_run env jid sid else rn_return ()) s = (Inr (), s') \<Longrightarrow>
    settled (rs_db s') jid" for s
    using ends_process [OF q, of jid sid]
    by (auto simp: rn_bind_def rn_return_def ends_def split: prod.splits sum.splits if_splits
        dest: complete_settles [OF q]) (metis ProcessOutcome.exhaust)
  from w show ?thesis
    unfolding work_on_def rn_catch_def [of "rn_catch m h" for m h] rn_catch_def [of "rn_bind m h" for m h]
    by (auto simp: rn_raise_def split: prod.splits sum.splits if_splits dest: settle handle body)
qed

subsection \<open>An example run\<close>

definition id_size :: "db \<Rightarrow> nat" where
  "id_size d = sum_list (map (length \<circ> s_id) (db_sessions d)) + sum_list (map (length \<circ> r_id) (db_revisions d)) +
     sum_list (map (length \<circ> e_id) (db_entries d)) + sum_list (map (length \<circ> j_id) (db_jobs d))"

definition demo_ids :: "nat \<Rightarrow> db \<Rightarrow> nat \<Rightarrow> string" where
  "demo_ids k d i = replicate (Suc (id_size d + i)) (CHR ''x'')"

definition demo_env :: run_env where
  "demo_env = \<lparr>en_settings = demo_worker, en_now = (\<lambda>k. 100 + int k), en_isoformat = (\<lambda>t. []),
     en_id = (\<lambda>k d. demo_ids k d 0), en_ids = demo_ids, en_others = (\<lambda>k d. d), en_claim_lost = (\<lambda>k. False),
     en_repr = (\<lambda>v. []), en_sha256 = (\<lambda>v. ''q''), en_mode = ON_UPLOAD,
     en_upload = (\<lambda>k p t op. Inr \<lparr>sr_recording_id = ''sp'', sr_status = ''PENDING'', sr_duration_seconds = None\<rparr>),
     en_queue = (\<lambda>k rid op. queue_transcription rid),
     en_recording = (\<lambda>k rid. Inl (Transport_error ''timeout'')),
     en_transcript = (\<lambda>k rid. Inl (Transport_error ''timeout'')),
     en_delete = (\<lambda>k rid. Inr ()),
     en_extract = (\<lambda>k sid t rid segs. Inr []),
     en_consolidate = (\<lambda>k sid t es. Inl Attribute_error),
     en_summarize = (\<lambda>k sid t rid es g. Inr [])\<rparr>"

definition demo_claimed :: run_state where
  "demo_claimed = \<lparr>rs_tick = 0, rs_db = demo_d4, rs_log = []\<rparr>"

text \<open>A reconciliation while Speakr cannot be reached.\<close>

definition demo_outage :: run_state where
  "demo_outage = \<lparr>rs_tick = 0,
     rs_db = demo_d4\<lparr>db_jobs := [demo_j4\<lparr>j_type := T_RECONCILE\<rparr>],
                     db_sessions := [demo_s3\<lparr>s_speakr_recording_id := Some ''sp''\<rparr>]\<rparr>, rs_log = []\<rparr>"

definition demo_start :: run_state where
  "demo_start = \<lparr>rs_tick = 0, rs_db = demo_d3, rs_log = []\<rparr>"

lemma length_le_sum: "x \<in> set xs \<Longrightarrow> length (f x) \<le> sum_list (map (length \<circ> f) xs)"
  by (induction xs) auto

lemma demo_ids_ok: "inj (demo_ids k d)" "fresh d (demo_ids k d i)"
proof -
  show "inj (demo_ids k d)" by (rule injI, drule arg_cong [where f = length]) (simp add: demo_ids_def)
  have "length y \<le> id_size d" if "y \<in> s_id ` set (db_sessions d) \<union> r_id ` set (db_revisions d) \<union>
      e_id ` set (db_entries d) \<union> j_id ` set (db_jobs d)" for y
    using that length_le_sum [of _ "db_sessions d" s_id] length_le_sum [of _ "db_revisions d" r_id]
      length_le_sum [of _ "db_entries d" e_id] length_le_sum [of _ "db_jobs d" j_id]
    unfolding id_size_def by fastforce
  moreover have "\<not> length (demo_ids k d i) \<le> id_size d" by (simp add: demo_ids_def)
  ultimately show "fresh d (demo_ids k d i)" unfolding fresh_def by blast
qed

lemma demo_env_ok: "env_ok demo_env" "quiet demo_env" "\<not> ws_supports_upload_idempotency (en_settings demo_env)"
  using demo_ids_ok by (simp_all add: env_ok_def quiet_def demo_env_def demo_worker_def)

lemma settled_cancelled: "worker_cancel_job now d jid = d' \<Longrightarrow> settled d' jid"
  by auto

subsection \<open>Properties\<close>



text \<open>C5: write-ahead. In a run with a provider that cannot deduplicate, every upload call is preceded,
  in the order of the run's events, by a commit whose database holds a session with the marker of
  exactly this upload and this media file. A crash at any point after the call finds the marker.\<close>

theorem upload_write_ahead:
  assumes "\<not> ws_supports_upload_idempotency (en_settings env)" "rs_log s = []"
    and "i < length (rs_log (snd (run_once env s)))"
    and "rs_log (snd (run_once env s)) ! i = Called (Call_upload p op)"
  shows "\<exists>j < i. \<exists>d r. rs_log (snd (run_once env s)) ! j = Committed d \<and> r \<in> set (db_sessions d) \<and>
    s_media_path r = Some p \<and> s_pending_operation_kind r = Some ''upload'' \<and> s_pending_operation_id r = Some op"
proof -
  from run_once_marked [OF assms(1)] assms(2) have "marked (rs_log (snd (run_once env s)))"
    by (auto simp: logs_def dest!: spec [of _ s])
  with assms(3,4) show ?thesis unfolding marked_def marker_of_def by blast
qed

theorem upload_write_ahead_witness:
  "\<exists>j < 7. \<exists>d r. rs_log (snd (run_once demo_env demo_start)) ! j = Committed d \<and> r \<in> set (db_sessions d) \<and>
    s_media_path r = Some ''/m/a/original.bin'' \<and> s_pending_operation_kind r = Some ''upload'' \<and>
    s_pending_operation_id r = Some ''xxx''"
proof (rule upload_write_ahead [OF demo_env_ok(3)])
  show "rs_log demo_start = []" by (simp add: demo_start_def)
  show "7 < length (rs_log (snd (run_once demo_env demo_start)))" by code_simp
  show "rs_log (snd (run_once demo_env demo_start)) ! 7 = Called (Call_upload ''/m/a/original.bin'' ''xxx'')"
    by code_simp
qed

text \<open>C8: a run that nobody disturbs never leaves its job running: when it returns, whatever the
  providers answered, the job it worked on has succeeded, failed, been cancelled or been queued
  again.\<close>

theorem run_job_settles:
  assumes "\<forall>k d. en_others env k d = d" "get_session (rs_db s) sid \<noteq> None"
    and "run_job env jid sid s = (Inr (), s')" "get_job (rs_db s') jid = Some j"
  shows "j_status j \<noteq> J_RUNNING"
proof -
  have q: "quiet env" using assms(1) by (simp add: quiet_def)
  obtain a s1 where a: "admit env jid sid s = (a, s1)" by force
  from assms(3) obtain go where go: "a = Inr go" by (cases a) (auto simp: run_job_def rn_bind_def a)
  have "settled (rs_db s') jid"
  proof (cases go)
    case True
    then have "work_on env jid sid s1 = (Inr (), s')" using assms(3) by (simp add: run_job_def rn_bind_def a go)
    then show ?thesis by (rule work_settles [OF q])
  next
    case False
    then have s': "s' = s1" using assms(3) by (simp add: run_job_def rn_bind_def rn_return_def a go)
    from txn_quiet [OF q a [unfolded admit_def go]] False assms(2) show ?thesis
      unfolding s' by (auto simp: reload_current_def split: option.splits if_splits dest: settled_cancelled)
  qed
  with assms(4) show ?thesis by (simp add: settled_def)
qed

theorem run_job_settles_witness:
  "\<exists>j. get_job (rs_db (snd (run_job demo_env ''j'' ''a'' demo_claimed))) ''j'' = Some j \<and> j_status j \<noteq> J_RUNNING"
proof -
  let ?r = "run_job demo_env ''j'' ''a'' demo_claimed"
  have "fst ?r = Inr ()" "get_job (rs_db (snd ?r)) ''j'' \<noteq> None" "get_session (rs_db demo_claimed) ''a'' \<noteq> None"
    by code_simp+
  then obtain j where "?r = (Inr (), snd ?r)" "get_job (rs_db (snd ?r)) ''j'' = Some j"
    "get_session (rs_db demo_claimed) ''a'' \<noteq> None" by (metis not_None_eq prod.collapse)
  with run_job_settles [of demo_env demo_claimed "''a''" "''j''" "snd ?r" j] show ?thesis by (auto simp: demo_env_def)
qed



end
