(* ===== verification/Retention.thy ===== *)
theory Retention
  imports Api "HOL-Library.Multiset" "HOL-Library.Char_ord" "HOL-Library.List_Lexorder"
begin

text \<open>
  The retention helper of the deployment, \<^verbatim>\<open>nix/retention-helper.py\<close>: an operator moves a media
  file into quarantine, lists the quarantine, and purges it. The file system is modelled by its
  inodes, because the helper works on open descriptors: a descriptor is an inode number, and it
  keeps naming the same inode when another process renames a directory above it.
\<close>

subsection \<open>The file system\<close>

datatype node =
    Dir "(string \<times> nat) list"
  | Reg string
  | Symlink string
  | Special

record fs =
  fs_node :: "nat \<Rightarrow> node"
  fs_next :: nat

datatype retention_error =
    RetentionError string
  | FsError string
  | PartsIndexError
  | RecursionError

definition dir_entries :: "fs \<Rightarrow> nat \<Rightarrow> (string \<times> nat) list" where
  "dir_entries s d = (case fs_node s d of Dir es \<Rightarrow> es | _ \<Rightarrow> [])"

definition lookup :: "fs \<Rightarrow> nat \<Rightarrow> string \<Rightarrow> nat option" where
  "lookup s d name = map_of (dir_entries s d) name"

definition is_dir :: "fs \<Rightarrow> nat \<Rightarrow> bool" where
  "is_dir s i \<longleftrightarrow> (case fs_node s i of Dir _ \<Rightarrow> True | _ \<Rightarrow> False)"

definition is_link :: "node \<Rightarrow> bool" where
  "is_link n \<longleftrightarrow> (case n of Symlink _ \<Rightarrow> True | _ \<Rightarrow> False)"

definition same_kind :: "node \<Rightarrow> node \<Rightarrow> bool" where
  "same_kind a b \<longleftrightarrow> (case (a, b) of (Dir _, Dir _) \<Rightarrow> True | (Reg _, Reg _) \<Rightarrow> True
     | (Symlink _, Symlink _) \<Rightarrow> True | (Special, Special) \<Rightarrow> True | _ \<Rightarrow> False)"

definition set_node :: "nat \<Rightarrow> node \<Rightarrow> fs \<Rightarrow> fs" where
  "set_node i n s = s\<lparr>fs_node := (fs_node s)(i := n)\<rparr>"

definition drop_entry :: "nat \<Rightarrow> string \<Rightarrow> fs \<Rightarrow> fs" where
  "drop_entry d name s = set_node d (Dir (filter (\<lambda>(m, _). m \<noteq> name) (dir_entries s d))) s"

definition add_entry :: "nat \<Rightarrow> string \<Rightarrow> nat \<Rightarrow> fs \<Rightarrow> fs" where
  "add_entry d name i s = set_node d (Dir (filter (\<lambda>(m, _). m \<noteq> name) (dir_entries s d) @ [(name, i)])) s"

text \<open>\<^verbatim>\<open>os.mkdir(name, dir_fd=d)\<close> of a name that is not there.\<close>

definition make_dir :: "nat \<Rightarrow> string \<Rightarrow> fs \<Rightarrow> nat \<times> fs" where
  "make_dir d name s =
     (let i = fs_next s in (i, add_entry d name i (set_node i (Dir []) (s\<lparr>fs_next := Suc i\<rparr>))))"

subsection \<open>Opening\<close>

definition relative_parts :: "string \<Rightarrow> (retention_error, string list) result" where
  "relative_parts value =
     (let parts = filter (\<lambda>p. p \<noteq> [] \<and> p \<noteq> ''.'') (path_parts value)
      in if value = [] \<or> value = ''.'' \<or> hd value = CHR ''/''
         then Inl (RetentionError ''target must be a non-empty relative path'')
         else if ''..'' \<in> set parts
         then Inl (RetentionError ''parent traversal and empty path components are not allowed'')
         else if parts = [] then Inl PartsIndexError
         else if hd parts = ''.quarantine'' then Inl (RetentionError ''target is already in quarantine'')
         else Inr parts)"

text \<open>\<^verbatim>\<open>O_DIRECTORY | O_NOFOLLOW\<close>: only a real directory is opened, never what a link points to.\<close>

definition open_child_directory :: "fs \<Rightarrow> nat \<Rightarrow> string \<Rightarrow> (retention_error, nat) result" where
  "open_child_directory s d name =
     (case lookup s d name of
        None \<Rightarrow> Inl (RetentionError (''cannot safely open directory component '' @ name))
      | Some i \<Rightarrow> if is_dir s i then Inr i
                  else Inl (RetentionError (''cannot safely open directory component '' @ name)))"

definition open_parent :: "fs \<Rightarrow> nat \<Rightarrow> string list \<Rightarrow> (retention_error, nat) result" where
  "open_parent s root_fd parts = fold_result (open_child_directory s) root_fd (butlast parts)"

definition ensure_quarantine :: "fs \<Rightarrow> nat \<Rightarrow> (retention_error, nat) result \<times> fs" where
  "ensure_quarantine s media =
     (let s' = (if lookup s media ''.quarantine'' = None then snd (make_dir media ''.quarantine'' s) else s)
      in (open_child_directory s' media ''.quarantine'', s'))"

text \<open>\<open>names\<close> are the stamped random names of the attempts.\<close>

fun new_bucket :: "(nat \<Rightarrow> string) \<Rightarrow> fs \<Rightarrow> nat \<Rightarrow> nat \<Rightarrow> nat \<Rightarrow> (retention_error, nat \<times> string) result \<times> fs" where
  "new_bucket names s q i 0 = (Inl (RetentionError ''could not allocate a unique quarantine directory''), s)"
| "new_bucket names s q i (Suc n) =
     (if lookup s q (names i) \<noteq> None then new_bucket names s q (Suc i) n
      else let (b, s') = make_dir q (names i) s in (Inr (b, names i), s'))"

definition open_audit :: "fs \<Rightarrow> nat \<Rightarrow> (retention_error, nat) result" where
  "open_audit s data =
     (case lookup s data ''deletion-audit.log'' of
        None \<Rightarrow> Inl (RetentionError ''cannot safely open deletion-audit.log'')
      | Some i \<Rightarrow>
          (case fs_node s i of
             Reg _ \<Rightarrow> Inr i
           | Special \<Rightarrow> Inl (RetentionError ''deletion-audit.log is not a regular file'')
           | _ \<Rightarrow> Inl (RetentionError ''cannot safely open deletion-audit.log'')))"

record audit_env =
  au_stamp :: string
  au_user :: string
  au_repr :: "string \<Rightarrow> string"

definition audit :: "audit_env \<Rightarrow> nat \<Rightarrow> string \<Rightarrow> string \<Rightarrow> fs \<Rightarrow> fs" where
  "audit env fd event details s =
     set_node fd (Reg ((case fs_node s fd of Reg old \<Rightarrow> old | _ \<Rightarrow> []) @ au_stamp env @ '' '' @ event @ '' user='' @
       au_repr env (au_user env) @ '' '' @ details @ [CHR 0x0A])) s"

subsection \<open>Quarantine\<close>

text \<open>\<^verbatim>\<open>os.rename\<close> between two open directories.\<close>

definition rename_entry :: "fs \<Rightarrow> nat \<Rightarrow> nat \<Rightarrow> string \<Rightarrow> (retention_error, nat \<times> fs) result" where
  "rename_entry s src dst name =
     (case lookup s src name of
        None \<Rightarrow> Inl (FsError ''No such file or directory'')
      | Some i \<Rightarrow>
          if \<not> is_dir s dst then Inl (FsError ''No such file or directory'')
          else Inr (i, add_entry dst name i (drop_entry src name s)))"

text \<open>\<open>race\<close> is what other processes do to the file system between the checks and the rename, the point
  of the \<open>before_rename\<close> hook.\<close>

definition finish_quarantine ::
  "audit_env \<Rightarrow> string \<Rightarrow> string \<Rightarrow> string \<Rightarrow> nat \<Rightarrow> node \<Rightarrow> nat \<Rightarrow> nat \<Rightarrow> nat \<Rightarrow> fs \<Rightarrow>
   (retention_error, string) result \<times> fs" where
  "finish_quarantine env target name bucket_name opened before parent bucket audit_fd s =
     (case rename_entry s parent bucket name of
        Inl e \<Rightarrow> (Inl e, s)
      | Inr (moved, s') \<Rightarrow>
          if moved \<noteq> opened \<or> \<not> same_kind before (fs_node s' moved)
          then (Inl (RetentionError ''target changed during quarantine; the raced entry remains quarantined''),
                audit env audit_fd ''DELETE_RACE_QUARANTINED''
                  (''src='' @ au_repr env target @ '' quarantined_at='' @ au_repr env (bucket_name @ ''/'' @ name)) s')
          else
            let destination = ''.quarantine/'' @ bucket_name @ ''/'' @ name
            in (Inr destination,
                audit env audit_fd ''DELETE_REQUESTED''
                  (''src='' @ au_repr env target @ '' quarantined_at='' @ au_repr env destination) s'))"

definition open_target ::
  "fs \<Rightarrow> nat \<Rightarrow> string \<Rightarrow> (retention_error, nat \<times> nat \<times> nat \<times> string) result" where
  "open_target s data target =
     rbind (relative_parts target) (\<lambda>parts.
     rbind (open_child_directory s data ''media'') (\<lambda>media.
     rbind (open_parent s media parts) (\<lambda>parent.
       case lookup s parent (last parts) of
         None \<Rightarrow> Inl (RetentionError (''cannot safely open target '' @ target))
       | Some opened \<Rightarrow>
           if is_link (fs_node s opened) then Inl (RetentionError ''symbolic-link targets are not accepted'')
           else Inr (media, parent, opened, last parts))))"

definition quarantine ::
  "audit_env \<Rightarrow> (nat \<Rightarrow> string) \<Rightarrow> (fs \<Rightarrow> fs) \<Rightarrow> fs \<Rightarrow> nat \<Rightarrow> string \<Rightarrow> (retention_error, string) result \<times> fs" where
  "quarantine env names race s data target =
     (case open_target s data target of
        Inl e \<Rightarrow> (Inl e, s)
      | Inr (media, parent, opened, name) \<Rightarrow>
          (case ensure_quarantine s media of
             (Inl e, s1) \<Rightarrow> (Inl e, s1)
           | (Inr q, s1) \<Rightarrow>
               (case new_bucket names s1 q 0 128 of
                  (Inl e, s2) \<Rightarrow> (Inl e, s2)
                | (Inr (bucket, bucket_name), s2) \<Rightarrow>
                    (case open_audit s2 data of
                       Inl e \<Rightarrow> (Inl e, s2)
                     | Inr audit_fd \<Rightarrow>
                         finish_quarantine env target name bucket_name opened (fs_node s opened) parent bucket
                           audit_fd (race s2)))))"

subsection \<open>Purge\<close>

text \<open>The fuel is the depth of recursion Python allows.\<close>

definition rmdir :: "fs \<Rightarrow> nat \<Rightarrow> string \<Rightarrow> (retention_error, unit) result \<times> fs" where
  "rmdir s d name =
     (case lookup s d name of
        None \<Rightarrow> (Inl (FsError ''No such file or directory''), s)
      | Some i \<Rightarrow>
          if \<not> is_dir s i then (Inl (RetentionError (''quarantine entry '' @ name @ '' changed during purge; refusing'')), s)
          else if dir_entries s i \<noteq> [] then (Inl (FsError ''Directory not empty''), s)
          else (Inr (), drop_entry d name s))"

fun remove_tree :: "nat \<Rightarrow> fs \<Rightarrow> nat \<Rightarrow> string \<Rightarrow> (retention_error, unit) result \<times> fs"
  and remove_children :: "nat \<Rightarrow> fs \<Rightarrow> nat \<Rightarrow> string list \<Rightarrow> (retention_error, unit) result \<times> fs" where
  "remove_tree 0 s d name = (Inl RecursionError, s)"
| "remove_tree (Suc n) s d name =
     (case lookup s d name of
        None \<Rightarrow> (Inl (FsError ''No such file or directory''), s)
      | Some i \<Rightarrow>
          if \<not> is_dir s i then (Inr (), drop_entry d name s)
          else case remove_children n s i (map fst (dir_entries s i)) of
              (Inl e, s') \<Rightarrow> (Inl e, s')
            | (Inr _, s') \<Rightarrow> rmdir s' d name)"
| "remove_children n s d [] = (Inr (), s)"
| "remove_children n s d (name # names) =
     (case remove_tree n s d name of
        (Inl e, s') \<Rightarrow> (Inl e, s')
      | (Inr _, s') \<Rightarrow> remove_children n s' d names)"

definition open_quarantine :: "fs \<Rightarrow> nat \<Rightarrow> (retention_error, nat) result \<times> fs" where
  "open_quarantine s data =
     (case open_child_directory s data ''media'' of
        Inl e \<Rightarrow> (Inl e, s)
      | Inr media \<Rightarrow> ensure_quarantine s media)"

definition list_quarantine :: "fs \<Rightarrow> nat \<Rightarrow> (retention_error, string list) result \<times> fs" where
  "list_quarantine s data =
     (case open_quarantine s data of
        (Inl e, s') \<Rightarrow> (Inl e, s')
      | (Inr q, s') \<Rightarrow> (Inr (sort (map fst (dir_entries s' q))), s'))"

definition purge ::
  "audit_env \<Rightarrow> (string list \<Rightarrow> string) \<Rightarrow> nat \<Rightarrow> fs \<Rightarrow> nat \<Rightarrow> (retention_error, string list) result \<times> fs" where
  "purge env list_repr depth s data =
     (case open_quarantine s data of
        (Inl e, s1) \<Rightarrow> (Inl e, s1)
      | (Inr q, s1) \<Rightarrow>
          let names = sort (map fst (dir_entries s1 q))
          in if names = [] then (Inr [], s1)
             else case open_audit s1 data of
                 Inl e \<Rightarrow> (Inl e, s1)
               | Inr audit_fd \<Rightarrow>
                   let s2 = audit env audit_fd ''DELETE_PURGE_STARTED'' (''items='' @ list_repr names) s1
                   in case remove_children depth s2 q names of
                        (Inl e, s3) \<Rightarrow> (Inl e, s3)
                      | (Inr _, s3) \<Rightarrow>
                          (Inr names, fold (\<lambda>name. audit env audit_fd ''DELETE_PURGED'' (''item='' @ au_repr env name)) names s3))"

subsection \<open>Trees of directories\<close>

fun tree_dirs :: "nat \<Rightarrow> fs \<Rightarrow> nat \<Rightarrow> nat list" where
  "tree_dirs 0 s i = []"
| "tree_dirs (Suc n) s i =
     (if is_dir s i then i # concat (map (\<lambda>(_, c). tree_dirs n s c) (dir_entries s i)) else [])"

fun tidy :: "nat \<Rightarrow> fs \<Rightarrow> nat \<Rightarrow> bool" where
  "tidy 0 s i = False"
| "tidy (Suc n) s i = (distinct (map fst (dir_entries s i)) \<and> (\<forall>(_, c) \<in> set (dir_entries s i). tidy n s c))"

lemma nodes [simp]:
  "fs_node (set_node i n s) = (fs_node s)(i := n)"
  "fs_node (drop_entry d name s) = (fs_node s)(d := Dir (filter (\<lambda>(m, _). m \<noteq> name) (dir_entries s d)))"
  "fs_node (add_entry d name i s) = (fs_node s)(d := Dir (filter (\<lambda>(m, _). m \<noteq> name) (dir_entries s d) @ [(name, i)]))"
  by (simp_all add: set_node_def drop_entry_def add_entry_def)

lemma is_dir_node: "is_dir s i \<longleftrightarrow> (\<exists>es. fs_node s i = Dir es)" "fs_node s i = Dir es \<Longrightarrow> dir_entries s i = es"
  by (auto simp: is_dir_def dir_entries_def split: node.splits)

lemma tree_same:
  assumes "\<And>x. fs_node s' x \<noteq> fs_node s x \<Longrightarrow>
      is_dir s x \<and> x \<notin> set (tree_dirs n s i) \<or> \<not> is_dir s x \<and> \<not> is_dir s' x"
  shows "tree_dirs n s' i = tree_dirs n s i \<and> tidy n s' i = tidy n s i"
  using assms
proof (induction n arbitrary: i)
  case (Suc n)
  have e: "dir_entries s' i = dir_entries s i" "is_dir s' i = is_dir s i"
    using Suc.prems [of i] by (cases "fs_node s' i = fs_node s i"; force simp: dir_entries_def is_dir_def split: node.splits)+
  have IH: "tree_dirs n s' c = tree_dirs n s c" "tidy n s' c = tidy n s c" if c: "(m, c) \<in> set (dir_entries s i)" for m c
  proof -
    have "is_dir s i" using c by (auto simp: dir_entries_def is_dir_def split: node.splits)
    then have "set (tree_dirs n s c) \<subseteq> set (tree_dirs (Suc n) s i)" using c by auto
    then have "is_dir s x \<and> x \<notin> set (tree_dirs n s c) \<or> \<not> is_dir s x \<and> \<not> is_dir s' x"
      if "fs_node s' x \<noteq> fs_node s x" for x using Suc.prems [OF that] by blast
    from Suc.IH [OF this] show "tree_dirs n s' c = tree_dirs n s c" "tidy n s' c = tidy n s c" by auto
  qed
  have "map (\<lambda>(_, c). tree_dirs n s' c) (dir_entries s i) = map (\<lambda>(_, c). tree_dirs n s c) (dir_entries s i)"
    by (rule map_cong) (auto simp: IH)
  moreover have "(\<forall>(_, c) \<in> set (dir_entries s i). tidy n s' c) = (\<forall>(_, c) \<in> set (dir_entries s i). tidy n s c)"
    by (rule ball_cong) (auto simp: IH)
  ultimately show ?case by (simp add: e del: map_eq_conv)
qed simp

text \<open>
  Removing an entry empties and removes the tree below it and nothing else: the entry is gone from
  its directory, and only that directory and the directories of the tree changed.
\<close>

definition removed :: "fs \<Rightarrow> fs \<Rightarrow> nat \<Rightarrow> string set \<Rightarrow> nat set \<Rightarrow> bool" where
  "removed s s' d names D \<longleftrightarrow>
     fs_node s' d = Dir (filter (\<lambda>(m, _). m \<notin> names) (dir_entries s d)) \<and>
     (\<forall>x. x \<noteq> d \<longrightarrow> x \<notin> D \<longrightarrow> fs_node s' x = fs_node s x)"

definition subtree_ok :: "nat \<Rightarrow> fs \<Rightarrow> nat \<Rightarrow> nat \<Rightarrow> bool" where
  "subtree_ok n s d i \<longleftrightarrow> tidy n s i \<and> distinct (tree_dirs n s i) \<and> d \<notin> set (tree_dirs n s i)"

lemma tree_dirs_dirs: "x \<in> set (tree_dirs n s i) \<Longrightarrow> is_dir s x"
  by (induction n arbitrary: i) (auto split: if_splits)

lemma removed_tree_same:
  assumes "removed s s' d N D" "is_dir s d" "\<And>x. x \<in> D \<Longrightarrow> is_dir s x"
    and "d \<notin> set (tree_dirs n s i)" "D \<inter> set (tree_dirs n s i) = {}"
  shows "tree_dirs n s' i = tree_dirs n s i" "tidy n s' i = tidy n s i"
proof -
  have "is_dir s x \<and> x \<notin> set (tree_dirs n s i) \<or> \<not> is_dir s x \<and> \<not> is_dir s' x"
    if "fs_node s' x \<noteq> fs_node s x" for x
  proof -
    from assms(1) that have "x = d \<or> x \<in> D" unfolding removed_def by auto
    then show ?thesis using assms(2-5) by auto
  qed
  then have "tree_dirs n s' i = tree_dirs n s i \<and> tidy n s' i = tidy n s i" by (rule tree_same)
  then show "tree_dirs n s' i = tree_dirs n s i" "tidy n s' i = tidy n s i" by simp_all
qed

lemma map_of_filter_key: "m \<notin> N \<Longrightarrow> map_of (filter (\<lambda>(k, _). k \<notin> N) es) m = map_of es m"
  by (induction es) auto

lemma lookup_removed:
  assumes "removed s s' d N D" "m \<notin> N"
  shows "lookup s' d m = lookup s d m"
  using assms unfolding removed_def lookup_def by (simp add: is_dir_node(2) map_of_filter_key)

definition tree_removal :: "nat \<Rightarrow> bool" where
  "tree_removal n \<longleftrightarrow> (\<forall>s d name i. is_dir s d \<longrightarrow> lookup s d name = Some i \<longrightarrow> subtree_ok n s d i \<longrightarrow>
     (\<exists>s'. remove_tree n s d name = (Inr (), s') \<and> removed s s' d {name} (set (tree_dirs n s i))))"

abbreviation child_dirs :: "nat \<Rightarrow> fs \<Rightarrow> nat \<Rightarrow> string \<Rightarrow> nat list" where
  "child_dirs n s d m \<equiv> tree_dirs n s (the (lookup s d m))"

lemma removed_then:
  assumes "removed s s1 d N D" "removed s1 s' d N' D'"
  shows "removed s s' d (N \<union> N') (D \<union> D')"
proof -
  have "dir_entries s1 d = filter (\<lambda>(m, _). m \<notin> N) (dir_entries s d)"
    using assms(1) by (simp add: removed_def is_dir_node(2))
  then show ?thesis using assms unfolding removed_def by (auto simp: filter_filter case_prod_beta' conj_commute)
qed

lemma children_removed:
  assumes "tree_removal n" "is_dir s d" "distinct names"
    and "\<And>m. m \<in> set names \<Longrightarrow> \<exists>i. lookup s d m = Some i \<and> subtree_ok n s d i"
    and "distinct (concat (map (child_dirs n s d) names))"
  shows "\<exists>s'. remove_children n s d names = (Inr (), s') \<and>
    removed s s' d (set names) (\<Union>m \<in> set names. set (child_dirs n s d m))"
  using assms(2-)
proof (induction names arbitrary: s)
  case Nil
  then show ?case by (auto simp: removed_def is_dir_node)
next
  case (Cons m ms)
  from Cons.prems(3) [of m] obtain i where i: "lookup s d m = Some i" "subtree_ok n s d i" by auto
  with assms(1) Cons.prems(1) obtain s1 where s1: "remove_tree n s d m = (Inr (), s1)"
    "removed s s1 d {m} (set (tree_dirs n s i))" unfolding tree_removal_def by blast
  have dir: "is_dir s1 d" using s1(2) by (simp add: removed_def is_dir_node)
  have step: "lookup s1 d k = lookup s d k \<and> child_dirs n s1 d k = child_dirs n s d k \<and>
      (\<exists>j. lookup s1 d k = Some j \<and> subtree_ok n s1 d j)" if k: "k \<in> set ms" for k
  proof -
    from k Cons.prems(3) [of k] obtain j where j: "lookup s d k = Some j" "subtree_ok n s d j" by auto
    have "k \<noteq> m" using k Cons.prems(2) by auto
    then have l: "lookup s1 d k = lookup s d k" using s1(2) by (auto intro: lookup_removed)
    have "set (tree_dirs n s i) \<inter> set (tree_dirs n s j) = {}" using Cons.prems(4) k i j by fastforce
    from removed_tree_same [OF s1(2) Cons.prems(1) tree_dirs_dirs _ this] j(2)
    have "tree_dirs n s1 j = tree_dirs n s j" "tidy n s1 j = tidy n s j" by (auto simp: subtree_ok_def)
    then show ?thesis using l j by (simp add: subtree_ok_def)
  qed
  have same: "map (child_dirs n s1 d) ms = map (child_dirs n s d) ms" 
    by (rule map_cong [OF refl]) (rule conjunct1 [OF conjunct2 [OF step]])
  have "\<exists>s'. remove_children n s1 d ms = (Inr (), s') \<and>
      removed s1 s' d (set ms) (\<Union>k \<in> set ms. set (child_dirs n s1 d k))"
  proof (rule Cons.IH [OF dir])
    show "distinct ms" using Cons.prems(2) by simp
    show "\<exists>j. lookup s1 d k = Some j \<and> subtree_ok n s1 d j" if "k \<in> set ms" for k using step [OF that] by blast
    show "distinct (concat (map (child_dirs n s1 d) ms))" unfolding same using Cons.prems(4) by simp
  qed
  then obtain s' where s': "remove_children n s1 d ms = (Inr (), s')"
    "removed s1 s' d (set ms) (\<Union>k \<in> set ms. set (child_dirs n s1 d k))" by blast
  have "(\<Union>k \<in> set ms. set (child_dirs n s1 d k)) = (\<Union>k \<in> set ms. set (child_dirs n s d k))"
    by (rule SUP_cong [OF refl]) (simp only: conjunct1 [OF conjunct2 [OF step]])
  with removed_then [OF s1(2) s'(2)] s1(1) s'(1) i(1) show ?case by auto
qed

lemma tree_removed: "tree_removal n"
proof (induction n)
  case 0
  then show ?case by (simp add: tree_removal_def subtree_ok_def)
next
  case (Suc n)
  show ?case unfolding tree_removal_def
  proof (intro allI impI)
    fix s d name i
    assume d: "is_dir s d" and l: "lookup s d name = Some i" and ok: "subtree_ok (Suc n) s d i"
    show "\<exists>s'. remove_tree (Suc n) s d name = (Inr (), s') \<and> removed s s' d {name} (set (tree_dirs (Suc n) s i))"
    proof (cases "is_dir s i")
      case False
      then show ?thesis using l by (simp add: removed_def)
    next
      case True
      let ?names = "map fst (dir_entries s i)"
      from ok True have keys: "distinct ?names" and i: "i \<noteq> d" "d \<notin> set (concat (map (\<lambda>(_, c). tree_dirs n s c) (dir_entries s i)))"
        and tidy: "\<And>m c. (m, c) \<in> set (dir_entries s i) \<Longrightarrow> tidy n s c"
        and dist: "i \<notin> set (concat (map (\<lambda>(_, c). tree_dirs n s c) (dir_entries s i)))"
          "distinct (concat (map (\<lambda>(_, c). tree_dirs n s c) (dir_entries s i)))"
        by (auto simp: subtree_ok_def)
      have look: "lookup s i m = Some c" if "(m, c) \<in> set (dir_entries s i)" for m c
        using keys that by (simp add: lookup_def)
      have dirs: "map (child_dirs n s i) ?names = map (\<lambda>(_, c). tree_dirs n s c) (dir_entries s i)"
        using look by auto
      have "\<exists>s'. remove_children n s i ?names = (Inr (), s') \<and>
          removed s s' i (set ?names) (\<Union>m \<in> set ?names. set (child_dirs n s i m))"
      proof (rule children_removed [OF Suc True keys])
        fix m assume "m \<in> set ?names"
        then obtain c where c: "(m, c) \<in> set (dir_entries s i)" by auto
        then have "distinct (tree_dirs n s c)" using dist(2) by (auto simp: distinct_concat_iff)
        moreover have "i \<notin> set (tree_dirs n s c)" using dist(1) c by auto
        ultimately show "\<exists>c. lookup s i m = Some c \<and> subtree_ok n s i c"
          using c look tidy by (auto simp: subtree_ok_def)
        next
          show "distinct (concat (map (child_dirs n s i) ?names))" unfolding dirs by (rule dist(2))
      qed
      then obtain s1 where s1: "remove_children n s i ?names = (Inr (), s1)"
        "removed s s1 i (set ?names) (\<Union>m \<in> set ?names. set (child_dirs n s i m))" by blast
      have D: "(\<Union>m \<in> set ?names. set (child_dirs n s i m)) = set (concat (map (\<lambda>(_, c). tree_dirs n s c) (dir_entries s i)))"
        unfolding dirs [symmetric] by auto
      have "filter (\<lambda>(m, _). m \<notin> set ?names) (dir_entries s i) = []" by (force simp: filter_empty_conv)
      then have d1: "fs_node s1 d = fs_node s d" "fs_node s1 i = Dir []"
        using s1(2) i unfolding D removed_def by auto
      then have "lookup s1 d name = Some i" "is_dir s1 i" "dir_entries s1 i = []" "dir_entries s1 d = dir_entries s d"
        using l by (simp_all add: lookup_def dir_entries_def is_dir_def)
      then have "remove_tree (Suc n) s d name = (Inr (), drop_entry d name s1)"
        using l True s1(1) by (simp add: rmdir_def)
      moreover have "removed s (drop_entry d name s1) d {name} (set (tree_dirs (Suc n) s i))"
        using s1(2) d1 True \<open>dir_entries s1 d = dir_entries s d\<close> unfolding D removed_def by auto
      ultimately show ?thesis by blast
    qed
  qed
qed

lemma audit_node: "fs_node (audit env fd e t s) x = (if x = fd then fs_node (audit env fd e t s) fd else fs_node s x)"
  by (simp add: audit_def)

lemma audit_not_dir: "\<not> is_dir (audit env fd e t s) fd"
  by (simp add: audit_def is_dir_def)

lemma audits_node: "x \<noteq> fd \<Longrightarrow> fs_node (fold (\<lambda>name. audit env fd e (t name)) names s) x = fs_node s x"
  by (induction names arbitrary: s) (simp_all add: audit_def)

lemma open_audit_reg: "open_audit s data = Inr afd \<Longrightarrow> \<not> is_dir s afd"
  by (auto simp: open_audit_def is_dir_def split: option.splits node.splits)

lemma open_child_dir: "open_child_directory s d name = Inr i \<Longrightarrow> is_dir s i \<and> lookup s d name = Some i"
  by (auto simp: open_child_directory_def split: option.splits if_splits)

subsection \<open>Inodes in use\<close>

text \<open>Inode numbers in use are below the next one, and the root is a directory.\<close>

definition fs_ok :: "fs \<Rightarrow> nat \<Rightarrow> bool" where
  "fs_ok s data \<longleftrightarrow> data < fs_next s \<and> (\<forall>d < fs_next s. \<forall>(m, i) \<in> set (dir_entries s d). i < fs_next s)"

lemma lookup_bound: "fs_ok s data \<Longrightarrow> d < fs_next s \<Longrightarrow> lookup s d name = Some i \<Longrightarrow> i < fs_next s"
  by (auto simp: fs_ok_def lookup_def dest!: map_of_SomeD)

lemma open_parent_bound:
  assumes "fs_ok s data" "d < fs_next s" "is_dir s d" "open_parent s d parts = Inr p"
  shows "p < fs_next s \<and> is_dir s p"
  using assms(4) [unfolded open_parent_def]
  by (rule fold_result_invariant [where P = "\<lambda>p. p < fs_next s \<and> is_dir s p"])
    (use assms in \<open>auto dest!: open_child_dir intro: lookup_bound\<close>)

lemma open_target_cases:
  assumes "open_target s data target = Inr (media, parent, opened, name)" "fs_ok s data"
  obtains parts where "relative_parts target = Inr parts" "name = last parts" "lookup s data ''media'' = Some media"
    "open_parent s media parts = Inr parent" "lookup s parent name = Some opened" "\<not> is_link (fs_node s opened)"
    "parent < fs_next s" "is_dir s parent" "opened < fs_next s" "media < fs_next s" "is_dir s media"
proof -
  from assms(1) obtain parts where *: "relative_parts target = Inr parts" "name = last parts"
    "open_child_directory s data ''media'' = Inr media" "open_parent s media parts = Inr parent"
    "lookup s parent name = Some opened" "\<not> is_link (fs_node s opened)"
    by (auto simp: open_target_def split: option.splits if_splits)
  from open_child_dir [OF *(3)] have m: "is_dir s media" "lookup s data ''media'' = Some media" by auto
  have mb: "media < fs_next s" using assms(2) m(2) by (auto simp: fs_ok_def intro: lookup_bound)
  with open_parent_bound [OF assms(2) _ m(1) *(4)] have p: "parent < fs_next s" "is_dir s parent" by auto
  show thesis by (rule that [OF *(1,2) m(2) *(4-6) p lookup_bound [OF assms(2) p(1) *(5)] mb m(1)])
qed

text \<open>What the creation of a directory does to the others.\<close>

lemma make_dir_node:
  assumes "make_dir d name s = (i, s')"
  shows "i = fs_next s" "fs_next s' = Suc (fs_next s)"
    "x \<noteq> d \<Longrightarrow> x \<noteq> i \<Longrightarrow> fs_node s' x = fs_node s x" "d \<noteq> i \<Longrightarrow> fs_node s' i = Dir []" "is_dir s' d"
  using assms by (auto simp: make_dir_def Let_def is_dir_def add_entry_def set_node_def)

lemma new_bucket_cases:
  assumes "new_bucket names s q i n = (Inr (b, bname), s')"
  shows "b = fs_next s \<and> fs_next s' = Suc (fs_next s) \<and> (\<exists>k. bname = names k) \<and> is_dir s' q \<and>
    (q \<noteq> b \<longrightarrow> fs_node s' b = Dir []) \<and> (\<forall>x. x \<noteq> q \<longrightarrow> x \<noteq> b \<longrightarrow> fs_node s' x = fs_node s x)"
  using assms
proof (induction n arbitrary: i)
  case (Suc n)
  show ?case
  proof (cases "lookup s q (names i) = None")
    case True
    obtain c t where m: "make_dir q (names i) s = (c, t)" by force
    with Suc.prems True have "c = b" "t = s'" "bname = names i" by (auto simp: Let_def)
    with make_dir_node [OF m] show ?thesis by auto
  qed (use Suc in auto)
qed simp

lemma lookup_added: "fs_node s d = Dir (filter (\<lambda>(m, _). m \<noteq> name) es @ [(name, i)]) \<Longrightarrow> lookup s d name = Some i"
proof -
  have "map_of (filter (\<lambda>(m, _). m \<noteq> name) es @ [(name, i)]) name = Some i" by (induction es) auto
  then show "fs_node s d = Dir (filter (\<lambda>(m, _). m \<noteq> name) es @ [(name, i)]) \<Longrightarrow> ?thesis"
    by (simp add: lookup_def dir_entries_def)
qed

lemma ensure_quarantine_cases:
  assumes "ensure_quarantine s media = (Inr q, s1)" "fs_ok s data" "media < fs_next s"
  shows "is_dir s1 q" "fs_next s \<le> fs_next s1" "q < fs_next s1"
    "x \<noteq> media \<Longrightarrow> x \<noteq> q \<Longrightarrow> fs_node s1 x = fs_node s x" "is_dir s x \<Longrightarrow> is_dir s1 x"
proof -
  let ?n = "''.quarantine''"
  have "is_dir s1 q \<and> fs_next s \<le> fs_next s1 \<and> q < fs_next s1 \<and>
    (\<forall>x. x \<noteq> media \<longrightarrow> x \<noteq> q \<longrightarrow> fs_node s1 x = fs_node s x) \<and> (\<forall>x. is_dir s x \<longrightarrow> is_dir s1 x)"
  proof (cases "lookup s media ?n")
    case None
    obtain i t where m: "make_dir media ?n s = (i, t)" by force
    with assms(1) None have t: "t = s1" "open_child_directory t media ?n = Inr q" by (auto simp: ensure_quarantine_def Let_def)
    have ne: "media \<noteq> i" using make_dir_node(1) [OF m] assms(3) by simp
    have "lookup t media ?n = Some i"
      by (rule lookup_added [of t media ?n "dir_entries s media"])
        (use m ne in \<open>auto simp: make_dir_def Let_def add_entry_def set_node_def dir_entries_def\<close>)
    with open_child_dir [OF t(2)] have q: "q = i" "is_dir t i" by auto
    have "is_dir t x" if "is_dir s x" for x
      using that make_dir_node(3) [OF m, of x] make_dir_node(5) [OF m] q(2) by (cases "x = media \<or> x = i") (auto simp: is_dir_def)
    with q make_dir_node [OF m] t(1) show ?thesis by auto
  next
    case (Some j)
    with assms(1) have "s1 = s" "open_child_directory s media ?n = Inr q" by (auto simp: ensure_quarantine_def)
    with open_child_dir [of s media ?n q] lookup_bound [OF assms(2,3), of ?n q] show ?thesis by auto
  qed
  then show "is_dir s1 q" "fs_next s \<le> fs_next s1" "q < fs_next s1"
    "x \<noteq> media \<Longrightarrow> x \<noteq> q \<Longrightarrow> fs_node s1 x = fs_node s x" "is_dir s x \<Longrightarrow> is_dir s1 x" by blast+
qed

lemma finish_quarantine_Inr:
  assumes "finish_quarantine env target name bname opened before parent bucket afd s = (Inr dest, s')"
  shows "\<exists>s3 ev dt. rename_entry s parent bucket name = Inr (opened, s3) \<and> s' = audit env afd ev dt s3 \<and>
    dest = ''.quarantine/'' @ bname @ ''/'' @ name"
proof (cases "rename_entry s parent bucket name")
  case (Inr r)
  obtain moved s3 where r: "r = (moved, s3)" by force
  show ?thesis
  proof (cases "moved \<noteq> opened \<or> \<not> same_kind before (fs_node s3 moved)")
    case True
    with assms Inr r show ?thesis unfolding finish_quarantine_def by simp
  next
    case False
    with assms Inr r have "dest = ''.quarantine/'' @ bname @ ''/'' @ name" "\<exists>ev dt. s' = audit env afd ev dt s3"
      unfolding finish_quarantine_def Let_def by (simp_all only: sum.case prod.case if_False prod.inject sum.inject) blast+
    with False Inr r show ?thesis by blast
  qed
qed (use assms in \<open>simp add: finish_quarantine_def\<close>)

subsection \<open>An example\<close>

definition demo_audit :: audit_env where
  "demo_audit = \<lparr>au_stamp = ''t'', au_user = ''op'', au_repr = (\<lambda>v. v)\<rparr>"

definition demo_fs :: fs where
  "demo_fs = \<lparr>fs_node = (\<lambda>_. Special)(0 := Dir [(''media'', 1), (''deletion-audit.log'', 2)],
     1 := Dir [(''session'', 3), (''.quarantine'', 5)], 2 := Reg [], 3 := Dir [(''d.wav'', 4)], 4 := Reg ''x'',
     5 := Dir [(''b'', 6)], 6 := Dir [(''outside-link'', 7), (''old.wav'', 8)], 7 := Symlink ''/outside'', 8 := Reg ''y''),
     fs_next = 9\<rparr>"

text \<open>Another process moves the session directory away and puts a link in its place.\<close>

definition demo_race :: "fs \<Rightarrow> fs" where
  "demo_race s = set_node 1 (Dir [(''session-opened'', 3), (''session'', 7), (''.quarantine'', 5)]) s"

definition demo_names :: "nat \<Rightarrow> string" where
  "demo_names i = ''n'' @ nat_str i"

lemma demo_fs_ok: "fs_ok demo_fs 0"
  by (auto simp: fs_ok_def demo_fs_def dir_entries_def less_Suc_eq numeral_eq_Suc)

lemma demo_moved: "fst (quarantine demo_audit demo_names demo_race demo_fs 0 ''session/d.wav'') = Inr ''.quarantine/n0/d.wav''"
  by code_simp

lemma demo_tree: "tidy (Suc 2) demo_fs 5" "distinct (tree_dirs (Suc 2) demo_fs 5)"
  "open_audit demo_fs 0 = Inr 2" "map fst (dir_entries demo_fs 5) = [''b'']"
  by code_simp+

lemma demo_open: "open_quarantine demo_fs 0 = (Inr 5, demo_fs)"
  by (simp add: open_quarantine_def open_child_directory_def ensure_quarantine_def lookup_def dir_entries_def is_dir_def
      demo_fs_def)

subsection \<open>Properties\<close>





end
