(* ===== verification/Addresses.thy ===== *)
theory Addresses
  imports Transcripts "HOL-Library.Word"
begin

unbundle bit_operations_syntax

text \<open>
  The part of Python's \<^verbatim>\<open>ipaddress\<close> module that \<^verbatim>\<open>auth.py\<close> and \<^verbatim>\<open>config.py\<close> use: reading an
  address or a network from text and testing membership. An IPv4 address is a 32-bit word, an
  IPv6 address a 128-bit word; a scope id is checked and dropped, because no operation used here
  looks at it. \<^const>\<open>None\<close> is the \<^verbatim>\<open>ValueError\<close> that text raises when it is neither.
\<close>

subsection \<open>Reading an address\<close>

text \<open>\<^verbatim>\<open>s.split(sep)\<close> for a separator of one character.\<close>

fun split_on :: "char \<Rightarrow> string \<Rightarrow> string list" where
  "split_on sep [] = [[]]"
| "split_on sep (c # cs) =
     (case split_on sep cs of
        [] \<Rightarrow> [[c]]
      | p # ps \<Rightarrow> if c = sep then [] # p # ps else (c # p) # ps)"

definition parse_octet :: "string \<Rightarrow> nat option" where
  "parse_octet s =
     (if s = [] \<or> \<not> list_all is_digit s \<or> 3 < length s \<or> (s \<noteq> ''0'' \<and> hd s = CHR ''0'') \<or> 255 < digits_val s
      then None else Some (digits_val s))"

definition octets_word :: "nat list \<Rightarrow> 32 word" where
  "octets_word octets = foldl (\<lambda>a n. push_bit 8 a OR word_of_nat n) 0 octets"

definition parse_ipv4 :: "string \<Rightarrow> 32 word option" where
  "parse_ipv4 s =
     (let octets = split_on CHR ''.'' s
      in if s = [] \<or> CHR ''/'' \<in> set s \<or> length octets \<noteq> 4 then None
         else map_option octets_word (those (map parse_octet octets)))"

definition hex_val :: "char \<Rightarrow> nat option" where
  "hex_val c =
     (let n = of_char c :: nat
      in if 48 \<le> n \<and> n \<le> 57 then Some (n - 48)
         else if 65 \<le> n \<and> n \<le> 70 then Some (n - 55)
         else if 97 \<le> n \<and> n \<le> 102 then Some (n - 87) else None)"

definition parse_hextet :: "string \<Rightarrow> nat option" where
  "parse_hextet s =
     (if s = [] \<or> 4 < length s then None
      else map_option (foldl (\<lambda>a d. 16 * a + d) 0) (those (map hex_val s)))"

fun hex_str :: "nat \<Rightarrow> string" where
  "hex_str n = (if n < 16 then [hex_char n] else hex_str (n div 16) @ [hex_char (n mod 16)])"

text \<open>An IPv4 suffix counts as two groups of hexadecimal digits.\<close>

definition expand_suffix :: "string list \<Rightarrow> string list option" where
  "expand_suffix parts =
     (if CHR ''.'' \<in> set (last parts)
      then map_option (\<lambda>a. butlast parts @ [hex_str (unat (drop_bit 16 a AND 0xFFFF)), hex_str (unat (a AND 0xFFFF))])
             (parse_ipv4 (last parts))
      else Some parts)"

text \<open>The groups before \<open>::\<close>, the number of groups it stands for, and the groups after it.\<close>

definition group_layout :: "string list \<Rightarrow> (string list \<times> nat \<times> string list) option" where
  "group_layout parts =
     (case filter (\<lambda>i. parts ! i = []) [1..<length parts - 1] of
        [] \<Rightarrow> if length parts \<noteq> 8 \<or> hd parts = [] \<or> last parts = [] then None else Some (parts, 0, [])
      | [k] \<Rightarrow>
          (let hi = (if hd parts = [] then k - 1 else k);
               lo = length parts - k - 1 - (if last parts = [] then 1 else 0)
           in if (hd parts = [] \<and> hi \<noteq> 0) \<or> (last parts = [] \<and> lo \<noteq> 0) \<or> 8 \<le> hi + lo then None
              else Some (take hi parts, 8 - (hi + lo), drop (length parts - lo) parts))
      | _ \<Rightarrow> None)"

definition shift_in :: "128 word \<Rightarrow> nat list \<Rightarrow> 128 word" where
  "shift_in a hextets = foldl (\<lambda>a h. push_bit 16 a OR word_of_nat h) a hextets"

definition parse_ipv6_groups :: "string \<Rightarrow> 128 word option" where
  "parse_ipv6_groups s =
     (let parts = split_on CHR '':'' s
      in if s = [] \<or> length parts < 3 then None
         else case expand_suffix parts of
             None \<Rightarrow> None
           | Some parts \<Rightarrow>
               if 9 < length parts then None
               else case group_layout parts of
                   None \<Rightarrow> None
                 | Some (hi, skipped, lo) \<Rightarrow>
                     (case (those (map parse_hextet hi), those (map parse_hextet lo)) of
                        (Some hs, Some ls) \<Rightarrow> Some (shift_in (push_bit (16 * skipped) (shift_in 0 hs)) ls)
                      | _ \<Rightarrow> None))"

definition parse_ipv6 :: "string \<Rightarrow> 128 word option" where
  "parse_ipv6 s =
     (let address = takeWhile (\<lambda>c. c \<noteq> CHR ''%'') s; rest = dropWhile (\<lambda>c. c \<noteq> CHR ''%'') s
      in if CHR ''/'' \<in> set s \<or> (rest \<noteq> [] \<and> (tl rest = [] \<or> CHR ''%'' \<in> set (tl rest))) then None
         else parse_ipv6_groups address)"

datatype ip = V4 "32 word" | V6 "128 word"

definition ip_address :: "string \<Rightarrow> ip option" where
  "ip_address s = (case parse_ipv4 s of Some a \<Rightarrow> Some (V4 a) | None \<Rightarrow> map_option V6 (parse_ipv6 s))"

definition ipv4_mapped :: "128 word \<Rightarrow> 32 word option" where
  "ipv4_mapped a = (if drop_bit 32 a = 0xFFFF then Some (ucast a) else None)"

subsection \<open>Networks\<close>

definition netmask :: "nat \<Rightarrow> 'a::len word" where
  "netmask n = - 1 XOR drop_bit n (- 1)"

definition parse_prefix :: "nat \<Rightarrow> string \<Rightarrow> nat option" where
  "parse_prefix max_prefix s =
     (if s \<noteq> [] \<and> list_all is_digit s \<and> digits_val s \<le> max_prefix then Some (digits_val s) else None)"

definition prefix_of_mask :: "32 word \<Rightarrow> nat option" where
  "prefix_of_mask m =
     (let zeroes = length (takeWhile (\<lambda>i. \<not> bit m i) [0..<32])
      in if drop_bit zeroes m = mask (32 - zeroes) then Some (32 - zeroes) else None)"

text \<open>A mask is a prefix length or, for IPv4, a netmask or the complement of one.\<close>

definition make_netmask4 :: "string \<Rightarrow> nat option" where
  "make_netmask4 s =
     (case parse_prefix 32 s of
        Some n \<Rightarrow> Some n
      | None \<Rightarrow>
          if CHR ''/'' \<in> set s then None
          else case parse_ipv4 s of
              None \<Rightarrow> None
            | Some m \<Rightarrow> (case prefix_of_mask m of Some n \<Rightarrow> Some n | None \<Rightarrow> prefix_of_mask (NOT m)))"

datatype network = Net4 "32 word" nat | Net6 "128 word" nat

definition network4 :: "string \<Rightarrow> string option \<Rightarrow> network option" where
  "network4 address m =
     (case (parse_ipv4 address, case m of None \<Rightarrow> Some 32 | Some s \<Rightarrow> make_netmask4 s) of
        (Some a, Some n) \<Rightarrow> Some (Net4 (a AND netmask n) n) | _ \<Rightarrow> None)"

definition network6 :: "string \<Rightarrow> string option \<Rightarrow> network option" where
  "network6 address m =
     (case (parse_ipv6 address, case m of None \<Rightarrow> Some 128 | Some s \<Rightarrow> parse_prefix 128 s) of
        (Some a, Some n) \<Rightarrow> Some (Net6 (a AND netmask n) n) | _ \<Rightarrow> None)"

text \<open>\<^verbatim>\<open>ip_network(text, strict=False)\<close>: host bits are cleared.\<close>

definition ip_network :: "string \<Rightarrow> network option" where
  "ip_network s =
     (case split_on CHR ''/'' s of
        [a] \<Rightarrow> (case network4 a None of Some n \<Rightarrow> Some n | None \<Rightarrow> network6 a None)
      | [a, m] \<Rightarrow> (case network4 a (Some m) of Some n \<Rightarrow> Some n | None \<Rightarrow> network6 a (Some m))
      | _ \<Rightarrow> None)"

fun in_network :: "ip \<Rightarrow> network \<Rightarrow> bool" where
  "in_network (V4 a) (Net4 n p) \<longleftrightarrow> a AND netmask p = n"
| "in_network (V6 a) (Net6 n p) \<longleftrightarrow> a AND netmask p = n"
| "in_network _ _ \<longleftrightarrow> False"

fun is_loopback :: "ip \<Rightarrow> bool" where
  "is_loopback (V4 a) \<longleftrightarrow> in_network (V4 a) (Net4 0x7F000000 8)"
| "is_loopback (V6 a) \<longleftrightarrow> a = 1"

subsection \<open>Networks as sets of addresses\<close>

lemma bit_netmask [simp]:
  "bit (netmask n :: 'a::len word) i \<longleftrightarrow> i < LENGTH('a) \<and> LENGTH('a) \<le> i + n"
  by (auto simp: netmask_def bit_simps)

text \<open>Two addresses have the same network exactly when they agree on the prefix.\<close>

definition same_prefix :: "nat \<Rightarrow> 'a::len word \<Rightarrow> 'a word \<Rightarrow> bool" where
  "same_prefix n a b \<longleftrightarrow> (\<forall>i < LENGTH('a). LENGTH('a) \<le> i + n \<longrightarrow> bit a i = bit b i)"

lemma masked_eq_iff: "a AND netmask n = b AND netmask n \<longleftrightarrow> same_prefix n a b"
  for a b :: "'a::len word"
  by (auto simp: bit_eq_iff bit_and_iff same_prefix_def)

fun in_cidr :: "ip \<Rightarrow> ip \<Rightarrow> nat \<Rightarrow> bool" where
  "in_cidr (V4 a) (V4 b) n \<longleftrightarrow> same_prefix n a b"
| "in_cidr (V6 a) (V6 b) n \<longleftrightarrow> same_prefix n a b"
| "in_cidr _ _ _ \<longleftrightarrow> False"

lemma network4_Some: "network4 t m = Some net \<Longrightarrow>
    \<exists>a n. parse_ipv4 t = Some a \<and> n \<le> 32 \<and> net = Net4 (a AND netmask n) n"
  by (auto simp: network4_def make_netmask4_def parse_prefix_def prefix_of_mask_def Let_def
      split: option.splits if_splits)

lemma network6_Some: "network6 t m = Some net \<Longrightarrow>
    \<exists>a n. parse_ipv6 t = Some a \<and> n \<le> 128 \<and> net = Net6 (a AND netmask n) n"
  by (auto simp: network6_def parse_prefix_def split: option.splits if_splits)

lemma ip_network_cidr:
  assumes "ip_network t = Some net"
  obtains base n where "n \<le> 128" "\<And>x. in_network x net \<longleftrightarrow> in_cidr x base n"
proof -
  obtain a m where "network4 a m = Some net \<or> network6 a m = Some net"
    using assms by (auto simp: ip_network_def split: list.splits option.splits)
  then obtain base n where "n \<le> 128" "\<And>x. in_network x net \<longleftrightarrow> in_cidr x base n"
  proof
    assume "network4 a m = Some net"
    from network4_Some [OF this] obtain b n where "n \<le> 32" "net = Net4 (b AND netmask n) n" by blast
    then have "n \<le> 128" "in_network x net \<longleftrightarrow> in_cidr x (V4 b) n" for x
      by (cases x; simp add: masked_eq_iff)+
    then show ?thesis by (rule that)
  next
    assume "network6 a m = Some net"
    from network6_Some [OF this] obtain b n where "n \<le> 128" "net = Net6 (b AND netmask n) n" by blast
    then have "n \<le> 128" "in_network x net \<longleftrightarrow> in_cidr x (V6 b) n" for x
      by (cases x; simp add: masked_eq_iff)+
    then show ?thesis by (rule that)
  qed
  then show ?thesis by (rule that)
qed

subsection \<open>Printing an IPv4 address\<close>

lemma split_on_not_Nil [simp]: "split_on sep s \<noteq> []"
  by (induction s) (auto split: list.splits)

lemma split_on_plain: "sep \<notin> set s \<Longrightarrow> split_on sep s = [s]"
  by (induction s) auto

lemma split_on_append: "sep \<notin> set p \<Longrightarrow> split_on sep (p @ sep # s) = p # split_on sep s"
  by (induction p) (auto split: list.splits)

definition print_ipv4 :: "32 word \<Rightarrow> string" where
  "print_ipv4 a = py_join ''.'' (map (\<lambda>i. nat_str (unat (take_bit 8 (drop_bit i a)))) [24, 16, 8, 0])"

lemma octets_word_bytes:
  "octets_word (map (\<lambda>i. unat (take_bit 8 (drop_bit i a))) [24, 16, 8, 0]) = a" for a :: "32 word"
proof (rule bit_word_eqI)
  fix i :: nat assume "i < LENGTH(32)"
  then consider "i < 8" | "8 \<le> i" "i < 16" | "16 \<le> i" "i < 24" | "24 \<le> i" "i < 32" by fastforce
  then show "bit (octets_word (map (\<lambda>i. unat (take_bit 8 (drop_bit i a))) [24, 16, 8, 0])) i = bit a i"
    by cases (auto simp: octets_word_def bit_simps)
qed

lemma digits_val_append: "digits_val (s @ [c]) = 10 * digits_val s + ((of_char c :: nat) - 48)"
  by (simp add: digits_val_def)

lemma digits_val_nat_str [simp]: "digits_val (nat_str n) = n"
proof (induction n rule: nat_str.induct)
  case (1 n)
  show ?case
  proof (cases "n < 10")
    case True
    then show ?thesis by (simp add: nat_str_digit digits_val_def digit_char_def)
  next
    case False
    then show ?thesis
      using 1 by (subst nat_str.simps) (simp add: digits_val_append, simp add: digit_char_def)
  qed
qed

lemma nat_str_no_leading_zero: "0 < n \<Longrightarrow> hd (nat_str n) \<noteq> CHR ''0''"
proof (induction n rule: nat_str.induct)
  case (1 n)
  show ?case
  proof (cases "n < 10")
    case True
    with 1 show ?thesis
      using digit_char_inj [of n 0] by (auto simp: nat_str_digit)
  next
    case False
    then show ?thesis using 1 by (subst nat_str.simps) (simp add: div_greater_zero_iff)
  qed
qed

lemma nat_str_short: "n < 1000 \<Longrightarrow> length (nat_str n) \<le> 3"
proof -
  have "n < 10 ^ k \<Longrightarrow> length (nat_str n) \<le> k" if "0 < k" for n k :: nat
    using that
  proof (induction k arbitrary: n)
    case (Suc k)
    show ?case
    proof (cases "n < 10")
      case True
      then show ?thesis by (simp add: nat_str_digit)
    next
      case False
      then have "0 < k" using Suc.prems(1) by (cases k) auto
      moreover have "n div 10 < 10 ^ k" using Suc.prems(1) by (simp add: less_mult_imp_div_less mult.commute)
      ultimately show ?thesis using Suc.IH [of "n div 10"] False by (subst nat_str.simps) simp
    qed
  qed simp
  from this [of 3 n] show "n < 1000 \<Longrightarrow> length (nat_str n) \<le> 3" by simp
qed

lemma parse_octet_nat_str: "n < 256 \<Longrightarrow> parse_octet (nat_str n) = Some n"
  using nat_str_no_leading_zero [of n] nat_str_short [of n]
  by (cases "n = 0") (simp, code_simp, auto simp: parse_octet_def list_all_iff dest: nat_str_digits)

lemma nat_str_no_sep: "\<not> is_digit c \<Longrightarrow> c \<notin> set (nat_str n)"
  using nat_str_digits by blast

lemma separators_no_digit [simp]: "\<not> is_digit CHR ''.''" "\<not> is_digit CHR ''/''" "\<not> is_digit CHR '',''"
  by (simp_all add: is_digit_def)

lemma parse_print_ipv4: "parse_ipv4 (print_ipv4 a) = Some a"
proof -
  let ?b = "\<lambda>i. unat (take_bit 8 (drop_bit i a))"
  have b: "?b i < 256" for i
    using take_bit_nat_less_exp [of 8 "unat (drop_bit i a)"] by (simp add: unsigned_take_bit_eq)
  have s: "split_on CHR ''.'' (print_ipv4 a) = map (\<lambda>i. nat_str (?b i)) [24, 16, 8, 0]"
    by (simp add: print_ipv4_def split_on_append split_on_plain nat_str_no_sep)
  have "CHR ''/'' \<notin> set (print_ipv4 a)" "print_ipv4 a \<noteq> []"
    by (auto simp: print_ipv4_def dest: nat_str_digits)
  then show ?thesis
    using octets_word_bytes [of a] b [of 0] by (simp add: parse_ipv4_def s parse_octet_nat_str [OF b] parse_octet_nat_str)
qed

lemma ip_network_cidr4:
  assumes "n \<le> 32"
  shows "ip_network (print_ipv4 a @ ''/'' @ nat_str n) = Some (Net4 (a AND netmask n) n)"
proof -
  have "CHR ''/'' \<notin> set (print_ipv4 a)" by (auto simp: print_ipv4_def dest: nat_str_digits)
  then have s: "split_on CHR ''/'' (print_ipv4 a @ ''/'' @ nat_str n) = [print_ipv4 a, nat_str n]"
    by (simp add: split_on_append split_on_plain nat_str_no_sep)
  have "make_netmask4 (nat_str n) = Some n"
    using assms by (auto simp: make_netmask4_def parse_prefix_def list_all_iff nat_str_digits)
  then show ?thesis
    unfolding ip_network_def s by (simp add: network4_def parse_print_ipv4)
qed

lemma ip_address_print: "ip_address (print_ipv4 a) = Some (V4 a)"
  by (simp add: ip_address_def parse_print_ipv4)

subsection \<open>Mapped addresses\<close>

declare hex_str.simps [simp del]

lemma hex_str_digit: "n < 16 \<Longrightarrow> hex_str n = [hex_char n]"
  by (simp add: hex_str.simps)

lemma hex_val_hex_char: "n < 16 \<Longrightarrow> hex_val (hex_char n) = Some n"
  by (auto simp: hex_val_def hex_char_def Let_def)

lemma those_append: "those (xs @ ys) = Option.bind (those xs) (\<lambda>a. map_option ((@) a) (those ys))"
  by (induction xs) (auto split: option.splits simp: option.map_comp comp_def map_option_case bind_split)

lemma hex_str_values: "\<exists>ds. those (map hex_val (hex_str n)) = Some ds \<and> foldl (\<lambda>a d. 16 * a + d) 0 ds = n"
proof (induction n rule: hex_str.induct)
  case (1 n)
  show ?case
  proof (cases "n < 16")
    case True
    then show ?thesis by (simp add: hex_str_digit hex_val_hex_char)
  next
    case False
    with 1 obtain ds where "those (map hex_val (hex_str (n div 16))) = Some ds" "foldl (\<lambda>a d. 16 * a + d) 0 ds = n div 16"
      by blast
    then show ?thesis using False by (subst hex_str.simps) (simp add: those_append hex_val_hex_char)
  qed
qed

lemma hex_str_length: "0 < k \<Longrightarrow> n < 16 ^ k \<Longrightarrow> hex_str n \<noteq> [] \<and> length (hex_str n) \<le> k"
proof (induction k arbitrary: n)
  case (Suc k)
  show ?case
  proof (cases "n < 16")
    case True
    then show ?thesis by (simp add: hex_str_digit)
  next
    case False
    then have "0 < k" using Suc.prems(2) by (cases k) auto
    moreover have "n div 16 < 16 ^ k" using Suc.prems(2) by (simp add: less_mult_imp_div_less mult.commute)
    ultimately show ?thesis using Suc.IH [of "n div 16"] False by (simp add: hex_str.simps [of n])
  qed
qed simp

lemma parse_hextet_hex_str: "n < 65536 \<Longrightarrow> parse_hextet (hex_str n) = Some n"
  using hex_str_values [of n] hex_str_length [of 4 n] by (auto simp: parse_hextet_def)

lemma those_None: "None \<in> set xs \<Longrightarrow> those xs = None"
  by (induction xs) (auto split: option.splits)

lemma split_on_covers: "c \<in> set s \<Longrightarrow> c \<noteq> sep \<Longrightarrow> \<exists>p \<in> set (split_on sep s). c \<in> set p"
proof (induction s)
  case (Cons x xs)
  then show ?case using split_on_not_Nil [of sep xs] by (auto split: list.splits)
qed simp

lemma parse_ipv4_colon:
  assumes "CHR '':'' \<in> set s" shows "parse_ipv4 s = None"
proof -
  obtain p where p: "p \<in> set (split_on CHR ''.'' s)" "CHR '':'' \<in> set p"
    using split_on_covers [OF assms, of "CHR ''.''"] by auto
  moreover have "\<not> is_digit CHR '':''" by (simp add: is_digit_def)
  ultimately have "\<not> list_all is_digit p" by (auto simp: list_all_iff)
  then have "parse_octet p = None" by (simp add: parse_octet_def)
  then have "those (map parse_octet (split_on CHR ''.'' s)) = None"
    using p by (intro those_None) (metis image_eqI list.set_map)
  then show ?thesis by (simp add: parse_ipv4_def Let_def)
qed

definition mapped_text :: "32 word \<Rightarrow> string" where
  "mapped_text a = ''::ffff:'' @ print_ipv4 a"

lemma print_ipv4_chars: "c \<in> set (print_ipv4 a) \<Longrightarrow> is_digit c \<or> c = CHR ''.''"
  by (auto simp: print_ipv4_def dest: nat_str_digits)

lemma split_mapped_text: "split_on CHR '':'' (mapped_text a) = [[], [], ''ffff'', print_ipv4 a]"
proof -
  have "CHR '':'' \<notin> set (print_ipv4 a)" using print_ipv4_chars [of "CHR '':''" a] by (auto simp: is_digit_def)
  then show ?thesis by (simp add: mapped_text_def split_on_plain)
qed

lemma print_ipv4_dot: "CHR ''.'' \<in> set (print_ipv4 a)"
  by (simp add: print_ipv4_def)

lemma hextet_bound: "unat ((w :: 32 word) AND 0xFFFF) < 65536"
proof -
  have "unat (w AND 0xFFFF) \<le> unat (0xFFFF :: 32 word)"
    by (rule word_and_le1 [THEN word_le_nat_alt [THEN iffD1]])
  then show ?thesis by simp
qed

lemma ipv4_mapped_shift:
  fixes a :: "32 word"
  shows "ipv4_mapped (shift_in 0 [0xFFFF, unat (drop_bit 16 a AND 0xFFFF), unat (a AND 0xFFFF)]) = Some a"
proof -
  let ?w = "shift_in 0 [0xFFFF, unat (drop_bit 16 a AND 0xFFFF), unat (a AND 0xFFFF)]"
  have m: "(0xFFFF :: 32 word) = mask 16" "(0xFFFF :: 128 word) = mask 16" by (simp_all add: mask_numeral)
  have b: "bit ?w i \<longleftrightarrow> i < 128 \<and> (if i < 32 then bit a i else i < 48)" for i
    by (auto simp: shift_in_def m bit_simps)
  have "bit (drop_bit 32 ?w) i = bit (mask 16 :: 128 word) i" if "i < 128" for i
    using b [of "32 + i"] that by (auto simp only: bit_drop_bit_eq comp_apply bit_mask_iff) auto
  then have "drop_bit 32 ?w = 0xFFFF" unfolding m(2) by (intro bit_word_eqI) simp
  moreover have "ucast ?w = a" by (rule bit_word_eqI) (simp only: bit_unsigned_iff b, simp)
  ultimately show ?thesis by (simp add: ipv4_mapped_def)
qed

lemma group_layout_mapped:
  "x \<noteq> [] \<Longrightarrow> y \<noteq> [] \<Longrightarrow> group_layout [[], [], ''ffff'', x, y] = Some ([], 5, [''ffff'', x, y])"
  by (simp add: group_layout_def upt_rec)

lemma parse_ipv6_mapped:
  "parse_ipv6 (mapped_text a) = Some (shift_in 0 [0xFFFF, unat (drop_bit 16 a AND 0xFFFF), unat (a AND 0xFFFF)])"
proof -
  have "\<not> is_digit CHR ''%''" by (simp add: is_digit_def)
  then have p: "CHR ''%'' \<notin> set (print_ipv4 a)" "CHR ''/'' \<notin> set (print_ipv4 a)"
    using print_ipv4_chars [of "CHR ''%''" a] print_ipv4_chars [of "CHR ''/''" a] by fastforce+
  then have no: "CHR ''%'' \<notin> set (mapped_text a)" "CHR ''/'' \<notin> set (mapped_text a)"
    by (simp_all add: mapped_text_def)
  have ne: "hex_str n \<noteq> []" for n by (subst hex_str.simps) simp
  have f: "parse_hextet ''ffff'' = Some 0xFFFF" by (simp add: parse_hextet_def hex_val_def)
  have t: "takeWhile (\<lambda>c. c \<noteq> CHR ''%'') (mapped_text a) = mapped_text a"
    "dropWhile (\<lambda>c. c \<noteq> CHR ''%'') (mapped_text a) = []"
    unfolding takeWhile_eq_all_conv dropWhile_eq_Nil_conv using no(1) by blast+
  have m: "mapped_text a \<noteq> []" by (simp add: mapped_text_def)
  have e: "expand_suffix [[], [], ''ffff'', print_ipv4 a] =
      Some [[], [], ''ffff'', hex_str (unat (drop_bit 16 a AND 0xFFFF)), hex_str (unat (a AND 0xFFFF))]"
    by (simp add: expand_suffix_def print_ipv4_dot parse_print_ipv4)
  have "parse_ipv6_groups (mapped_text a) =
    Some (shift_in 0 [0xFFFF, unat (drop_bit 16 a AND 0xFFFF), unat (a AND 0xFFFF)])"
    unfolding parse_ipv6_groups_def split_mapped_text Let_def e
    by (simp add: m group_layout_mapped ne f parse_hextet_hex_str hextet_bound) (simp add: shift_in_def)
  then show ?thesis using no unfolding parse_ipv6_def t Let_def by simp
qed

end
