(* ===== verification/Auth.thy ===== *)
theory Auth
  imports Api Providers Addresses
begin

unbundle bit_operations_syntax

text \<open>
  The settings of the API with their validator (\<^verbatim>\<open>evidence_api/config.py\<close>) and the
  authentication of a request (\<^verbatim>\<open>evidence_api/auth.py\<close>). A request is what the handlers see of it:
  the lookup of a header, which the web framework provides, and the host of the peer's socket. A
  header value can hold any byte, decoded as Latin-1; the comparison of the secret raises on
  characters outside ASCII, as \<^verbatim>\<open>hmac.compare_digest\<close> does on strings. Messages of the responses
  are left out, their codes are not.
\<close>

subsection \<open>Settings\<close>

datatype Environment = ENV_PRODUCTION | ENV_DEVELOPMENT | ENV_TEST

datatype AuthMode = AUTH_TRUSTED_PROXY | AUTH_DEVELOPMENT

datatype ProviderKind = PROVIDER_DISABLED | PROVIDER_HTTP_JSON

datatype Role = VIEWER | EDITOR | ADMIN

fun role_value :: "Role \<Rightarrow> int" where
  "role_value VIEWER = 1"
| "role_value EDITOR = 2"
| "role_value ADMIN = 3"

lemma role_value_inj: "role_value a = role_value b \<Longrightarrow> a = b"
  by (cases a; cases b) simp_all

instantiation Role :: linorder
begin

definition less_eq_Role :: "Role \<Rightarrow> Role \<Rightarrow> bool" where
  "less_eq_Role a b \<longleftrightarrow> role_value a \<le> role_value b"

definition less_Role :: "Role \<Rightarrow> Role \<Rightarrow> bool" where
  "less_Role a b \<longleftrightarrow> role_value a < role_value b"

instance
  by standard (auto simp: less_eq_Role_def less_Role_def intro: role_value_inj)

end

record Settings =
  environment :: Environment
  database_url :: string
  media_root :: string
  max_upload_bytes :: int
  auth_mode :: AuthMode
  trusted_email_header :: string
  trusted_username_header :: string
  trusted_user_header :: string
  trusted_groups_header :: string
  trusted_proxy_secret_header :: string
  trusted_proxy_shared_secret :: "string option"
  trusted_proxy_networks :: string
  admin_groups :: string
  editor_groups :: string
  development_user :: string
  development_role :: Role
  speakr_base_url :: "string option"
  speakr_api_token :: "string option"
  speakr_webhook_secret :: "string option"
  speakr_timeout_seconds :: rat
  speakr_verify_tls :: bool
  webhook_freshness_seconds :: int
  extraction_provider :: ProviderKind
  extraction_endpoint :: "string option"
  extraction_api_key :: "string option"
  summary_max_themes :: int
  extraction_timeout_seconds :: rat
  worker_poll_seconds :: rat
  worker_transcription_poll_seconds :: rat
  worker_job_lease_seconds :: int
  reconciliation_interval_seconds :: int
  worker_max_attempts :: int

definition default_settings :: Settings where
  "default_settings = \<lparr>environment = ENV_PRODUCTION, database_url = ''sqlite:///./evidence.db'',
     media_root = ''./data/media'', max_upload_bytes = 5 * 1024 * 1024 * 1024,
     auth_mode = AUTH_TRUSTED_PROXY, trusted_email_header = ''x-auth-request-email'',
     trusted_username_header = ''x-auth-request-preferred-username'',
     trusted_user_header = ''x-auth-request-user'', trusted_groups_header = ''x-auth-request-groups'',
     trusted_proxy_secret_header = ''x-ai-coaching-proxy-auth'', trusted_proxy_shared_secret = None,
     trusted_proxy_networks = ''127.0.0.1/32,::1/128'', admin_groups = ''evidence-admins'',
     editor_groups = ''evidence-editors'', development_user = ''local-developer@example.invalid'',
     development_role = ADMIN, speakr_base_url = None, speakr_api_token = None,
     speakr_webhook_secret = None, speakr_timeout_seconds = 60, speakr_verify_tls = True,
     webhook_freshness_seconds = 300, extraction_provider = PROVIDER_DISABLED, extraction_endpoint = None,
     extraction_api_key = None, summary_max_themes = 25,
     extraction_timeout_seconds = 900, worker_poll_seconds = 5, worker_transcription_poll_seconds = 15,
     worker_job_lease_seconds = 1200, reconciliation_interval_seconds = 3600, worker_max_attempts = 3\<rparr>"

definition summary_endpoint :: "Settings \<Rightarrow> string option" where
  "summary_endpoint st =
     (if \<not> truthy (extraction_endpoint st) then None
      else Some (rstrip_slash (the (extraction_endpoint st)) @ ''/summarize''))"

definition consolidation_endpoint :: "Settings \<Rightarrow> string option" where
  "consolidation_endpoint st =
     (if \<not> truthy (extraction_endpoint st) then None
      else Some (rstrip_slash (the (extraction_endpoint st)) @ ''/consolidate''))"

text \<open>The providers of the three gateway calls and the Speakr adapter, as the factories make them.\<close>

definition gateway_client :: "Settings \<Rightarrow> string option \<Rightarrow> client_settings" where
  "gateway_client st endpoint =
     \<lparr>cl_enabled = (extraction_provider st = PROVIDER_HTTP_JSON), cl_endpoint = endpoint,
      cl_api_key = extraction_api_key st\<rparr>"

definition create_extraction_provider :: "Settings \<Rightarrow> client_settings" where
  "create_extraction_provider st = gateway_client st (extraction_endpoint st)"

definition create_summary_provider :: "Settings \<Rightarrow> client_settings" where
  "create_summary_provider st = gateway_client st (summary_endpoint st)"

definition create_consolidation_provider :: "Settings \<Rightarrow> client_settings" where
  "create_consolidation_provider st = gateway_client st (consolidation_endpoint st)"

definition network_items :: "string \<Rightarrow> string list" where
  "network_items s = filter (\<lambda>item. item \<noteq> []) (map strip (split_on CHR '','' s))"

definition read_network :: "string \<Rightarrow> (py_error, network) result" where
  "read_network item =
     (case ip_network item of
        None \<Rightarrow> Inl (ValueError (item @ '' does not appear to be an IPv4 or IPv6 network''))
      | Some n \<Rightarrow> Inr n)"

definition check_auth_mode :: "Settings \<Rightarrow> (py_error, unit) result" where
  "check_auth_mode st =
     (if auth_mode st = AUTH_DEVELOPMENT \<and> environment st = ENV_PRODUCTION
      then Inl (ValueError ''development auth cannot be enabled in production'')
      else if auth_mode st = AUTH_TRUSTED_PROXY \<and>
        (case trusted_proxy_shared_secret st of None \<Rightarrow> False | Some s \<Rightarrow> length s < 32)
      then Inl (ValueError ''trusted_proxy_shared_secret must contain at least 32 characters'')
      else if auth_mode st = AUTH_TRUSTED_PROXY \<and> strip (trusted_proxy_secret_header st) = []
      then Inl (ValueError ''trusted_proxy_secret_header cannot be empty'')
      else Inr ())"

definition secure_development_auth :: "Settings \<Rightarrow> (py_error, Settings) result" where
  "secure_development_auth st =
     rbind (check_auth_mode st) (\<lambda>_.
     rbind (guard_else (1 \<le> webhook_freshness_seconds st)
              (ValueError ''webhook_freshness_seconds must be positive'')) (\<lambda>_.
     rbind (guard_else (0 \<le> worker_transcription_poll_seconds st)
              (ValueError ''worker_transcription_poll_seconds cannot be negative'')) (\<lambda>_.
     rbind (guard_else (1 \<le> worker_job_lease_seconds st)
              (ValueError ''worker_job_lease_seconds must be positive'')) (\<lambda>_.
     rbind (guard_else (extraction_timeout_seconds st < of_int (worker_job_lease_seconds st))
              (ValueError (''worker_job_lease_seconds must exceed extraction_timeout_seconds '' @
                 ''so a running extraction is never treated as abandoned''))) (\<lambda>_.
     rbind (map_result read_network (network_items (trusted_proxy_networks st))) (\<lambda>_.
       Inr st))))))"

subsection \<open>The peer's address\<close>

record request =
  rq_header :: "string \<Rightarrow> string option"
  rq_client :: "string option"

definition client_ip :: "request \<Rightarrow> ip option" where
  "client_ip rq =
     (let host = (case rq_client rq of None \<Rightarrow> [] | Some h \<Rightarrow> h)
      in case ip_address host of
          None \<Rightarrow> None
        | Some (V6 a) \<Rightarrow> (case ipv4_mapped a of Some b \<Rightarrow> Some (V4 b) | None \<Rightarrow> Some (V6 a))
        | Some a \<Rightarrow> Some a)"

definition is_loopback_client :: "request \<Rightarrow> bool" where
  "is_loopback_client rq = (case client_ip rq of None \<Rightarrow> False | Some a \<Rightarrow> is_loopback a)"

definition client_ip_is_trusted :: "request \<Rightarrow> Settings \<Rightarrow> (py_error, bool) result" where
  "client_ip_is_trusted rq st =
     (case client_ip rq of
        None \<Rightarrow> Inr False
      | Some a \<Rightarrow>
          rbind (map_result read_network (network_items (trusted_proxy_networks st))) (\<lambda>nets.
            Inr (list_ex (in_network a) nets)))"

subsection \<open>Identity\<close>

definition configured_groups :: "string \<Rightarrow> string list" where
  "configured_groups value =
     map (\<lambda>item. casefold (strip item)) (filter (\<lambda>item. strip item \<noteq> []) (split_on CHR '','' value))"

definition letter :: "char \<Rightarrow> bool" where
  "letter c \<longleftrightarrow> 97 \<le> (of_char (lower_char c) :: nat) \<and> (of_char (lower_char c) :: nat) \<le> 122"

definition display_char :: "char \<Rightarrow> bool" where
  "display_char c \<longleftrightarrow> letter c \<or> is_digit c \<or> c \<in> set ''._ -''"

text \<open>The shape of a UUID, which names nobody.\<close>

definition uuid_shape :: "string \<Rightarrow> bool" where
  "uuid_shape s \<longleftrightarrow>
     (let parts = split_on CHR ''-'' s
      in map length parts = [8, 4, 4, 4, 12] \<and> list_all (list_all (\<lambda>c. hex_val c \<noteq> None)) parts)"

definition safe_display_name :: "string option \<Rightarrow> string \<Rightarrow> string option" where
  "safe_display_name candidate subject =
     (if \<not> truthy candidate then None
      else let value = strip (the candidate)
           in if value = [] then None
              else if casefold value = casefold subject then None
              else if CHR ''@'' \<in> set value \<or> py_in ''://'' value then None
              else if \<not> list_all display_char value then None
              else if \<not> list_ex letter value then None
              else if uuid_shape value then None
              else if 64 < length value then None
              else Some value)"

fun display_username :: "string \<Rightarrow> string option list \<Rightarrow> string" where
  "display_username subject [] = ''Authenticated user''"
| "display_username subject (c # cs) =
     (case safe_display_name c (strip subject) of Some n \<Rightarrow> n | None \<Rightarrow> display_username subject cs)"

record Principal =
  subject :: string
  username :: string
  role :: Role

definition is_ascii :: "string \<Rightarrow> bool" where
  "is_ascii s \<longleftrightarrow> list_all (\<lambda>c. (of_char c :: nat) < 128) s"

definition compare_digest :: "string \<Rightarrow> string \<Rightarrow> (py_error, bool) result" where
  "compare_digest a b =
     (if is_ascii a \<and> is_ascii b then Inr (a = b)
      else Inl (TypeError ''comparing strings with non-ASCII characters is not supported''))"

definition header_or :: "request \<Rightarrow> string \<Rightarrow> string" where
  "header_or rq name = (case rq_header rq name of None \<Rightarrow> [] | Some v \<Rightarrow> v)"

definition role_of_groups :: "Settings \<Rightarrow> string \<Rightarrow> Role" where
  "role_of_groups st header =
     (let groups = configured_groups header
      in if list_ex (\<lambda>g. g \<in> set (configured_groups (admin_groups st))) groups then ADMIN
         else if list_ex (\<lambda>g. g \<in> set (configured_groups (editor_groups st))) groups then EDITOR
         else VIEWER)"

definition http :: "nat \<Rightarrow> string \<Rightarrow> (api_error, 'a) result" where
  "http code error = Inl (Http code error)"

definition development_principal :: "Settings \<Rightarrow> request \<Rightarrow> (api_error, Principal) result" where
  "development_principal st rq =
     (if \<not> is_loopback_client rq then http 401 ''development_auth_requires_loopback''
      else Inr \<lparr>subject = development_user st,
             username = display_username (development_user st) [Some (development_user st)],
             role = development_role st\<rparr>)"

definition identity :: "Settings \<Rightarrow> request \<Rightarrow> (api_error, Principal) result" where
  "identity st rq =
     (if \<not> truthy (rq_header rq (trusted_email_header st)) then http 401 ''authentication_required''
      else let s = the (rq_header rq (trusted_email_header st))
           in Inr \<lparr>subject = strip s,
                username = display_username s
                  [rq_header rq (trusted_username_header st), rq_header rq (trusted_user_header st)],
                role = role_of_groups st (header_or rq (trusted_groups_header st))\<rparr>)"

definition require_principal :: "Settings \<Rightarrow> request \<Rightarrow> (api_error, Principal) result" where
  "require_principal st rq =
     (if auth_mode st = AUTH_DEVELOPMENT then development_principal st rq
      else if \<not> truthy (trusted_proxy_shared_secret st) then http 401 ''proxy_secret_required''
      else rbind (from_py (compare_digest (header_or rq (trusted_proxy_secret_header st))
                    (the (trusted_proxy_shared_secret st)))) (\<lambda>same.
           if \<not> same then http 401 ''proxy_secret_required''
           else rbind (from_py (client_ip_is_trusted rq st)) (\<lambda>trusted.
             if \<not> trusted then http 401 ''untrusted_proxy'' else identity st rq)))"

definition require_role :: "Principal \<Rightarrow> Role \<Rightarrow> (api_error, Principal) result" where
  "require_role p r = (if role p < r then http 403 ''insufficient_role'' else Inr p)"

definition require_editor :: "Settings \<Rightarrow> request \<Rightarrow> (api_error, Principal) result" where
  "require_editor st rq = rbind (require_principal st rq) (\<lambda>p. require_role p EDITOR)"

definition require_admin :: "Settings \<Rightarrow> request \<Rightarrow> (api_error, Principal) result" where
  "require_admin st rq = rbind (require_principal st rq) (\<lambda>p. require_role p ADMIN)"

subsection \<open>Trusted peers\<close>

lemma from_py_eq_Inr [simp]: "from_py r = Inr x \<longleftrightarrow> r = Inr x"
  by (auto simp: from_py_def split: sum.splits py_error.splits)

definition trusted_peer :: "Settings \<Rightarrow> request \<Rightarrow> bool" where
  "trusted_peer st rq \<longleftrightarrow> (\<exists>a net. client_ip rq = Some a \<and>
     Some net \<in> ip_network ` set (network_items (trusted_proxy_networks st)) \<and> in_network a net)"

lemma read_network_Inr: "read_network t = Inr n \<longleftrightarrow> ip_network t = Some n"
  by (simp add: read_network_def split: option.splits)

lemma validated_settings:
  "secure_development_auth st = Inr st' \<longleftrightarrow> st' = st \<and> check_auth_mode st = Inr () \<and>
     1 \<le> webhook_freshness_seconds st \<and> 0 \<le> worker_transcription_poll_seconds st \<and>
     1 \<le> worker_job_lease_seconds st \<and>
     extraction_timeout_seconds st < of_int (worker_job_lease_seconds st) \<and>
     (\<exists>nets. map_result read_network (network_items (trusted_proxy_networks st)) = Inr nets)"
  by (auto simp: secure_development_auth_def)

lemma client_trusted_iff:
  assumes "map_result read_network (network_items (trusted_proxy_networks st)) = Inr nets"
  shows "client_ip_is_trusted rq st = Inr (trusted_peer st rq)"
proof (cases "client_ip rq")
  case None
  then show ?thesis by (simp add: client_ip_is_trusted_def trusted_peer_def)
next
  case (Some a)
  from assms have "list_all2 (\<lambda>t n. ip_network t = Some n) (network_items (trusted_proxy_networks st)) nets"
    by (simp add: map_result_Inr_iff read_network_Inr)
  then have "map ip_network (network_items (trusted_proxy_networks st)) = map Some nets"
    by (induction rule: list_all2_induct) auto
  then have "ip_network ` set (network_items (trusted_proxy_networks st)) = Some ` set nets"
    by (metis list.set_map)
  then show ?thesis
    using Some assms by (auto simp: client_ip_is_trusted_def trusted_peer_def list_ex_iff)
qed

subsection \<open>Names\<close>

definition presentable :: "string \<Rightarrow> bool" where
  "presentable s \<longleftrightarrow> s \<noteq> [] \<and> length s \<le> 64 \<and> list_all display_char s \<and> list_ex letter s \<and> \<not> uuid_shape s"

lemma safe_display_name_Some:
  "safe_display_name c s = Some n \<longleftrightarrow>
     truthy c \<and> n = strip (the c) \<and> presentable n \<and> casefold n \<noteq> casefold s \<and> CHR ''@'' \<notin> set n \<and> \<not> py_in ''://'' n"
  by (auto simp: safe_display_name_def presentable_def Let_def split: if_splits)

lemma display_username_cases:
  "display_username s cs = ''Authenticated user'' \<or> presentable (display_username s cs) \<and> casefold (display_username s cs) \<noteq> casefold (strip s)"
proof (induction cs)
  case Nil
  then show ?case by simp
next
  case (Cons c cs)
  show ?case
  proof (cases "safe_display_name c (strip s)")
    case None
    with Cons show ?thesis by simp
  next
    case (Some n)
    then have "presentable n \<and> casefold n \<noteq> casefold (strip s)"
      using safe_display_name_Some [of c "strip s" n] by blast
    then show ?thesis by (simp add: Some)
  qed
qed

lemma presentable_default: "presentable ''Authenticated user''"
  by code_simp

lemma development_username: "display_username u [Some u] = ''Authenticated user''"
  by (auto simp: safe_display_name_Some split: option.splits)

lemma presentable_no_at: "presentable s \<Longrightarrow> CHR ''@'' \<notin> set s"
  by (auto simp: presentable_def list_all_iff display_char_def letter_def is_digit_def lower_char_def)

subsection \<open>Roles\<close>

lemma role_of_groups_admin: "role_of_groups st h = ADMIN \<longleftrightarrow>
    set (configured_groups h) \<inter> set (configured_groups (admin_groups st)) \<noteq> {}"
  by (auto simp: role_of_groups_def Let_def list_ex_iff)

lemma role_of_groups_editor: "EDITOR \<le> role_of_groups st h \<longleftrightarrow>
    set (configured_groups h) \<inter> (set (configured_groups (admin_groups st)) \<union> set (configured_groups (editor_groups st))) \<noteq> {}"
  by (auto simp: role_of_groups_def Let_def list_ex_iff less_eq_Role_def)


subsection \<open>Lists of networks\<close>

lemma split_on_join:
  assumes "\<And>p. p \<in> set ps \<Longrightarrow> sep \<notin> set p" "ps \<noteq> []"
  shows "split_on sep (py_join [sep] ps) = ps"
  using assms by (induction "[sep]" ps rule: py_join.induct) (simp_all add: split_on_plain split_on_append)

lemma strip_id: "(\<And>c. c \<in> set s \<Longrightarrow> \<not> is_ws c) \<Longrightarrow> strip s = s"
  by (metis dropWhile_eq_self_iff hd_in_set rev_is_Nil_conv rev_rev_ident set_rev strip_def)

definition print_cidr :: "32 word \<times> nat \<Rightarrow> string" where
  "print_cidr c = print_ipv4 (fst c) @ ''/'' @ nat_str (snd c)"

lemma print_cidr_chars: "ch \<in> set (print_cidr c) \<Longrightarrow> is_digit ch \<or> ch = CHR ''.'' \<or> ch = CHR ''/''"
  by (auto simp: print_cidr_def print_ipv4_def dest: nat_str_digits)

lemma digit_not_ws: "is_digit c \<Longrightarrow> \<not> is_ws c"
  by (auto simp: is_digit_def is_ws_def)

lemma dot_slash_not_ws: "\<not> is_ws CHR ''.''" "\<not> is_ws CHR ''/''"
  by (simp_all add: is_ws_def)

lemma strip_print_cidr: "strip (print_cidr c) = print_cidr c"
  by (rule strip_id) (metis print_cidr_chars digit_not_ws dot_slash_not_ws)

lemma network_items_cidrs: "network_items (py_join '','' (map print_cidr nets)) = map print_cidr nets"
proof (cases "nets = []")
  case True
  then show ?thesis by (simp add: network_items_def strip_def)
next
  case False
  have "CHR '','' \<notin> set (print_cidr c)" for c using print_cidr_chars [of "CHR '',''" c] by auto
  then have "split_on CHR '','' (py_join '','' (map print_cidr nets)) = map print_cidr nets"
    using False by (intro split_on_join) auto
  moreover have "print_cidr c \<noteq> []" for c by (simp add: print_cidr_def)
  ultimately show ?thesis by (simp add: network_items_def comp_def strip_print_cidr)
qed

lemma read_networks_cidrs:
  assumes "\<And>c. c \<in> set nets \<Longrightarrow> snd c \<le> 32"
  shows "map_result read_network (map print_cidr nets) =
    Inr (map (\<lambda>c. Net4 (fst c AND netmask (snd c)) (snd c)) nets)"
proof -
  have "read_network (print_cidr c) = Inr (Net4 (fst c AND netmask (snd c)) (snd c))" if "c \<in> set nets" for c
    using ip_network_cidr4 [OF assms [OF that], of "fst c"] by (simp add: read_network_def print_cidr_def)
  then show ?thesis
    by (simp add: map_result_Inr_iff list_all2_map1 list_all2_map2 list.rel_refl_strong)
qed


lemma client_ip_of_text:
  assumes "rq_client rq \<in> {Some (print_ipv4 a), Some (mapped_text a)}"
  shows "client_ip rq = Some (V4 a)"
proof -
  have "parse_ipv4 (mapped_text a) = None" by (rule parse_ipv4_colon) (simp add: mapped_text_def)
  then show ?thesis
    using assms by (auto simp: client_ip_def ip_address_def parse_print_ipv4 parse_ipv6_mapped ipv4_mapped_shift)
qed


subsection \<open>Properties\<close>

text \<open>C16: in production a request is authenticated exactly when it carries the configured secret. With
  settings that passed validation, a principal is returned if and only if a secret of at least 32
  ASCII characters is configured and equals the secret header, the peer's socket address lies in
  one of the configured networks, and the identity header is not empty; the principal is then the
  one of the identity headers, with the role of its groups. Development identities never occur.\<close>

theorem production_principal_iff:
  assumes "secure_development_auth st = Inr st" "environment st = ENV_PRODUCTION"
  shows "require_principal st rq = Inr p \<longleftrightarrow>
    (\<exists>secret s. trusted_proxy_shared_secret st = Some secret \<and> 32 \<le> length secret \<and> is_ascii secret \<and>
       rq_header rq (trusted_proxy_secret_header st) = Some secret \<and> trusted_peer st rq \<and>
       rq_header rq (trusted_email_header st) = Some s \<and> s \<noteq> [] \<and>
       p = \<lparr>subject = strip s,
            username = display_username s
              [rq_header rq (trusted_username_header st), rq_header rq (trusted_user_header st)],
            role = role_of_groups st (header_or rq (trusted_groups_header st))\<rparr>)"
proof -
  from assms(1) obtain nets where c: "check_auth_mode st = Inr ()"
    and n: "map_result read_network (network_items (trusted_proxy_networks st)) = Inr nets"
    by (auto simp: validated_settings)
  have mode: "auth_mode st = AUTH_TRUSTED_PROXY"
    using c assms(2) by (cases "auth_mode st") (auto simp: check_auth_mode_def)
  have len: "32 \<le> length secret" if "trusted_proxy_shared_secret st = Some secret" for secret
    using c mode that by (auto simp: check_auth_mode_def split: if_splits)
  show ?thesis
  proof (cases "trusted_proxy_shared_secret st")
    case None
    then show ?thesis using mode by (simp add: require_principal_def http_def)
  next
    case (Some secret)
    then have ne: "secret \<noteq> []" using len by fastforce
    have h: "header_or rq h = secret \<longleftrightarrow> rq_header rq h = Some secret" for h
      using ne by (cases "rq_header rq h") (auto simp: header_or_def)
    have i: "identity st rq = Inr p \<longleftrightarrow> (\<exists>s. rq_header rq (trusted_email_header st) = Some s \<and> s \<noteq> [] \<and>
       p = \<lparr>subject = strip s, username = display_username s
              [rq_header rq (trusted_username_header st), rq_header rq (trusted_user_header st)],
            role = role_of_groups st (header_or rq (trusted_groups_header st))\<rparr>)"
      unfolding identity_def http_def Let_def
      by (cases "rq_header rq (trusted_email_header st)") (auto simp del: display_username.simps)
    have "require_principal st rq = Inr p \<longleftrightarrow> is_ascii secret \<and>
        rq_header rq (trusted_proxy_secret_header st) = Some secret \<and> trusted_peer st rq \<and> identity st rq = Inr p"
      using Some ne mode
      by (auto simp: require_principal_def http_def compare_digest_def client_trusted_iff [OF n]
          simp del: h simp flip: h split: if_splits)
    then show ?thesis using i Some len by simp
  qed
qed


text \<open>A configuration with a secret, and a request that carries it.\<close>

definition demo_settings :: Settings where
  "demo_settings = default_settings\<lparr>trusted_proxy_shared_secret := Some (replicate 32 CHR ''k'')\<rparr>"

definition demo_login :: request where
  "demo_login = \<lparr>rq_header = map_of [(''x-ai-coaching-proxy-auth'', replicate 32 CHR ''k''),
     (''x-auth-request-email'', ''coach@example.org''), (''x-auth-request-preferred-username'', ''Coach One''),
     (''x-auth-request-groups'', ''staff, Evidence-Admins'')], rq_client = Some ''127.0.0.1''\<rparr>"

definition demo_principal :: Principal where
  "demo_principal = \<lparr>subject = ''coach@example.org'', username = ''Coach One'', role = ADMIN\<rparr>"

lemma demo_settings_valid: "secure_development_auth demo_settings = Inr demo_settings"
  by code_simp

lemma demo_authenticated: "require_principal demo_settings demo_login = Inr demo_principal"
  by code_simp

theorem production_principal_iff_witness:
  "require_principal demo_settings demo_login = Inr demo_principal \<and> trusted_peer demo_settings demo_login"
proof -
  have "environment demo_settings = ENV_PRODUCTION" by code_simp
  with production_principal_iff [OF demo_settings_valid this, of demo_login demo_principal] demo_authenticated
  show ?thesis by blast
qed


lemma demo_prefix: "same_prefix 8 (0x0A010203 :: 32 word) 0x0A000000"
  unfolding masked_eq_iff [symmetric] by code_simp


text \<open>C38: the name shown for a user is presentable and does not give the identity away. Whatever the
  headers hold, it has between 1 and 64 letters, digits and the characters \<^verbatim>\<open>._ -\<close>, with a
  letter among them, so no mail address; it is not a UUID; and it differs from the subject, case
  ignored, unless it is the fixed text that stands in for a name.\<close>

theorem username_presentable:
  assumes "require_principal st rq = Inr p"
  shows "presentable (username p) \<and> CHR ''@'' \<notin> set (username p) \<and>
    (casefold (username p) = casefold (subject p) \<longrightarrow> username p = ''Authenticated user'')"
proof -
  have "\<exists>s cs. username p = display_username s cs \<and> (subject p = strip s \<or> username p = ''Authenticated user'')"
  proof (cases "auth_mode st")
    case AUTH_DEVELOPMENT
    with assms have "username p = display_username (development_user st) [Some (development_user st)]"
      by (auto simp: require_principal_def development_principal_def http_def simp del: display_username.simps split: if_splits)
    then show ?thesis using development_username by metis
  next
    case AUTH_TRUSTED_PROXY
    with assms have "identity st rq = Inr p"
      by (auto simp: require_principal_def http_def split: if_splits)
    then have "username p = display_username (the (rq_header rq (trusted_email_header st)))
          [rq_header rq (trusted_username_header st), rq_header rq (trusted_user_header st)]"
      "subject p = strip (the (rq_header rq (trusted_email_header st)))"
      by (auto simp: identity_def http_def Let_def simp del: display_username.simps split: if_splits)
    then show ?thesis by blast
  qed
  then obtain s cs where u: "username p = display_username s cs" "subject p = strip s \<or> username p = ''Authenticated user''"
    by blast
  have "presentable (username p)" using display_username_cases [of s cs] presentable_default u(1) by metis
  then show ?thesis using presentable_no_at display_username_cases [of s cs] u by metis
qed

theorem username_presentable_witness: "presentable ''Coach One'' \<and> CHR ''@'' \<notin> set ''Coach One''"
  using username_presentable [OF demo_authenticated] by (simp add: demo_principal_def)

text \<open>A header with a character outside ASCII is not refused with 401: the comparison raises.\<close>

lemma non_ascii_secret_raises:
  assumes "auth_mode st = AUTH_TRUSTED_PROXY" "truthy (trusted_proxy_shared_secret st)"
    and "\<not> is_ascii (header_or rq (trusted_proxy_secret_header st))"
  shows "require_principal st rq = Inl (Unhandled (TypeError ''comparing strings with non-ASCII characters is not supported''))"
  using assms by (simp add: require_principal_def compare_digest_def from_py_def)

text \<open>Administration needs an administrator's group, editing one of either kind.\<close>

lemma require_admin_group:
  assumes "require_admin st rq = Inr p" "auth_mode st = AUTH_TRUSTED_PROXY"
  shows "set (configured_groups (header_or rq (trusted_groups_header st))) \<inter> set (configured_groups (admin_groups st)) \<noteq> {}"
proof -
  have "identity st rq = Inr p" "role p = ADMIN"
    using assms by (auto simp: require_admin_def require_role_def require_principal_def http_def less_Role_def
        split: if_splits) (cases "role p"; simp)
  then show ?thesis
    using role_of_groups_admin by (auto simp: identity_def http_def Let_def simp del: display_username.simps split: if_splits)
qed

end
