(* ===== verification/Openai.thy ===== *)
theory Openai
  imports Gateway Providers
begin

text \<open>
  The gateway's client of the language model, \<^verbatim>\<open>extraction_gateway/openai_client.py\<close>: the schema it
  sends, rewritten for OpenAI's strict mode, the request, and what it makes of the response. The
  schemas of the response models, which Pydantic generates, are arguments; so are \<^verbatim>\<open>json.loads\<close> and
  the transport. The messages are those of the gateway's \<^verbatim>\<open>app.py\<close>.
\<close>

subsection \<open>Strict schemas\<close>

definition UNSUPPORTED_SCHEMA_KEYWORDS :: "string list" where
  "UNSUPPORTED_SCHEMA_KEYWORDS = [''default'', ''examples'', ''format'', ''maxItems'', ''maxLength'',
     ''maxProperties'', ''maximum'', ''minItems'', ''minLength'', ''minProperties'', ''minimum'',
     ''multipleOf'', ''pattern'', ''patternProperties'', ''propertyNames'', ''uniqueItems'',
     ''unevaluatedItems'', ''unevaluatedProperties'']"

definition is_open_map :: "json \<Rightarrow> bool" where
  "is_open_map node = (case node of
      JObj kvs \<Rightarrow> obj_get kvs ''type'' JNull = JStr ''object'' \<and> map_of kvs ''properties'' = None \<and>
        obj_get kvs ''additionalProperties'' JNull \<noteq> JBool False
    | _ \<Rightarrow> False)"

text \<open>The properties that stay; each is looked up in the node as it was before the rewriting.\<close>

fun closed_properties :: "(string \<times> json) list \<Rightarrow> (string \<times> json) list \<Rightarrow>
    (py_error, (string \<times> json) list) result" where
  "closed_properties original [] = Inr []"
| "closed_properties original ((name, value) # kvs) =
     (case map_of original name of
        None \<Rightarrow> Inl (KeyError name)
      | Some node \<Rightarrow> rbind (closed_properties original kvs) (\<lambda>rest.
          Inr (if is_open_map node then rest else (name, value) # rest)))"

definition original_properties :: "(string \<times> json) list \<Rightarrow> (string \<times> json) list" where
  "original_properties node = (case map_of node ''properties'' of Some (JObj kvs) \<Rightarrow> kvs | _ \<Rightarrow> [])"

definition close_object :: "(string \<times> json) list \<Rightarrow> (string \<times> json) list \<Rightarrow> (py_error, json) result" where
  "close_object node result = (case map_of result ''properties'' of
      Some (JObj properties) \<Rightarrow>
        rbind (closed_properties (original_properties node) properties) (\<lambda>kept.
          Inr (JObj (obj_set (obj_set (obj_set result ''properties'' (JObj kept))
            ''required'' (JList (map (\<lambda>kv. JStr (fst kv)) kept))) ''additionalProperties'' (JBool False))))
    | _ \<Rightarrow>
        if obj_get result ''type'' JNull = JStr ''object''
        then Inr (JObj (obj_set result ''additionalProperties'' (JBool False)))
        else Inr (JObj result))"

fun rewrite :: "json \<Rightarrow> (py_error, json) result"
  and rewrite_list :: "json list \<Rightarrow> (py_error, json list) result"
  and rewrite_items :: "(string \<times> json) list \<Rightarrow> (py_error, (string \<times> json) list) result" where
  "rewrite (JList xs) = rbind (rewrite_list xs) (\<lambda>ys. Inr (JList ys))"
| "rewrite (JObj kvs) = rbind (rewrite_items kvs) (close_object kvs)"
| "rewrite v = Inr v"
| "rewrite_list [] = Inr []"
| "rewrite_list (x # xs) = rbind (rewrite x) (\<lambda>y. rbind (rewrite_list xs) (\<lambda>ys. Inr (y # ys)))"
| "rewrite_items [] = Inr []"
| "rewrite_items ((k, v) # kvs) =
     (if k \<in> set UNSUPPORTED_SCHEMA_KEYWORDS then rewrite_items kvs
      else rbind (rewrite v) (\<lambda>w. rbind (rewrite_items kvs) (\<lambda>ws. Inr ((k, w) # ws))))"

definition to_strict_schema :: "(string \<times> json) list \<Rightarrow> (py_error, json) result" where
  "to_strict_schema schema = rewrite (JObj schema)"

subsection \<open>The request and its answer\<close>

record openai_settings =
  oa_api_key :: "string option"
  oa_model :: string
  oa_base_url :: string

datatype openai_exc = Request_timeout | Request_failed string

type_synonym openai_transport = "string \<Rightarrow> string \<Rightarrow> json \<Rightarrow> (openai_exc, http_response) result"

record chat_message =
  cm_role :: string
  cm_content :: string

definition message_json :: "chat_message \<Rightarrow> json" where
  "message_json m = JObj [(''role'', JStr (cm_role m)), (''content'', JStr (cm_content m))]"

definition openai_payload :: "openai_settings \<Rightarrow> chat_message list \<Rightarrow> json \<Rightarrow> json" where
  "openai_payload st messages schema = JObj [
     (''model'', JStr (oa_model st)),
     (''messages'', JList (map message_json messages)),
     (''temperature'', JInt 0),
     (''response_format'', JObj [
        (''type'', JStr ''json_schema''),
        (''json_schema'', JObj [
           (''name'', JStr ''coaching_ledger_entries''), (''strict'', JBool True), (''schema'', schema)])])]"

text \<open>\<^verbatim>\<open>data["choices"][0]\<close>, and its \<^verbatim>\<open>["message"]["content"]\<close>; \<open>None\<close> is a failing subscript.\<close>

definition first_choice :: "json \<Rightarrow> (string \<times> json) list option" where
  "first_choice data = (case data of
      JObj kvs \<Rightarrow> (case map_of kvs ''choices'' of Some (JList (JObj c # _)) \<Rightarrow> Some c | _ \<Rightarrow> None)
    | _ \<Rightarrow> None)"

definition choice_content :: "(string \<times> json) list \<Rightarrow> json option" where
  "choice_content c = (case map_of c ''message'' of Some (JObj m) \<Rightarrow> map_of m ''content'' | _ \<Rightarrow> None)"

definition read_answer :: "(string \<Rightarrow> json option) \<Rightarrow> json \<Rightarrow> (client_error, json) result" where
  "read_answer loads data = (case first_choice data of
      None \<Rightarrow> Inl OpenAIClientError
    | Some c \<Rightarrow> (case choice_content c of
          None \<Rightarrow> Inl OpenAIClientError
        | Some content \<Rightarrow>
            if obj_get c ''finish_reason'' JNull \<notin> {JNull, JStr ''stop''} then Inl OpenAIClientError
            else (case content of
                JStr s \<Rightarrow> (case loads s of None \<Rightarrow> Inl OpenAIClientError | Some v \<Rightarrow> Inr v)
              | JObj kvs \<Rightarrow> Inr (JObj kvs)
              | _ \<Rightarrow> Inl OpenAIClientError)))"

definition openai_extract_json ::
  "(string \<Rightarrow> json option) \<Rightarrow> openai_transport \<Rightarrow> openai_settings \<Rightarrow> chat_message list \<Rightarrow> (string \<times> json) list \<Rightarrow>
   (client_error, json) result" where
  "openai_extract_json loads post st messages schema =
     (if \<not> truthy (oa_api_key st) then Inl OpenAIClientError
      else case to_strict_schema schema of
          Inl (KeyError k) \<Rightarrow> Inl (SchemaKeyError k)
        | Inl _ \<Rightarrow> Inl (SchemaKeyError [])
        | Inr strict \<Rightarrow>
            (case post (rstrip_slash (oa_base_url st) @ ''/chat/completions'') (bearer @ the (oa_api_key st))
                    (openai_payload st messages strict) of
               Inl Request_timeout \<Rightarrow> Inl OpenAITimeoutError
             | Inl (Request_failed _) \<Rightarrow> Inl OpenAIClientError
             | Inr r \<Rightarrow>
                 if \<not> is_success r then Inl OpenAIClientError
                 else (case hr_json r of None \<Rightarrow> Inl OpenAIClientError | Some data \<Rightarrow> read_answer loads data)))"

subsection \<open>The messages\<close>

text \<open>\<^verbatim>\<open>json.dumps(payload, ensure_ascii=False, separators=(",", ":"))\<close>; \<open>repr\<close> prints a float. The em dash
  of the prompts is one character outside ASCII, as the ellipsis is.\<close>

definition em_dash :: string where
  "em_dash = [CHR 0xFE]"

fun dumps :: "(rat \<Rightarrow> string) \<Rightarrow> json \<Rightarrow> string"
  and dumps_list :: "(rat \<Rightarrow> string) \<Rightarrow> json list \<Rightarrow> string list"
  and dumps_items :: "(rat \<Rightarrow> string) \<Rightarrow> (string \<times> json) list \<Rightarrow> string list" where
  "dumps repr JNull = ''null''"
| "dumps repr (JBool b) = (if b then ''true'' else ''false'')"
| "dumps repr (JInt i) = int_str i"
| "dumps repr (JFloat x) = repr x"
| "dumps repr JNan = ''NaN''"
| "dumps repr (JInf neg) = (if neg then ''-Infinity'' else ''Infinity'')"
| "dumps repr (JStr s) = json_str s"
| "dumps repr (JList xs) = ''['' @ py_join '','' (dumps_list repr xs) @ '']''"
| "dumps repr (JObj kvs) = ''{'' @ py_join '','' (dumps_items repr kvs) @ ''}''"
| "dumps_list repr [] = []"
| "dumps_list repr (x # xs) = dumps repr x # dumps_list repr xs"
| "dumps_items repr [] = []"
| "dumps_items repr ((k, v) # kvs) = (json_str k @ '':'' @ dumps repr v) # dumps_items repr kvs"

definition dump_entry :: "SummaryLedgerEntry \<Rightarrow> json" where
  "dump_entry e = JObj [(''id'', JStr (sl_id e)), (''topic'', JStr (sl_topic e)),
     (''exact_coach_feedback'', json_opt (sl_exact_coach_feedback e)),
     (''interpretation'', json_opt (sl_interpretation e)), (''applies_to'', json_opt (sl_applies_to e)),
     (''exercise_or_requested_change'', json_opt (sl_exercise_or_requested_change e)),
     (''next_action_and_owner'', json_opt (sl_next_action_and_owner e)),
     (''start_ms'', JInt (sl_start_ms e)), (''end_ms'', JInt (sl_end_ms e))]"

definition extraction_prompt :: string where
  "extraction_prompt =
     ''Extract source-grounded coaching ledger entries from transcript '' @
     ''segments. Return only JSON matching the supplied schema. Treat '' @
     ''segment IDs and timestamps as evidence constraints. '' @
     ''The segments are one window of a longer session; cover this '' @
     ''window thoroughly and do not summarize it into a few entries. '' @
     ''`exact_coach_feedback` must be copied character for character '' @
     ''from the text of a cited segment -- never paraphrased, '' @
     ''summarized, tidied up, or stitched together across segments. '' @
     ''Use null whenever no such verbatim span exists.''"

definition extraction_payload :: "ExtractionRequest \<Rightarrow> TranscriptSegment list \<Rightarrow> json" where
  "extraction_payload body segments = JObj [
     (''schema_version'', JStr ''coaching-ledger-v1''),
     (''session'', session_json (x_session_id body) (x_session_title body)),
     (''transcript_revision_id'', JStr (x_transcript_revision_id body)),
     (''timestamp_unit'', JStr ''milliseconds''),
     (''instructions'', JList (map JStr (x_instructions body))),
     (''segments'', JList (map dump_segment segments))]"

definition build_messages ::
  "(rat \<Rightarrow> string) \<Rightarrow> ExtractionRequest \<Rightarrow> TranscriptSegment list \<Rightarrow> chat_message list" where
  "build_messages repr body segments =
     [\<lparr>cm_role = ''system'', cm_content = extraction_prompt\<rparr>,
      \<lparr>cm_role = ''user'', cm_content = dumps repr (extraction_payload body segments)\<rparr>]"

definition consolidation_prompt :: string where
  "consolidation_prompt =
     ''You are grouping coaching ledger entries from one session. '' @
     ''Two entries belong in the same group ONLY when they address '' @
     ''the exact same technique for the same singer for the same '' @
     ''reason '' @ em_dash @ '' meaning the coach returned to the same correction '' @
     ''later in the session.'' @ [CHR 0x0A] @
     ''When in doubt whether two entries are the same point, keep '' @
     ''them in SEPARATE groups. An extra group is acceptable; '' @
     ''silently merging two distinct coaching corrections is not.'' @ [CHR 0x0A] @
     ''Every entry must appear in exactly one group. A group may '' @
     ''contain a single entry if that point was only addressed once.'' @ [CHR 0x0A] @
     ''For each group, provide a short canonical_topic that names '' @
     ''the specific coaching point in the coach's terms.''"

definition build_consolidation_messages ::
  "(rat \<Rightarrow> string) \<Rightarrow> ConsolidationRequest \<Rightarrow> chat_message list" where
  "build_consolidation_messages repr body =
     [\<lparr>cm_role = ''system'', cm_content = consolidation_prompt\<rparr>,
      \<lparr>cm_role = ''user'', cm_content = dumps repr (JObj [
         (''session'', session_json (cq_session_id body) (cq_session_title body)),
         (''entries'', JList (map dump_entry (cq_entries body)))])\<rparr>]"

definition cap_instruction :: "SummaryRequest \<Rightarrow> string" where
  "cap_instruction body = (case sq_theme_count body of
      None \<Rightarrow> []
    | Some n \<Rightarrow> if n = 0 then [] else ''Return at most '' @ int_str n @ '' themes. '')"

definition has_pre_groups :: "SummaryRequest \<Rightarrow> bool" where
  "has_pre_groups body = (case sq_pre_groups body of None \<Rightarrow> False | Some gs \<Rightarrow> gs \<noteq> [])"

definition grouping_instruction :: "SummaryRequest \<Rightarrow> string" where
  "grouping_instruction body = (if has_pre_groups body then
     ''A prior analysis has grouped the entries into clusters of '' @
     ''related coaching points (provided in pre_groups). Use these '' @
     ''clusters as your theme structure '' @ em_dash @ '' one theme per group. You '' @
     ''may split a group further if it clearly contains distinct '' @
     ''points, but do not merge groups together.'' @ [CHR 0x0A]
     else [])"

definition summary_prompt :: "SummaryRequest \<Rightarrow> string" where
  "summary_prompt body =
     ''You are summarizing one coaching session for the singers who '' @
     ''were in it. Group the supplied ledger entries into themes '' @ em_dash @ '' '' @
     ''one theme per genuinely distinct coaching point. '' @
     cap_instruction body @ grouping_instruction body @
     ''Order themes so the theme the coach '' @
     ''spent the most of the session on comes first.'' @ [CHR 0x0A] @
     ''Merge entries into the same theme ONLY when they address the '' @
     ''same technique for the same singer for the same reason. When '' @
     ''two mentions of the same correction appear at different times '' @
     ''(coach returned to the same issue), include them in one theme '' @
     ''with all their entry IDs. When in doubt whether two entries '' @
     ''are the same point, keep them as separate themes '' @ em_dash @ '' an extra '' @
     ''theme is acceptable, a silently dropped coaching point is not.'' @ [CHR 0x0A] @
     ''Titles must name the specific thing the coach worked on, in '' @
     ''the coach's own terms: 'Disengaging the glottis on da-da' or '' @
     [CHR 0x27] @ ''Aligning the E vowel in fill', never a filing-cabinet label '' @
     ''like 'Vocal Technique', 'Performance Feedback' or 'Tempo and '' @
     ''Dynamics'. If a title would fit any coaching session ever, it '' @
     ''is the wrong title.'' @ [CHR 0x0A] @
     ''The summary of each theme should say what the coach asked for, '' @
     ''what it was meant to fix, and how it developed over the '' @
     ''session.'' @ [CHR 0x0A] @
     ''Assign every entry that records real coaching to exactly one '' @
     ''theme. Leave an entry out only when it is pure logistics or '' @
     ''chatter; a related entry belongs in the closest theme rather '' @
     ''than nowhere. Themes may be large, and covering the whole '' @
     ''session matters more than keeping them tidy.'' @ [CHR 0x0A] @
     ''Use only the supplied entries: every id you cite must be one '' @
     ''you were given.''"

definition build_summary_messages :: "(rat \<Rightarrow> string) \<Rightarrow> SummaryRequest \<Rightarrow> chat_message list" where
  "build_summary_messages repr body =
     [\<lparr>cm_role = ''system'', cm_content = summary_prompt body\<rparr>,
      \<lparr>cm_role = ''user'', cm_content = dumps repr (JObj ([
         (''session'', session_json (sq_session_id body) (sq_session_title body)),
         (''entries'', JList (map dump_entry (sq_entries body)))] @
         (if has_pre_groups body then [(''pre_groups'', JList (map JObj (the (sq_pre_groups body))))] else [])))\<rparr>]"

subsection \<open>The endpoints with their client\<close>

record model_client =
  mc_loads :: "string \<Rightarrow> json option"
  mc_repr :: "rat \<Rightarrow> string"
  mc_post :: openai_transport
  mc_settings :: openai_settings

definition ask_model :: "model_client \<Rightarrow> chat_message list \<Rightarrow> (string \<times> json) list \<Rightarrow> (client_error, json) result" where
  "ask_model c messages schema = openai_extract_json (mc_loads c) (mc_post c) (mc_settings c) messages schema"

definition extract_endpoint ::
  "gateway_settings \<Rightarrow> model_client \<Rightarrow> (string \<times> json) list \<Rightarrow> (json \<Rightarrow> LedgerEntryCreate list option) \<Rightarrow>
   string option \<Rightarrow> ExtractionRequest \<Rightarrow> (gw_error, GatewayExtractionResponse) result" where
  "extract_endpoint settings c schema validate authorization body =
     gateway_extract settings (\<lambda>window. ask_model c (build_messages (mc_repr c) body window) schema)
       validate authorization body"

definition consolidate_endpoint ::
  "gateway_settings \<Rightarrow> model_client \<Rightarrow> (string \<times> json) list \<Rightarrow> (json \<Rightarrow> ConsolidationGroup list option) \<Rightarrow>
   (string list \<Rightarrow> string list) \<Rightarrow> string option \<Rightarrow> ConsolidationRequest \<Rightarrow>
   (gw_error, ConsolidationResponse) result" where
  "consolidate_endpoint settings c schema validate order authorization body =
     gateway_consolidate settings (\<lambda>b. ask_model c (build_consolidation_messages (mc_repr c) b) schema)
       validate order authorization body"

definition summarize_endpoint ::
  "gateway_settings \<Rightarrow> model_client \<Rightarrow> (string \<times> json) list \<Rightarrow> (json \<Rightarrow> SummaryThemeCreate list option) \<Rightarrow>
   string option \<Rightarrow> SummaryRequest \<Rightarrow> (gw_error, SummaryThemeCreate list) result" where
  "summarize_endpoint settings c schema validate authorization body =
     gateway_summarize settings (\<lambda>b. ask_model c (build_summary_messages (mc_repr c) b) schema)
       validate authorization body"

subsection \<open>What strict mode accepts\<close>

text \<open>At every object: none of the refused keywords; an object with properties lists exactly their names
  as required and admits no others; any other node of type object admits none at all.\<close>

definition strict_shape :: "(string \<times> json) list \<Rightarrow> bool" where
  "strict_shape kvs \<longleftrightarrow> fst ` set kvs \<inter> set UNSUPPORTED_SCHEMA_KEYWORDS = {} \<and>
     (case map_of kvs ''properties'' of
        Some (JObj ps) \<Rightarrow> map_of kvs ''required'' = Some (JList (map (\<lambda>kv. JStr (fst kv)) ps)) \<and>
          map_of kvs ''additionalProperties'' = Some (JBool False)
      | _ \<Rightarrow> map_of kvs ''type'' = Some (JStr ''object'') \<longrightarrow> map_of kvs ''additionalProperties'' = Some (JBool False))"

fun strict :: "json \<Rightarrow> bool"
  and strict_list :: "json list \<Rightarrow> bool"
  and strict_items :: "(string \<times> json) list \<Rightarrow> bool" where
  "strict (JList xs) = strict_list xs"
| "strict (JObj kvs) = (strict_shape kvs \<and> strict_items kvs)"
| "strict v = True"
| "strict_list [] = True"
| "strict_list (x # xs) = (strict x \<and> strict_list xs)"
| "strict_items [] = True"
| "strict_items ((k, v) # kvs) = (strict v \<and> strict_items kvs)"

text \<open>A schema in which no property is itself named like a part of a schema that the rewriting acts on.\<close>

definition plain_properties :: "(string \<times> json) list \<Rightarrow> bool" where
  "plain_properties kvs \<longleftrightarrow> (case map_of kvs ''properties'' of
      Some (JObj ps) \<Rightarrow> map_of ps ''properties'' = None \<and> map_of ps ''type'' \<noteq> Some (JStr ''object'')
    | _ \<Rightarrow> True)"

fun plain :: "json \<Rightarrow> bool"
  and plain_list :: "json list \<Rightarrow> bool"
  and plain_items :: "(string \<times> json) list \<Rightarrow> bool" where
  "plain (JList xs) = plain_list xs"
| "plain (JObj kvs) = (distinct (map fst kvs) \<and> plain_properties kvs \<and> plain_items kvs)"
| "plain v = True"
| "plain_list [] = True"
| "plain_list (x # xs) = (plain x \<and> plain_list xs)"
| "plain_items [] = True"
| "plain_items ((k, v) # kvs) = (plain v \<and> plain_items kvs)"

lemma strict_items_iff: "strict_items kvs \<longleftrightarrow> (\<forall>kv \<in> set kvs. strict (snd kv))"
  by (induction kvs) auto

lemma strict_list_iff: "strict_list xs \<longleftrightarrow> (\<forall>x \<in> set xs. strict x)"
  by (induction xs) auto

lemma plain_items_iff: "plain_items kvs \<longleftrightarrow> (\<forall>kv \<in> set kvs. plain (snd kv))"
  by (induction kvs) auto

lemma map_of_replace: "map_of (map (\<lambda>kv. if fst kv = k then (k, v) else kv) kvs) k' =
    (if k' = k \<and> k \<in> fst ` set kvs then Some v else map_of kvs k')"
proof (induction kvs)
  case (Cons kv kvs)
  then show ?case by (cases kv; cases "k' = k") auto
qed simp

lemma map_of_obj_set [simp]: "map_of (obj_set kvs k v) k' = (if k' = k then Some v else map_of kvs k')"
proof (cases "k \<in> fst ` set kvs")
  case True
  then show ?thesis by (simp add: obj_set_def map_of_replace)
next
  case False
  then have "map_of kvs k = None" by (simp add: map_of_eq_None_iff)
  then show ?thesis using False by (auto simp: obj_set_def map_add_def split: option.splits)
qed

lemma set_obj_set: "kv \<in> set (obj_set kvs k v) \<Longrightarrow> kv = (k, v) \<or> kv \<in> set kvs"
  by (auto simp: obj_set_def split: if_splits)

lemma keys_obj_set: "fst ` set (obj_set kvs k v) \<subseteq> insert k (fst ` set kvs)"
  using set_obj_set by fastforce

lemma strict_items_obj_set: "strict_items kvs \<Longrightarrow> strict v \<Longrightarrow> strict_items (obj_set kvs k v)"
  unfolding strict_items_iff using set_obj_set by (metis snd_conv)

lemma closed_properties_total:
  "fst ` set kvs \<subseteq> fst ` set original \<Longrightarrow> \<exists>kept. closed_properties original kvs = Inr kept \<and> set kept \<subseteq> set kvs"
proof (induction kvs)
  case (Cons kv kvs)
  obtain name v where kv: "kv = (name, v)" by (cases kv)
  with Cons.prems obtain node where n: "map_of original name = Some node"
    by (metis fst_conv image_eqI list.set_intros(1) map_of_eq_None_iff not_Some_eq subsetD)
  from Cons obtain kept where k: "closed_properties original kvs = Inr kept" "set kept \<subseteq> set kvs" by auto
  have "closed_properties original (kv # kvs) = Inr (if is_open_map node then kept else (name, v) # kept)"
    by (simp add: kv n k)
  moreover have "set (if is_open_map node then kept else (name, v) # kept) \<subseteq> set (kv # kvs)" using k kv by auto
  ultimately show ?case by blast
qed simp

lemma rewrite_items_keys: "rewrite_items kvs = Inr ws \<Longrightarrow>
    map fst ws = filter (\<lambda>k. k \<notin> set UNSUPPORTED_SCHEMA_KEYWORDS) (map fst kvs)"
  by (induction kvs arbitrary: ws) (auto split: if_splits)

lemma rewrite_items_map_of:
  assumes "rewrite_items kvs = Inr ws" "map_of ws k = Some w"
  shows "\<exists>v. map_of kvs k = Some v \<and> rewrite v = Inr w"
  using assms
proof (induction kvs arbitrary: ws)
  case (Cons kv kvs)
  obtain k0 v0 where kv: "kv = (k0, v0)" by (cases kv)
  show ?case
  proof (cases "k0 \<in> set UNSUPPORTED_SCHEMA_KEYWORDS")
    case True
    then have "rewrite_items kvs = Inr ws" using Cons.prems(1) kv by simp
    with Cons.IH Cons.prems(2) obtain v where v: "map_of kvs k = Some v" "rewrite v = Inr w" by blast
    have "k \<in> fst ` set ws" using Cons.prems(2) by (metis map_of_eq_None_iff option.distinct(1))
    then have "k \<notin> set UNSUPPORTED_SCHEMA_KEYWORDS"
      using arg_cong [OF rewrite_items_keys [OF \<open>rewrite_items kvs = Inr ws\<close>], of set] by auto
    then show ?thesis using v True kv by auto
  next
    case False
    then obtain w0 ws0 where "rewrite v0 = Inr w0" "rewrite_items kvs = Inr ws0" "ws = (k0, w0) # ws0"
      using Cons.prems(1) kv by auto
    then show ?thesis using Cons.IH [of ws0] Cons.prems(2) kv by (cases "k = k0") auto
  qed
qed simp

lemma close_object_JObj: "close_object kvs ws = Inr r \<Longrightarrow> \<exists>us. r = JObj us"
  by (auto simp: close_object_def split: option.splits json.splits if_splits)

lemma rewrite_JObj: "rewrite v = Inr (JObj us) \<Longrightarrow> \<exists>kvs. v = JObj kvs"
  by (cases v) auto

lemma rewrite_JStr: "rewrite v = Inr (JStr s) \<Longrightarrow> v = JStr s"
  by (cases v) (auto dest: close_object_JObj)

text \<open>The object that holds the properties passes unchanged, but for its values.\<close>

lemma rewrite_properties:
  assumes "rewrite (JObj ps) = Inr (JObj qs)" "map_of ps ''properties'' = None"
    and "map_of ps ''type'' \<noteq> Some (JStr ''object'')"
  shows "rewrite_items ps = Inr qs"
proof -
  from assms(1) obtain ws where w: "rewrite_items ps = Inr ws" "close_object ps ws = Inr (JObj qs)" by auto
  have "map_of ws ''properties'' = None"
    using rewrite_items_map_of [OF w(1), of "''properties''"] assms(2) by (cases "map_of ws ''properties''") simp_all
  moreover have "map_of ws ''type'' \<noteq> Some (JStr ''object'')"
    using rewrite_items_map_of [OF w(1), of "''type''"] rewrite_JStr assms(3) by metis
  then have "obj_get ws ''type'' JNull \<noteq> JStr ''object''" by (auto simp: obj_get_def split: option.splits)
  ultimately show ?thesis using w by (simp add: close_object_def)
qed


lemma unsupported_disjoint: "rewrite_items kvs = Inr ws \<Longrightarrow> fst ` set ws \<inter> set UNSUPPORTED_SCHEMA_KEYWORDS = {}"
  using arg_cong [OF rewrite_items_keys, of kvs ws set] by auto

lemma supported_keywords: "''properties'' \<notin> set UNSUPPORTED_SCHEMA_KEYWORDS" "''required'' \<notin> set UNSUPPORTED_SCHEMA_KEYWORDS"
  "''additionalProperties'' \<notin> set UNSUPPORTED_SCHEMA_KEYWORDS" "''type'' \<notin> set UNSUPPORTED_SCHEMA_KEYWORDS"
  by (simp_all add: UNSUPPORTED_SCHEMA_KEYWORDS_def)

lemma strict_kept:
  assumes "rewrite_items ps = Inr qs" "distinct (map fst ps)" "map_of ps ''properties'' = None"
    and "map_of ps ''type'' \<noteq> Some (JStr ''object'')" "strict_items qs" "set kept \<subseteq> set qs"
  shows "strict (JObj kept)"
proof -
  have d: "distinct (map fst qs)" using rewrite_items_keys [OF assms(1)] assms(2) by simp
  have m: "map_of qs k = Some v" if "map_of kept k = Some v" for k v
    using map_of_is_SomeI [OF d] map_of_SomeD [OF that] assms(6) by blast
  have "map_of kept ''properties'' = None"
    using m [of "''properties''"] rewrite_items_map_of [OF assms(1), of "''properties''"] assms(3)
    by (cases "map_of kept ''properties''") auto
  moreover have "map_of kept ''type'' \<noteq> Some (JStr ''object'')"
    using m [of "''type''"] rewrite_items_map_of [OF assms(1), of "''type''"] rewrite_JStr assms(4) by metis
  moreover have "fst ` set kept \<inter> set UNSUPPORTED_SCHEMA_KEYWORDS = {}"
    using unsupported_disjoint [OF assms(1)] assms(6) by blast
  ultimately have "strict_shape kept" by (simp add: strict_shape_def)
  then show ?thesis using assms(5,6) by (auto simp: strict_items_iff)
qed

lemma strict_closed:
  assumes "rewrite_items kvs = Inr ws" "strict_items ws" "distinct (map fst kvs)" "plain_items kvs" "plain_properties kvs"
  shows "\<exists>r. close_object kvs ws = Inr r \<and> strict r"
proof (cases "\<exists>qs. map_of ws ''properties'' = Some (JObj qs)")
  case True
  then obtain qs where q: "map_of ws ''properties'' = Some (JObj qs)" by blast
  from rewrite_items_map_of [OF assms(1) q] obtain v where v: "map_of kvs ''properties'' = Some v" "rewrite v = Inr (JObj qs)"
    by blast
  from rewrite_JObj [OF v(2)] obtain ps where ps: "v = JObj ps" by blast
  have p: "map_of ps ''properties'' = None" "map_of ps ''type'' \<noteq> Some (JStr ''object'')"
    using assms(5) v(1) ps by (simp_all add: plain_properties_def)
  have i: "rewrite_items ps = Inr qs" using rewrite_properties v(2) ps p by blast
  have keys: "fst ` set qs \<subseteq> fst ` set ps"
    using arg_cong [OF rewrite_items_keys [OF i], of set] by auto
  obtain kept where k: "closed_properties ps qs = Inr kept" "set kept \<subseteq> set qs"
    using closed_properties_total [OF keys] by blast
  have "plain (JObj ps)" using assms(4) map_of_SomeD [OF v(1)] ps by (metis plain_items_iff snd_conv)
  then have d: "distinct (map fst ps)" by simp
  have "strict (JObj qs)" using assms(2) map_of_SomeD [OF q] by (metis strict_items_iff snd_conv)
  then have sk: "strict (JObj kept)" using strict_kept [OF i d p _ k(2)] by simp
  define r where "r = obj_set (obj_set (obj_set ws ''properties'' (JObj kept)) ''required'' (JList (map (\<lambda>kv. JStr (fst kv)) kept)))
    ''additionalProperties'' (JBool False)"
  have "close_object kvs ws = Inr (JObj r)"
    using k(1) v(1) ps by (simp add: close_object_def q original_properties_def r_def)
  moreover have "strict_list (map (\<lambda>kv. JStr (fst kv)) kept)" by (simp add: strict_list_iff)
  then have "strict_items r"
    unfolding r_def using assms(2) sk by (intro strict_items_obj_set) simp_all
  moreover have "fst ` set r \<inter> set UNSUPPORTED_SCHEMA_KEYWORDS = {}"
    unfolding r_def using keys_obj_set unsupported_disjoint [OF assms(1)] supported_keywords
    by (smt (verit, best) disjoint_iff insert_iff subsetD)
  then have "strict_shape r" by (simp add: strict_shape_def r_def)
  ultimately show ?thesis by auto
next
  case False
  then have c: "close_object kvs ws = Inr (JObj (if obj_get ws ''type'' JNull = JStr ''object''
      then obj_set ws ''additionalProperties'' (JBool False) else ws))"
    by (auto simp: close_object_def split: option.splits json.splits)
  have u: "fst ` set (obj_set ws ''additionalProperties'' (JBool False)) \<inter> set UNSUPPORTED_SCHEMA_KEYWORDS = {}"
    using keys_obj_set unsupported_disjoint [OF assms(1)] supported_keywords by (smt (verit, best) disjoint_iff insert_iff subsetD)
  show ?thesis
  proof (cases "obj_get ws ''type'' JNull = JStr ''object''")
    case True
    have "strict_shape (obj_set ws ''additionalProperties'' (JBool False))"
      using u False by (auto simp: strict_shape_def split: option.splits json.splits)
    then show ?thesis using c True assms(2) strict_items_obj_set by simp
  next
    case f: False
    then have "map_of ws ''type'' \<noteq> Some (JStr ''object'')" by (auto simp: obj_get_def)
    then have "strict_shape ws"
      using unsupported_disjoint [OF assms(1)] False by (auto simp: strict_shape_def split: option.splits json.splits)
    then show ?thesis using c f assms(2) by simp
  qed
qed

lemma rewrite_strict:
  shows "plain v \<Longrightarrow> \<exists>r. rewrite v = Inr r \<and> strict r"
    and "plain_list xs \<Longrightarrow> \<exists>rs. rewrite_list xs = Inr rs \<and> strict_list rs"
    and "plain_items kvs \<Longrightarrow> \<exists>ws. rewrite_items kvs = Inr ws \<and> strict_items ws"
proof (induction v and xs and kvs rule: rewrite_rewrite_list_rewrite_items.induct)
  case (2 kvs)
  then obtain ws where "rewrite_items kvs = Inr ws" "strict_items ws" by auto
  then show ?case using strict_closed [of kvs ws] 2 by auto
qed (auto split: if_splits)


subsection \<open>What an answer is\<close>

text \<open>The model finished its answer, and \<open>v\<close> is what it holds.\<close>

definition finished :: "(string \<Rightarrow> json option) \<Rightarrow> http_response \<Rightarrow> json \<Rightarrow> bool" where
  "finished loads r v \<longleftrightarrow> is_success r \<and> (\<exists>data c content. hr_json r = Some data \<and> first_choice data = Some c \<and>
     choice_content c = Some content \<and> obj_get c ''finish_reason'' JNull \<in> {JNull, JStr ''stop''} \<and>
     ((\<exists>s. content = JStr s \<and> loads s = Some v) \<or> (\<exists>kvs. content = JObj kvs \<and> v = content)))"

lemma read_answer_iff: "read_answer loads data = Inr v \<longleftrightarrow>
    (\<exists>c content. first_choice data = Some c \<and> choice_content c = Some content \<and>
       obj_get c ''finish_reason'' JNull \<in> {JNull, JStr ''stop''} \<and>
       ((\<exists>s. content = JStr s \<and> loads s = Some v) \<or> (\<exists>kvs. content = JObj kvs \<and> v = content)))"
  unfolding read_answer_def by (auto split: option.splits json.splits if_splits)

definition request_url :: "openai_settings \<Rightarrow> string" where
  "request_url st = rstrip_slash (oa_base_url st) @ ''/chat/completions''"

lemma openai_extract_json_iff: "openai_extract_json loads post st messages schema = Inr v \<longleftrightarrow>
    (\<exists>key strict r. oa_api_key st = Some key \<and> key \<noteq> [] \<and> to_strict_schema schema = Inr strict \<and>
       post (request_url st) (bearer @ key) (openai_payload st messages strict) = Inr r \<and> finished loads r v)"
proof (cases "oa_api_key st")
  case (Some key)
  have f: "(\<exists>r. post (request_url st) (bearer @ key) (openai_payload st messages strict) = Inr r \<and> finished loads r v) \<longleftrightarrow>
    (case post (request_url st) (bearer @ key) (openai_payload st messages strict) of
       Inl Request_timeout \<Rightarrow> Inl OpenAITimeoutError
     | Inl (Request_failed _) \<Rightarrow> Inl OpenAIClientError
     | Inr r \<Rightarrow> if \<not> is_success r then Inl OpenAIClientError
         else (case hr_json r of None \<Rightarrow> Inl OpenAIClientError | Some data \<Rightarrow> read_answer loads data)) = Inr v" for strict
    by (cases "post (request_url st) (bearer @ key) (openai_payload st messages strict)")
      (auto simp: finished_def read_answer_iff split: option.splits openai_exc.splits)
  show ?thesis
    unfolding openai_extract_json_def Some option.sel request_url_def [symmetric]
    by (cases "to_strict_schema schema") (auto simp: f [symmetric] split: py_error.splits)
qed (simp add: openai_extract_json_def)

lemma split_windows_sees:
  assumes "valid_gateway_settings s" "x \<in> set segments"
    and "split_windows segments (gs_window_segment_count s) (gs_window_overlap_segments s) = Inr ws"
  shows "\<exists>w \<in> set ws. x \<in> set w"
proof (cases "length segments \<le> gs_window_segment_count s")
  case True
  then have "ws = [segments]" using assms(3) by (simp add: split_windows_def)
  then show ?thesis using assms(2) by simp
next
  case False
  let ?w = "gs_window_segment_count s" and ?o = "gs_window_overlap_segments s"
  from assms(1) have lt: "?o < ?w" by (simp add: valid_gateway_settings_def)
  with False assms(3) have ws: "ws = windows_from segments ?w (?w - ?o) 0" by (simp add: split_windows_def)
  from assms(2) obtain i where i: "i < length segments" "segments ! i = x" by (auto simp: in_set_conv_nth)
  then have "take 1 (drop i segments) = [x]" by (simp add: take_Suc_conv_app_nth hd_drop_conv_nth take_Suc)
  then show ?thesis
    using windows_from_cover [of ?w "?w - ?o" ?o 0 i 1 segments] lt i ws
    by (auto dest!: set_mono_sublist)
qed

subsection \<open>Properties\<close>

text \<open>C21: the schema sent to the model is one that strict mode accepts. For a schema none of whose
  properties is named like the keywords that the rewriting acts on, the rewriting succeeds, and in
  its result, at every depth, no unsupported keyword is left, every object with properties requires
  exactly those and admits no others, and every other object admits none.\<close>

theorem to_strict_schema_strict:
  assumes "plain (JObj schema)"
  shows "\<exists>r. to_strict_schema schema = Inr r \<and> strict r"
  using rewrite_strict(1) [OF assms] by (simp add: to_strict_schema_def)

definition demo_schema :: "(string \<times> json) list" where
  "demo_schema = [(''type'', JStr ''object''), (''properties'', JObj [
     (''topic'', JObj [(''type'', JStr ''string''), (''maxLength'', JInt 200)]),
     (''extraction_metadata'', JObj [(''type'', JStr ''object''), (''additionalProperties'', JBool True)])])]"

theorem to_strict_schema_strict_witness:
  "to_strict_schema demo_schema = Inr (JObj [(''type'', JStr ''object''),
     (''properties'', JObj [(''topic'', JObj [(''type'', JStr ''string'')])]),
     (''required'', JList [JStr ''topic'']), (''additionalProperties'', JBool False)]) \<and>
   (\<exists>r. to_strict_schema demo_schema = Inr r \<and> strict r)"
proof
  show "to_strict_schema demo_schema = Inr (JObj [(''type'', JStr ''object''),
     (''properties'', JObj [(''topic'', JObj [(''type'', JStr ''string'')])]),
     (''required'', JList [JStr ''topic'']), (''additionalProperties'', JBool False)])" by code_simp
  have "plain (JObj demo_schema)" by code_simp
  then show "\<exists>r. to_strict_schema demo_schema = Inr r \<and> strict r" by (rule to_strict_schema_strict)
qed

text \<open>A property with the name of an unsupported keyword is lost.\<close>

lemma keyword_property_lost:
  "to_strict_schema [(''type'', JStr ''object''), (''properties'', JObj [(''format'', JObj [(''type'', JStr ''string'')])])] =
   Inr (JObj [(''type'', JStr ''object''), (''properties'', JObj []), (''required'', JList []),
     (''additionalProperties'', JBool False)])"
  by code_simp

text \<open>C20: no part of a session is dropped because the model stopped early. When the extraction endpoint
  answers with entries, every segment of the transcript was in the window of a request that the model
  answered successfully, without stopping early, and with an answer that validated.\<close>

theorem extraction_complete:
  assumes "valid_gateway_settings settings"
    and "extract_endpoint settings c schema validate authorization body = Inr resp" "x \<in> set (x_segments body)"
  shows "\<exists>ws w strict key r v. split_windows (x_segments body) (gs_window_segment_count settings)
      (gs_window_overlap_segments settings) = Inr ws \<and> w \<in> set ws \<and> x \<in> set w \<and>
    to_strict_schema schema = Inr strict \<and> oa_api_key (mc_settings c) = Some key \<and>
    mc_post c (request_url (mc_settings c)) (bearer @ key)
      (openai_payload (mc_settings c) (build_messages (mc_repr c) body w) strict) = Inr r \<and>
    finished (mc_loads c) r v \<and> validate v \<noteq> None"
proof -
  from assms(2) obtain ws payloads where ws: "split_windows (x_segments body) (gs_window_segment_count settings)
              (gs_window_overlap_segments settings) = Inr ws"
    and pay: "list_all2 (\<lambda>w p. client_result (ask_model c (build_messages (mc_repr c) body w) schema) = Inr p) ws payloads"
    and resp: "coerce_entries validate payloads body = Inr resp"
    by (auto simp: extract_endpoint_def gateway_extract_def map_result_Inr_iff)
  from split_windows_sees [OF assms(1,3) ws] obtain w where w: "w \<in> set ws" "x \<in> set w" by blast
  from pay w(1) obtain v where v: "v \<in> set payloads"
    "client_result (ask_model c (build_messages (mc_repr c) body w) schema) = Inr v"
    using list_all2_left [OF pay] by blast
  then have "ask_model c (build_messages (mc_repr c) body w) schema = Inr v"
    by (auto simp: client_result_def split: sum.splits)
  moreover have "validate v \<noteq> None" using coerce_entries_cases [OF resp] v(1) by blast
  ultimately show ?thesis using w ws unfolding ask_model_def openai_extract_json_iff by blast
qed


definition demo_client :: model_client where
  "demo_client = \<lparr>mc_loads = (\<lambda>_. Some JNull), mc_repr = (\<lambda>_. []),
     mc_post = (\<lambda>_ _ _. Inr \<lparr>hr_status = 200, hr_text = [], hr_json = Some (JObj [(''choices'', JList [JObj [
        (''message'', JObj [(''content'', JStr ''{}'')]), (''finish_reason'', JStr ''stop'')]])])\<rparr>),
     mc_settings = \<lparr>oa_api_key = Some ''k'', oa_model = ''m'', oa_base_url = ''https://model/''\<rparr>\<rparr>"

definition demo_gateway_settings :: gateway_settings where
  "demo_gateway_settings = \<lparr>gs_window_segment_count = 3, gs_window_overlap_segments = 1, gs_window_concurrency = 4,
      gs_inbound_api_key = Some ''0123456789abcdef'', gs_openai_api_key = None\<rparr>"

lemma demo_ask: "ask_model demo_client ms demo_schema = Inr JNull"
proof -
  have "isl (to_strict_schema demo_schema) = False" by code_simp
  then have "\<exists>r. to_strict_schema demo_schema = Inr r" by (cases "to_strict_schema demo_schema") auto
  then show ?thesis
    by (auto simp: ask_model_def openai_extract_json_def demo_client_def read_answer_def first_choice_def choice_content_def
        obj_get_def is_success_def)
qed

lemma demo_segments: "x_segments demo_request = [demo_segment]"
  by (simp add: demo_request_def)

theorem extraction_complete_witness:
  "\<exists>x w r v. x \<in> set (x_segments demo_request) \<and> x \<in> set w \<and> finished (mc_loads demo_client) r v"
proof -
  have v: "valid_gateway_settings demo_gateway_settings" by (simp add: valid_gateway_settings_def demo_gateway_settings_def)
  have "\<exists>resp. extract_endpoint demo_gateway_settings demo_client demo_schema demo_validate
      (Some (bearer @ ''0123456789abcdef'')) demo_request = Inr resp"
    by (simp add: extract_endpoint_def gateway_extract_def demo_ask client_result_def demo_coerced split_windows_def
        demo_gateway_settings_def authorize_def demo_segments bearer_def)
  then obtain resp where r: "extract_endpoint demo_gateway_settings demo_client demo_schema demo_validate
      (Some (bearer @ ''0123456789abcdef'')) demo_request = Inr resp" ..
  have x: "hd (x_segments demo_request) \<in> set (x_segments demo_request)" by (simp add: demo_request_def)
  from extraction_complete [OF v r x] x show ?thesis by blast
qed

end
