(* ===== verification/Scoring.thy ===== *)
theory Scoring
  imports Gateway Providers "HOL-Library.Product_Lexorder"
begin

text \<open>
  The release gate of the evaluation, \<^verbatim>\<open>eval/score.py\<close>: a generated ledger is scored against a
  labelled fixture. The documents are JSON values, read with
  \<^verbatim>\<open>get\<close> and \<^verbatim>\<open>[]\<close> as the code reads them, so a document of another shape raises. Ratios and the
  thresholds they are compared with are rationals: a quotient of two counts and a decimal constant
  compare as their nearest floats do. Infinite and undefined numbers in a document, and a time given as
  text, are outside the model (\<open>Unmodelled\<close>).
\<close>

subsection \<open>Reading documents\<close>

datatype score_exc =
    Attr_error
  | Type_error
  | Key_error string
  | Index_error
  | Unmodelled

definition jget :: "json \<Rightarrow> string \<Rightarrow> json \<Rightarrow> (score_exc, json) result" where
  "jget v k d = (case v of JObj kvs \<Rightarrow> Inr (obj_get kvs k d) | _ \<Rightarrow> Inl Attr_error)"

definition jitem :: "json \<Rightarrow> string \<Rightarrow> (score_exc, json) result" where
  "jitem v k = (case v of
      JObj kvs \<Rightarrow> (case map_of kvs k of None \<Rightarrow> Inl (Key_error k) | Some x \<Rightarrow> Inr x)
    | _ \<Rightarrow> Inl Type_error)"

definition jiter :: "json \<Rightarrow> (score_exc, json list) result" where
  "jiter v = (case v of
      JList xs \<Rightarrow> Inr xs
    | JObj kvs \<Rightarrow> Inr (map (\<lambda>kv. JStr (fst kv)) kvs)
    | JStr s \<Rightarrow> Inr (map (\<lambda>c. JStr [c]) s)
    | _ \<Rightarrow> Inl Type_error)"

definition jlen :: "json \<Rightarrow> (score_exc, nat) result" where
  "jlen v = rbind (jiter v) (\<lambda>xs. Inr (length xs))"

definition jitems :: "json \<Rightarrow> (score_exc, (string \<times> json) list) result" where
  "jitems v = (case v of JObj kvs \<Rightarrow> Inr kvs | _ \<Rightarrow> Inl Attr_error)"

definition jnumber :: "json \<Rightarrow> rat option" where
  "jnumber v = (case v of
      JInt i \<Rightarrow> Some (of_int i) | JBool b \<Rightarrow> Some (if b then 1 else 0) | JFloat x \<Rightarrow> Some x | _ \<Rightarrow> None)"

text \<open>Python's \<open>==\<close> on JSON values: numbers by value, objects whatever the order of their keys.\<close>

fun py_eq :: "json \<Rightarrow> json \<Rightarrow> bool"
  and py_eq_list :: "json list \<Rightarrow> json list \<Rightarrow> bool"
  and py_eq_items :: "(string \<times> json) list \<Rightarrow> (string \<times> json) list \<Rightarrow> bool" where
  "py_eq (JList xs) w = (case w of JList ys \<Rightarrow> py_eq_list xs ys | _ \<Rightarrow> False)"
| "py_eq (JObj a) w = (case w of JObj b \<Rightarrow> length a = length b \<and> py_eq_items a b | _ \<Rightarrow> False)"
| "py_eq (JStr s) w = (w = JStr s)"
| "py_eq JNull w = (w = JNull)"
| "py_eq JNan w = False"
| "py_eq (JInf neg) w = (w = JInf neg)"
| "py_eq (JBool b) w = (jnumber w = jnumber (JBool b))"
| "py_eq (JInt i) w = (jnumber w = jnumber (JInt i))"
| "py_eq (JFloat x) w = (jnumber w = jnumber (JFloat x))"
| "py_eq_list [] ys = (ys = [])"
| "py_eq_list (x # xs) ys = (case ys of [] \<Rightarrow> False | y # ys' \<Rightarrow> py_eq x y \<and> py_eq_list xs ys')"
| "py_eq_items [] b = True"
| "py_eq_items ((k, v) # kvs) b =
     (case map_of b k of None \<Rightarrow> False | Some w \<Rightarrow> py_eq v w \<and> py_eq_items kvs b)"

definition hashable :: "json \<Rightarrow> bool" where
  "hashable v = (case v of JList _ \<Rightarrow> False | JObj _ \<Rightarrow> False | _ \<Rightarrow> True)"

text \<open>A dict built from a list of keys, by position: the last one of equal keys counts.\<close>

definition last_index :: "json list \<Rightarrow> json \<Rightarrow> nat option" where
  "last_index keys k =
     (case filter (\<lambda>i. py_eq (keys ! i) k) [0..<length keys] of [] \<Rightarrow> None | is \<Rightarrow> Some (List.last is))"

definition hash_all :: "json list \<Rightarrow> (score_exc, unit) result" where
  "hash_all keys = (if list_all hashable keys then Inr () else Inl Type_error)"

subsection \<open>Matching entries\<close>

definition alnum :: "char \<Rightarrow> bool" where
  "alnum c \<longleftrightarrow> is_digit c \<or> 97 \<le> (of_char c :: nat) \<and> (of_char c :: nat) \<le> 122"

text \<open>\<^verbatim>\<open>re.findall(r"[a-z0-9]+", text)\<close>.\<close>

function runs :: "string \<Rightarrow> string list" where
  "runs s = (let rest = dropWhile (\<lambda>c. \<not> alnum c) s
             in if rest = [] then [] else takeWhile alnum rest # runs (dropWhile alnum rest))"
  by pat_completeness auto
termination
proof (relation "measure length", simp)
  fix s rest :: string
  assume r: "rest = dropWhile (\<lambda>c. \<not> alnum c) s" "rest \<noteq> []"
  then have "alnum (hd rest)" using hd_dropWhile [of "\<lambda>c. \<not> alnum c" s] by auto
  then have "length (dropWhile alnum rest) < length rest"
    using r(2) by (cases rest) (auto simp: le_imp_less_Suc length_dropWhile_le)
  also have "\<dots> \<le> length s" using r(1) by (simp add: length_dropWhile_le)
  finally show "(dropWhile alnum rest, s) \<in> measure length" by simp
qed

declare runs.simps [simp del]

definition tokens :: "string \<Rightarrow> string list" where
  "tokens value = remdups (runs (casefold value))"

definition entry_text :: "(json \<Rightarrow> string) \<Rightarrow> json \<Rightarrow> (score_exc, string) result" where
  "entry_text repr entry =
     rbind (map_result (\<lambda>k. jget entry k (JStr [])) [''topic'', ''exact_feedback'', ''paraphrase'']) (\<lambda>vs.
       Inr (py_join '' '' (map (py_str repr) vs)))"

definition similarity :: "(json \<Rightarrow> string) \<Rightarrow> json \<Rightarrow> json \<Rightarrow> (score_exc, rat) result" where
  "similarity repr predicted gold =
     rbind (entry_text repr predicted) (\<lambda>p. rbind (entry_text repr gold) (\<lambda>g.
       let left = tokens p; right = tokens g
       in Inr (if left \<noteq> [] \<and> right \<noteq> []
               then of_nat (card (set left \<inter> set right)) / of_nat (card (set left \<union> set right)) else 0)))"

type_synonym matching = "(nat \<times> nat) list"

text \<open>The first loop, by id; \<open>i\<close> counts the predicted entries.\<close>

fun match_ids :: "json list \<Rightarrow> nat \<Rightarrow> json list \<Rightarrow> matching \<Rightarrow> (score_exc, matching) result" where
  "match_ids gold_ids i [] m = Inr m"
| "match_ids gold_ids i (entry # entries) m =
     rbind (jget entry ''id'' JNull) (\<lambda>eid.
       if \<not> hashable eid then Inl Type_error
       else match_ids gold_ids (Suc i) entries
         (case last_index gold_ids eid of
            None \<Rightarrow> m
          | Some j \<Rightarrow> if j \<in> snd ` set m then m else m @ [(i, j)]))"

definition candidates ::
  "(json \<Rightarrow> string) \<Rightarrow> json list \<Rightarrow> json list \<Rightarrow> matching \<Rightarrow> (score_exc, (rat \<times> nat \<times> nat) list) result" where
  "candidates repr predicted gold m =
     map_result (\<lambda>(i, j). rbind (similarity repr (predicted ! i) (gold ! j)) (\<lambda>s. Inr (s, i, j)))
       [(i, j). i \<leftarrow> [0..<length predicted], i \<notin> fst ` set m, j \<leftarrow> [0..<length gold], j \<notin> snd ` set m]"

definition take_candidate :: "matching \<Rightarrow> rat \<times> nat \<times> nat \<Rightarrow> matching" where
  "take_candidate m c = (case c of (s, i, j) \<Rightarrow>
     if s < 55 / 100 \<or> i \<in> fst ` set m \<or> j \<in> snd ` set m then m else m @ [(i, j)])"

definition match_entries :: "(json \<Rightarrow> string) \<Rightarrow> json list \<Rightarrow> json list \<Rightarrow> (score_exc, matching) result" where
  "match_entries repr predicted gold =
     rbind (map_result (\<lambda>e. jget e ''id'' JNull) gold) (\<lambda>gold_ids.
     rbind (hash_all gold_ids) (\<lambda>_.
     rbind (match_ids gold_ids 0 predicted []) (\<lambda>m.
     rbind (candidates repr predicted gold m) (\<lambda>cs.
       Inr (foldl take_candidate m (List.rev (sort cs)))))))"

subsection \<open>Checking an entry\<close>

definition find_segment :: "json list \<Rightarrow> json list \<Rightarrow> json \<Rightarrow> (score_exc, json option) result" where
  "find_segment keys segments k =
     (if hashable k then Inr (map_option ((!) segments) (last_index keys k)) else Inl Type_error)"

definition valid_quote ::
  "(json \<Rightarrow> string) \<Rightarrow> json list \<Rightarrow> json list \<Rightarrow> json \<Rightarrow> (score_exc, bool) result" where
  "valid_quote repr keys segments entry =
     rbind (jget entry ''exact_feedback'' (JStr [])) (\<lambda>f.
     rbind (jget entry ''evidence'' (JObj [])) (\<lambda>evidence.
     rbind (jget evidence ''feedback'' (JObj [])) (\<lambda>feedback.
     rbind (jget feedback ''segment_id'' JNull) (\<lambda>sid.
     rbind (find_segment keys segments sid) (\<lambda>segment.
       let quote = casefold (strip (py_str repr f))
       in case segment of
           None \<Rightarrow> Inr False
         | Some g \<Rightarrow>
             if quote = [] \<or> json_falsy g then Inr False
             else rbind (jget g ''text'' (JStr [])) (\<lambda>t. Inr (py_in quote (casefold (py_str repr t)))))))))"

definition action :: "(json \<Rightarrow> string) \<Rightarrow> json \<Rightarrow> (score_exc, string) result" where
  "action repr entry =
     rbind (jget entry ''action'' (JObj [])) (\<lambda>a. rbind (jget a ''normalized'' (JStr [])) (\<lambda>n. Inr (py_str repr n)))"

definition action_field :: "json \<Rightarrow> string \<Rightarrow> (score_exc, json) result" where
  "action_field entry k = rbind (jget entry ''action'' (JObj [])) (\<lambda>a. jget a k JNull)"

definition OPPOSITE_ACTIONS :: "string \<Rightarrow> string list" where
  "OPPOSITE_ACTIONS a =
     (if a = ''avoid_scoop'' then [''encourage_scoop'']
      else if a = ''delay_diphthong'' then [''advance_diphthong'']
      else if a = ''align_release_with_lead'' then [''release_separately'', ''misalign_release'']
      else if a = ''soften_third'' then [''strengthen_third'', ''increase_third'']
      else if a = ''breathe_together'' then [''breathe_separately'']
      else if a = ''avoid_acceleration'' then [''accelerate_tag'']
      else if a = ''increase_ring_not_volume'' then [''increase_volume'', ''sing_louder'']
      else [])"

definition is_reversed :: "(json \<Rightarrow> string) \<Rightarrow> json \<Rightarrow> json \<Rightarrow> (score_exc, bool) result" where
  "is_reversed repr predicted gold =
     rbind (action repr predicted) (\<lambda>pa. rbind (action repr gold) (\<lambda>ga.
       if pa \<in> set (OPPOSITE_ACTIONS ga) then Inr True
       else rbind (action_field gold ''critical'') (\<lambda>critical.
         if json_falsy critical \<or> pa = ga then Inr False
         else rbind (action_field predicted ''polarity'') (\<lambda>pp.
              rbind (action_field gold ''polarity'') (\<lambda>gp. Inr (\<not> py_eq pp gp))))))"

text \<open>\<^verbatim>\<open>"result" in evidence\<close>.\<close>

definition jcontains :: "string \<Rightarrow> json \<Rightarrow> (score_exc, bool) result" where
  "jcontains k v = (case v of
      JObj kvs \<Rightarrow> Inr (k \<in> fst ` set kvs)
    | JList xs \<Rightarrow> Inr (JStr k \<in> set xs)
    | JStr s \<Rightarrow> Inr (py_in k s)
    | _ \<Rightarrow> Inl Type_error)"

definition result_supported :: "json \<Rightarrow> json \<Rightarrow> (score_exc, bool) result" where
  "result_supported predicted gold =
     rbind (jget predicted ''observed_result'' (JStr ''not_evaluated'')) (\<lambda>r.
     rbind (jget gold ''observed_result'' (JStr ''not_evaluated'')) (\<lambda>g.
       if r \<in> {JNull, JStr ''not_evaluated''} then Inr (py_eq r g)
       else if \<not> py_eq r g then Inr False
       else rbind (jget predicted ''evidence'' (JObj [])) (jcontains ''result'')))"

text \<open>A conjunct is evaluated only when the ones before it hold.\<close>

definition and_then :: "(score_exc, bool) result \<Rightarrow> (score_exc, bool) result \<Rightarrow> (score_exc, bool) result" where
  "and_then a b = rbind a (\<lambda>x. if x then b else Inr False)"

definition entry_supported ::
  "(json \<Rightarrow> string) \<Rightarrow> json list \<Rightarrow> json list \<Rightarrow> json \<Rightarrow> json \<Rightarrow> (score_exc, bool) result" where
  "entry_supported repr keys segments predicted gold =
     rbind (result_supported predicted gold) (\<lambda>supported.
       and_then (valid_quote repr keys segments predicted)
      (and_then (rbind (jget predicted ''subject'' JNull) (\<lambda>p. rbind (jget gold ''subject'' JNull) (\<lambda>g. Inr (py_eq p g))))
      (and_then (rbind (action repr predicted) (\<lambda>p. rbind (action repr gold) (\<lambda>g. Inr (p = g))))
      (and_then (rbind (jget predicted ''paraphrase'' (JStr [])) (\<lambda>p. Inr (strip (py_str repr p) \<noteq> [])))
      (and_then (rbind (jget predicted ''paraphrase'' JNull) (\<lambda>p.
                 rbind (jget predicted ''exact_feedback'' JNull) (\<lambda>f. Inr (\<not> py_eq p f))))
        (Inr supported))))))"

subsection \<open>Counting\<close>

record tally =
  t_unsupported :: nat
  t_reversed :: nat
  t_invented :: nat
  t_attribution :: nat
  t_verification :: nat
  t_relevant :: nat
  t_links :: nat
  t_seek :: "rat list"
  t_with_evidence :: nat

definition no_tally :: tally where
  "no_tally = \<lparr>t_unsupported = 0, t_reversed = 0, t_invented = 0, t_attribution = 0, t_verification = 0,
     t_relevant = 0, t_links = 0, t_seek = [], t_with_evidence = 0\<rparr>"

text \<open>A number that is compared or subtracted.\<close>

definition unbounded :: "json \<Rightarrow> bool" where
  "unbounded v = (case v of JNan \<Rightarrow> True | JInf _ \<Rightarrow> True | _ \<Rightarrow> False)"

definition number_at :: "json \<Rightarrow> string \<Rightarrow> (score_exc, rat) result" where
  "number_at v k = rbind (jitem v k) (\<lambda>x.
     case jnumber x of Some q \<Rightarrow> Inr q | None \<Rightarrow> Inl (if unbounded x then Unmodelled else Type_error))"

definition float_at :: "json \<Rightarrow> string \<Rightarrow> (score_exc, rat) result" where
  "float_at v k = rbind (jitem v k) (\<lambda>x.
     case jnumber x of
       Some q \<Rightarrow> Inr q
     | None \<Rightarrow> Inl (case x of JNull \<Rightarrow> Type_error | JList _ \<Rightarrow> Type_error | JObj _ \<Rightarrow> Type_error | _ \<Rightarrow> Unmodelled))"

text \<open>Whether a link is relevant, and then its seek error.\<close>

definition score_link ::
  "json list \<Rightarrow> json list \<Rightarrow> json \<Rightarrow> string \<times> json \<Rightarrow> (score_exc, rat option) result" where
  "score_link keys segments gold_entry link = (case link of (role, reference) \<Rightarrow>
     rbind (jget reference ''segment_id'' JNull) (\<lambda>sid.
     rbind (find_segment keys segments sid) (\<lambda>segment.
     rbind (jget gold_entry ''evidence'' (JObj [])) (\<lambda>gold_evidence.
     rbind (jget gold_evidence role JNull) (\<lambda>expected.
     rbind (jget reference ''timestamp'' JNull) (\<lambda>timestamp.
       case segment of
         None \<Rightarrow> Inr None
       | Some g \<Rightarrow>
           if expected = JNull then Inr None
           else rbind (jget expected ''segment_id'' JNull) (\<lambda>esid.
             if \<not> py_eq sid esid then Inr None
             else case jnumber timestamp of
                 None \<Rightarrow> if unbounded timestamp then Inl Unmodelled else Inr None
               | Some t \<Rightarrow>
                   rbind (number_at g ''start'') (\<lambda>from.
                   if t < from then Inr None
                   else rbind (number_at g ''end'') (\<lambda>to.
                     if to < t then Inr None
                     else rbind (float_at expected ''timestamp'') (\<lambda>e. Inr (Some \<bar>t - e\<bar>)))))))))))"

definition add_link :: "tally \<Rightarrow> rat option \<Rightarrow> tally" where
  "add_link t r = (case r of
      None \<Rightarrow> t\<lparr>t_links := Suc (t_links t)\<rparr>
    | Some e \<Rightarrow> t\<lparr>t_links := Suc (t_links t), t_relevant := Suc (t_relevant t), t_seek := t_seek t @ [e]\<rparr>)"

definition one_if :: "bool \<Rightarrow> nat" where
  "one_if b = (if b then 1 else 0)"

definition same_field :: "json \<Rightarrow> json \<Rightarrow> string \<Rightarrow> (score_exc, bool) result" where
  "same_field a b k = rbind (jget a k JNull) (\<lambda>x. rbind (jget b k JNull) (\<lambda>y. Inr (py_eq x y)))"

definition score_matched ::
  "(json \<Rightarrow> string) \<Rightarrow> json list \<Rightarrow> json list \<Rightarrow> json \<Rightarrow> json \<Rightarrow> json \<Rightarrow> tally \<Rightarrow> (score_exc, tally) result" where
  "score_matched repr keys segments entry gold_entry evidence t =
     rbind (same_field entry gold_entry ''subject'') (\<lambda>subject.
     rbind (same_field entry gold_entry ''verification_state'') (\<lambda>verification.
     rbind (is_reversed repr entry gold_entry) (\<lambda>reversed.
     rbind (entry_supported repr keys segments entry gold_entry) (\<lambda>supported.
     rbind (if supported then Inr False
            else rbind (action_field entry ''critical'') (\<lambda>c. Inr (\<not> json_falsy c \<and> \<not> reversed))) (\<lambda>invented.
     rbind (jitems evidence) (\<lambda>links.
     rbind (map_result (score_link keys segments gold_entry) links) (\<lambda>rs.
       Inr (foldl add_link (t\<lparr>t_attribution := t_attribution t + one_if subject,
              t_verification := t_verification t + one_if verification,
              t_reversed := t_reversed t + one_if reversed,
              t_unsupported := t_unsupported t + one_if (\<not> supported),
              t_invented := t_invented t + one_if invented\<rparr>) rs))))))))"

definition score_entry ::
  "(json \<Rightarrow> string) \<Rightarrow> json list \<Rightarrow> json list \<Rightarrow> json list \<Rightarrow> matching \<Rightarrow> tally \<Rightarrow> nat \<times> json \<Rightarrow>
   (score_exc, tally) result" where
  "score_entry repr keys segments gold m t p = (case p of (i, entry) \<Rightarrow>
     rbind (jget entry ''evidence'' (JObj [])) (\<lambda>evidence.
       let t1 = t\<lparr>t_with_evidence := t_with_evidence t + one_if (\<not> json_falsy evidence)\<rparr>
       in case map_of m i of
           None \<Rightarrow>
             rbind (action_field entry ''critical'') (\<lambda>critical.
             rbind (jlen evidence) (\<lambda>n.
               Inr (t1\<lparr>t_unsupported := Suc (t_unsupported t1),
                       t_invented := t_invented t1 + one_if (\<not> json_falsy critical),
                       t_links := t_links t1 + n\<rparr>)))
         | Some j \<Rightarrow> score_matched repr keys segments entry (gold ! j) evidence t1))"

definition uncertain_ok :: "json list \<Rightarrow> matching \<Rightarrow> nat \<Rightarrow> (score_exc, bool) result" where
  "uncertain_ok predicted m j =
     (case filter (\<lambda>(i, j'). j' = j) m of
        [] \<Rightarrow> Inr False
      | (i, _) # _ \<Rightarrow>
          let entry = predicted ! i
          in if json_falsy entry then Inr False
             else rbind (jget entry ''uncertainty'' JNull) (\<lambda>u.
               if json_falsy u then Inr False
               else rbind (jget entry ''verification_state'' JNull) (\<lambda>v.
                 if \<not> hashable v then Inl Type_error
                 else Inr (v \<in> {JStr ''UNVERIFIED'', JStr ''NEEDS_CORRECTION''}))))"

subsection \<open>Metrics and gates\<close>

record metrics =
  intervention_recall :: rat
  unsupported_claim_rate :: rat
  unsupported_claim_count :: nat
  reversed_instruction_count :: nat
  invented_critical_claim_count :: nat
  attribution_accuracy :: rat
  evidence_relevance :: rat
  median_seek_error_seconds :: rat
  uncertainty_compliance :: rat
  verification_state_accuracy :: rat
  substantive_claim_evidence_rate :: rat
  transcript_revision_accuracy :: rat
  matched_interventions :: nat
  gold_interventions :: nat
  predicted_interventions :: nat

record thresholds =
  th_intervention_recall :: rat
  th_unsupported_claim_rate_max :: rat
  th_reversed_instruction_count_max :: rat
  th_invented_critical_claim_count_max :: rat
  th_attribution_accuracy :: rat
  th_evidence_relevance :: rat
  th_median_seek_error_seconds_max :: rat
  th_uncertainty_compliance :: rat
  th_verification_state_accuracy :: rat
  th_substantive_claim_evidence_rate :: rat
  th_transcript_revision_accuracy :: rat

definition DEFAULT_THRESHOLDS :: thresholds where
  "DEFAULT_THRESHOLDS = \<lparr>th_intervention_recall = 90 / 100, th_unsupported_claim_rate_max = 0,
     th_reversed_instruction_count_max = 0, th_invented_critical_claim_count_max = 0,
     th_attribution_accuracy = 95 / 100, th_evidence_relevance = 95 / 100, th_median_seek_error_seconds_max = 2,
     th_uncertainty_compliance = 1, th_verification_state_accuracy = 95 / 100,
     th_substantive_claim_evidence_rate = 1, th_transcript_revision_accuracy = 1\<rparr>"

definition threshold_results :: "metrics \<Rightarrow> thresholds \<Rightarrow> (string \<times> bool) list" where
  "threshold_results m th =
     [(''intervention_recall'', th_intervention_recall th \<le> intervention_recall m),
      (''unsupported_claim_rate'', unsupported_claim_rate m \<le> th_unsupported_claim_rate_max th),
      (''reversed_instructions'', of_nat (reversed_instruction_count m) \<le> th_reversed_instruction_count_max th),
      (''invented_critical_claims'', of_nat (invented_critical_claim_count m) \<le> th_invented_critical_claim_count_max th),
      (''attribution_accuracy'', th_attribution_accuracy th \<le> attribution_accuracy m),
      (''evidence_relevance'', th_evidence_relevance th \<le> evidence_relevance m),
      (''median_seek_error_seconds'', median_seek_error_seconds m \<le> th_median_seek_error_seconds_max th),
      (''uncertainty_compliance'', th_uncertainty_compliance th \<le> uncertainty_compliance m),
      (''verification_state_accuracy'', th_verification_state_accuracy th \<le> verification_state_accuracy m),
      (''substantive_claim_evidence_rate'', th_substantive_claim_evidence_rate th \<le> substantive_claim_evidence_rate m),
      (''transcript_revision_accuracy'', th_transcript_revision_accuracy th \<le> transcript_revision_accuracy m)]"

definition ratio :: "nat \<Rightarrow> nat \<Rightarrow> rat \<Rightarrow> rat" where
  "ratio a b otherwise = (if b = 0 then otherwise else of_nat a / of_nat b)"

text \<open>\<^verbatim>\<open>statistics.median\<close>.\<close>

definition median :: "rat list \<Rightarrow> rat" where
  "median xs = (let ys = sort xs; n = length xs
     in if odd n then ys ! (n div 2) else (ys ! (n div 2 - 1) + ys ! (n div 2)) / 2)"

record score_result =
  passed :: bool
  score_metrics :: metrics
  checks :: "(string \<times> bool) list"

definition score_metrics_of ::
  "json list \<Rightarrow> json list \<Rightarrow> matching \<Rightarrow> tally \<Rightarrow> nat \<Rightarrow> nat \<Rightarrow> bool \<Rightarrow> metrics" where
  "score_metrics_of gold predicted m t uncertain uncertain_total same_revision =
     \<lparr>intervention_recall = ratio (length m) (length gold) 1,
      unsupported_claim_rate = ratio (t_unsupported t) (length predicted) 0,
      unsupported_claim_count = t_unsupported t,
      reversed_instruction_count = t_reversed t,
      invented_critical_claim_count = t_invented t,
      attribution_accuracy = ratio (t_attribution t) (length m) 0,
      evidence_relevance = ratio (t_relevant t) (t_links t) 0,
      median_seek_error_seconds = (if t_seek t = [] then 1000000000 else median (t_seek t)),
      uncertainty_compliance = ratio uncertain uncertain_total 1,
      verification_state_accuracy = ratio (t_verification t) (length m) 0,
      substantive_claim_evidence_rate = ratio (t_with_evidence t) (length predicted) 0,
      transcript_revision_accuracy = of_nat (one_if same_revision),
      matched_interventions = length m,
      gold_interventions = length gold,
      predicted_interventions = length predicted\<rparr>"

definition read_list :: "json \<Rightarrow> string \<Rightarrow> (score_exc, json list) result" where
  "read_list document k = rbind (jget document k (JList [])) jiter"

definition score ::
  "(json \<Rightarrow> string) \<Rightarrow> json \<Rightarrow> json \<Rightarrow> json \<Rightarrow> thresholds \<Rightarrow> (score_exc, score_result) result" where
  "score repr gold_document predicted_document transcript_document th =
     rbind (read_list gold_document ''entries'') (\<lambda>gold.
     rbind (read_list predicted_document ''entries'') (\<lambda>predicted.
     rbind (read_list transcript_document ''segments'') (\<lambda>segments.
     rbind (map_result (\<lambda>g. jitem g ''id'') segments) (\<lambda>keys.
     rbind (hash_all keys) (\<lambda>_.
     rbind (match_entries repr predicted gold) (\<lambda>m.
     rbind (fold_result (score_entry repr keys segments gold m) no_tally (enumerate 0 predicted)) (\<lambda>t.
     rbind (map_result (\<lambda>e. jget e ''uncertainty'' JNull) gold) (\<lambda>us.
     let uncertain_gold = filter (\<lambda>j. \<not> json_falsy (us ! j)) [0..<length gold]
     in rbind (map_result (uncertain_ok predicted m) uncertain_gold) (\<lambda>oks.
     rbind (same_field predicted_document gold_document ''transcript_revision'') (\<lambda>same.
       let ms = score_metrics_of gold predicted m t (length (filter id oks)) (length uncertain_gold) same;
           cs = threshold_results ms th
       in Inr \<lparr>passed = list_all snd cs, score_metrics = ms, checks = cs\<rparr>))))))))))"

subsection \<open>The matching is one-to-one\<close>

lemma list_all2_right: "list_all2 P xs ys \<Longrightarrow> y \<in> set ys \<Longrightarrow> \<exists>x \<in> set xs. P x y"
  by (induction rule: list_all2_induct) auto

definition one_to_one :: "nat \<Rightarrow> nat \<Rightarrow> matching \<Rightarrow> bool" where
  "one_to_one p g m \<longleftrightarrow> distinct (map fst m) \<and> distinct (map snd m) \<and> (\<forall>(i, j) \<in> set m. i < p \<and> j < g)"

lemma one_to_one_add:
  "one_to_one p g m \<Longrightarrow> i \<notin> fst ` set m \<Longrightarrow> j \<notin> snd ` set m \<Longrightarrow> i < p \<Longrightarrow> j < g \<Longrightarrow> one_to_one p g (m @ [(i, j)])"
  by (auto simp: one_to_one_def)

lemma one_to_one_mono: "one_to_one p g m \<Longrightarrow> p \<le> p' \<Longrightarrow> one_to_one p' g m"
  by (fastforce simp: one_to_one_def)

lemma last_index_Some: "last_index ks k = Some j \<Longrightarrow> j < length ks \<and> py_eq (ks ! j) k"
proof -
  assume "last_index ks k = Some j"
  then have "filter (\<lambda>i. py_eq (ks ! i) k) [0..<length ks] \<noteq> []"
    "j = List.last (filter (\<lambda>i. py_eq (ks ! i) k) [0..<length ks])"
    by (auto simp: last_index_def split: list.splits)
  then have "j \<in> set (filter (\<lambda>i. py_eq (ks ! i) k) [0..<length ks])" using last_in_set by blast
  then show ?thesis by simp
qed

text \<open>Why two entries were matched: the same id, or similar texts.\<close>

definition justified :: "(json \<Rightarrow> string) \<Rightarrow> json list \<Rightarrow> json list \<Rightarrow> nat \<times> nat \<Rightarrow> bool" where
  "justified repr predicted gold p \<longleftrightarrow> (case p of (i, j) \<Rightarrow>
     (\<exists>a b. jget (predicted ! i) ''id'' JNull = Inr a \<and> jget (gold ! j) ''id'' JNull = Inr b \<and> py_eq b a) \<or>
     (\<exists>s \<ge> 55 / 100. similarity repr (predicted ! i) (gold ! j) = Inr s))"

lemma match_ids_ok:
  assumes "match_ids ids i (drop i predicted) m = Inr m'" "one_to_one i (length ids) m"
    and "list_all2 (\<lambda>e k. jget e ''id'' JNull = Inr k) gold ids" "\<forall>p \<in> set m. justified repr predicted gold p"
  shows "one_to_one (max i (length predicted)) (length ids) m' \<and> (\<forall>p \<in> set m'. justified repr predicted gold p)"
  using assms(1,2,4)
proof (induction "length predicted - i" arbitrary: i m)
  case 0
  then show ?case by (simp add: max_def)
next
  case (Suc n)
  then have lt: "i < length predicted" by simp
  then have d: "drop i predicted = predicted ! i # drop (Suc i) predicted" by (simp add: Cons_nth_drop_Suc)
  from Suc.prems(1) obtain k where k: "jget (predicted ! i) ''id'' JNull = Inr k"
    and r: "match_ids ids (Suc i) (drop (Suc i) predicted)
      (case last_index ids k of None \<Rightarrow> m | Some j \<Rightarrow> if j \<in> snd ` set m then m else m @ [(i, j)]) = Inr m'"
    by (auto simp: d split: if_splits)
  let ?m = "case last_index ids k of None \<Rightarrow> m | Some j \<Rightarrow> if j \<in> snd ` set m then m else m @ [(i, j)]"
  have i: "i \<notin> fst ` set m" using Suc.prems(2) by (fastforce simp: one_to_one_def)
  have "one_to_one (Suc i) (length ids) ?m \<and> (\<forall>p \<in> set ?m. justified repr predicted gold p)"
  proof (cases "last_index ids k")
    case None
    then show ?thesis using one_to_one_mono [OF Suc.prems(2), of "Suc i"] Suc.prems(3) by simp
  next
    case (Some j)
    note j = last_index_Some [OF Some]
    have "jget (gold ! j) ''id'' JNull = Inr (ids ! j)" using assms(3) j by (simp add: list_all2_conv_all_nth)
    then have "justified repr predicted gold (i, j)" using k j by (auto simp: justified_def)
    then show ?thesis
      using Some one_to_one_add [OF one_to_one_mono [OF Suc.prems(2), of "Suc i"] i, of j] j
        one_to_one_mono [OF Suc.prems(2), of "Suc i"] Suc.prems(3) by simp
  qed
  then have "one_to_one (max (Suc i) (length predicted)) (length ids) m' \<and> (\<forall>p \<in> set m'. justified repr predicted gold p)"
    using Suc.hyps(1) [OF _ r] Suc.hyps(2) by simp
  then show ?case using lt by (simp add: max_def)
qed

lemma foldl_take_ok:
  assumes "one_to_one p g m" "\<forall>(s, i, j) \<in> set cs. i < p \<and> j < g \<and> similarity repr (predicted ! i) (gold ! j) = Inr s"
    and "\<forall>q \<in> set m. justified repr predicted gold q"
  shows "one_to_one p g (foldl take_candidate m cs) \<and> (\<forall>q \<in> set (foldl take_candidate m cs). justified repr predicted gold q)"
  using assms
proof (induction cs arbitrary: m)
  case (Cons c cs)
  obtain s i j where c: "c = (s, i, j)" by (cases c)
  with Cons.prems have b: "i < p" "j < g" "similarity repr (predicted ! i) (gold ! j) = Inr s" by auto
  have "justified repr predicted gold (i, j)" if "\<not> s < 55 / 100" using b(3) that by (auto simp: justified_def not_less)
  then have "one_to_one p g (take_candidate m c) \<and> (\<forall>q \<in> set (take_candidate m c). justified repr predicted gold q)"
    using one_to_one_add [OF Cons.prems(1), of i j] Cons.prems(1,3) b by (auto simp: take_candidate_def c)
  then show ?case using Cons.IH [of "take_candidate m c"] Cons.prems(2) by simp
qed simp

lemma candidates_ok:
  assumes "candidates repr predicted gold m = Inr cs"
  shows "\<forall>(s, i, j) \<in> set cs. i < length predicted \<and> j < length gold \<and> similarity repr (predicted ! i) (gold ! j) = Inr s"
proof
  let ?ps = "[(i, j). i \<leftarrow> [0..<length predicted], i \<notin> fst ` set m, j \<leftarrow> [0..<length gold], j \<notin> snd ` set m]"
  fix c assume c: "c \<in> set cs"
  have "list_all2 (\<lambda>p c. (case p of (i, j) \<Rightarrow> rbind (similarity repr (predicted ! i) (gold ! j)) (\<lambda>s. Inr (s, i, j))) = Inr c) ?ps cs"
    using assms by (simp add: candidates_def map_result_Inr_iff)
  from list_all2_right [OF this c] obtain p where p: "p \<in> set ?ps"
    "(case p of (i, j) \<Rightarrow> rbind (similarity repr (predicted ! i) (gold ! j)) (\<lambda>s. Inr (s, i, j))) = Inr c" by blast
  have "fst p < length predicted" "snd p < length gold" using p(1) by auto
  then show "case c of (s, i, j) \<Rightarrow> i < length predicted \<and> j < length gold \<and> similarity repr (predicted ! i) (gold ! j) = Inr s"
    using p(2) by (auto split: prod.splits)
qed

lemma match_entries_ok:
  assumes "match_entries repr predicted gold = Inr m"
  shows "one_to_one (length predicted) (length gold) m \<and> (\<forall>p \<in> set m. justified repr predicted gold p)"
proof -
  from assms obtain ids m0 cs where ids: "list_all2 (\<lambda>e k. jget e ''id'' JNull = Inr k) gold ids"
    and m0: "match_ids ids 0 predicted [] = Inr m0" and cs: "candidates repr predicted gold m0 = Inr cs"
    and m: "m = foldl take_candidate m0 (List.rev (sort cs))"
    by (auto simp: match_entries_def map_result_Inr_iff)
  have l: "length ids = length gold" using ids by (simp add: list_all2_lengthD)
  have "one_to_one 0 (length ids) []" by (simp add: one_to_one_def)
  from match_ids_ok [OF _ this ids, of predicted m0 repr] m0
  have "one_to_one (length predicted) (length gold) m0" "\<forall>p \<in> set m0. justified repr predicted gold p" by (simp_all add: l)
  then show ?thesis unfolding m by (intro foldl_take_ok) (use candidates_ok [OF cs] in auto)
qed


subsection \<open>What the counters mean\<close>

lemma links_tally: "t_unsupported (foldl add_link t rs) = t_unsupported t"
  "t_reversed (foldl add_link t rs) = t_reversed t" "t_attribution (foldl add_link t rs) = t_attribution t"
  "t_verification (foldl add_link t rs) = t_verification t" "t_with_evidence (foldl add_link t rs) = t_with_evidence t"
  by (induction rs arbitrary: t) (auto simp: add_link_def split: option.splits)

lemma links_relevant: "t_relevant t \<le> t_links t \<Longrightarrow> t_relevant (foldl add_link t rs) \<le> t_links (foldl add_link t rs)"
  by (induction rs arbitrary: t) (auto simp: add_link_def split: option.splits)

definition entry_good :: "(json \<Rightarrow> string) \<Rightarrow> json list \<Rightarrow> json list \<Rightarrow> json list \<Rightarrow> matching \<Rightarrow> nat \<times> json \<Rightarrow> bool" where
  "entry_good repr keys segments gold m p \<longleftrightarrow> (\<exists>j. map_of m (fst p) = Some j \<and>
     entry_supported repr keys segments (snd p) (gold ! j) = Inr True)"

definition entry_reversed :: "(json \<Rightarrow> string) \<Rightarrow> json list \<Rightarrow> matching \<Rightarrow> nat \<times> json \<Rightarrow> bool" where
  "entry_reversed repr gold m p \<longleftrightarrow> (\<exists>j. map_of m (fst p) = Some j \<and> is_reversed repr (snd p) (gold ! j) = Inr True)"

text \<open>One entry adds at most one to each count, and exactly one to what it fails.\<close>

definition tally_step :: "bool \<Rightarrow> bool \<Rightarrow> bool \<Rightarrow> tally \<Rightarrow> tally \<Rightarrow> bool" where
  "tally_step good rv matched t t' \<longleftrightarrow>
     t_unsupported t' = t_unsupported t + one_if (\<not> good) \<and> t_reversed t' = t_reversed t + one_if rv \<and>
     t_attribution t' \<le> t_attribution t + one_if matched \<and> t_verification t' \<le> t_verification t + one_if matched \<and>
     t_with_evidence t' \<le> t_with_evidence t + 1 \<and> (t_relevant t \<le> t_links t \<longrightarrow> t_relevant t' \<le> t_links t')"

lemma one_if_le [simp]: "one_if b \<le> Suc 0" "one_if False = 0" "one_if True = Suc 0"
  by (simp_all add: one_if_def)

lemma score_matched_step:
  assumes "score_matched repr keys segments entry g evidence (t\<lparr>t_with_evidence := t_with_evidence t + one_if b\<rparr>) = Inr t'"
  shows "tally_step (entry_supported repr keys segments entry g = Inr True) (is_reversed repr entry g = Inr True) True t t'"
proof -
  from assms obtain sj vf rv sp inv rs where "is_reversed repr entry g = Inr rv"
    "entry_supported repr keys segments entry g = Inr sp"
    and t': "t' = foldl add_link (t\<lparr>t_with_evidence := t_with_evidence t + one_if b, t_attribution := t_attribution t + one_if sj,
       t_verification := t_verification t + one_if vf, t_reversed := t_reversed t + one_if rv,
       t_unsupported := t_unsupported t + one_if (\<not> sp), t_invented := t_invented t + one_if inv\<rparr>) rs"
    unfolding score_matched_def by (auto simp: rbind_eq_Inr)
  then show ?thesis
    unfolding tally_step_def t' links_tally by (auto intro!: links_relevant)
qed

lemma score_entry_step:
  assumes "score_entry repr keys segments gold m t p = Inr t'"
  shows "tally_step (entry_good repr keys segments gold m p) (entry_reversed repr gold m p) (map_of m (fst p) \<noteq> None) t t'"
proof (cases "map_of m (fst p)")
  case None
  then show ?thesis
    using assms by (auto simp: score_entry_def tally_step_def entry_good_def entry_reversed_def split: prod.splits)
next
  case (Some j)
  from assms obtain evidence where
    "score_matched repr keys segments (snd p) (gold ! j) evidence (t\<lparr>t_with_evidence := t_with_evidence t + one_if (\<not> json_falsy evidence)\<rparr>) = Inr t'"
    using Some by (auto simp: score_entry_def Let_def split: prod.splits)
  from score_matched_step [OF this] Some show ?thesis
    by (simp add: entry_good_def entry_reversed_def)
qed

lemma score_fold:
  assumes "fold_result (score_entry repr keys segments gold m) t ps = Inr t'"
  shows "t_unsupported t' = t_unsupported t + length (filter (\<lambda>p. \<not> entry_good repr keys segments gold m p) ps) \<and>
    t_reversed t' = t_reversed t + length (filter (entry_reversed repr gold m) ps) \<and>
    t_attribution t' \<le> t_attribution t + length (filter (\<lambda>p. map_of m (fst p) \<noteq> None) ps) \<and>
    t_verification t' \<le> t_verification t + length (filter (\<lambda>p. map_of m (fst p) \<noteq> None) ps) \<and>
    t_with_evidence t' \<le> t_with_evidence t + length ps \<and> (t_relevant t \<le> t_links t \<longrightarrow> t_relevant t' \<le> t_links t')"
  using assms
proof (induction ps arbitrary: t)
  case (Cons p ps)
  then obtain t1 where t1: "score_entry repr keys segments gold m t p = Inr t1"
    "fold_result (score_entry repr keys segments gold m) t1 ps = Inr t'" by auto
  from score_entry_step [OF t1(1)] Cons.IH [OF t1(2)] show ?case
    unfolding tally_step_def by (simp add: one_if_def split: if_splits)
qed simp


text \<open>The parts of a successful scoring.\<close>

lemma score_cases:
  assumes "score repr gd pd td th = Inr res"
  obtains gold predicted segments keys m t unc total same where
    "read_list gd ''entries'' = Inr gold" "read_list pd ''entries'' = Inr predicted"
    "read_list td ''segments'' = Inr segments" "map_result (\<lambda>g. jitem g ''id'') segments = Inr keys"
    "match_entries repr predicted gold = Inr m"
    "fold_result (score_entry repr keys segments gold m) no_tally (enumerate 0 predicted) = Inr t" "unc \<le> total"
    "score_metrics res = score_metrics_of gold predicted m t unc total same"
    "checks res = threshold_results (score_metrics res) th" "passed res = list_all snd (checks res)"
proof -
  from assms obtain gold predicted segments keys m t us oks same where *:
    "read_list gd ''entries'' = Inr gold" "read_list pd ''entries'' = Inr predicted"
    "read_list td ''segments'' = Inr segments" "map_result (\<lambda>g. jitem g ''id'') segments = Inr keys"
    "match_entries repr predicted gold = Inr m"
    "fold_result (score_entry repr keys segments gold m) no_tally (enumerate 0 predicted) = Inr t"
    and oks: "map_result (uncertain_ok predicted m) (filter (\<lambda>j. \<not> json_falsy (us ! j)) [0..<length gold]) = Inr oks"
    and res: "res = (let ms = score_metrics_of gold predicted m t (length (filter id oks))
        (length (filter (\<lambda>j. \<not> json_falsy (us ! j)) [0..<length gold])) same;
        cs = threshold_results ms th in \<lparr>passed = list_all snd cs, score_metrics = ms, checks = cs\<rparr>)"
    unfolding score_def Let_def rbind_eq_Inr sum.inject by metis
  have "length oks = length (filter (\<lambda>j. \<not> json_falsy (us ! j)) [0..<length gold])"
    using oks by (metis list_all2_lengthD map_result_Inr_iff)
  then have "length (filter id oks) \<le> length (filter (\<lambda>j. \<not> json_falsy (us ! j)) [0..<length gold])"
    by (metis length_filter_le)
  then show ?thesis by (rule that [OF *]) (simp_all add: res Let_def)
qed

lemma one_to_one_matched_le:
  assumes "one_to_one p g m"
  shows "length (filter (\<lambda>q. map_of m (fst q) \<noteq> None) (enumerate 0 xs)) \<le> length m"
proof -
  have "length (filter (\<lambda>q. map_of m (fst q) \<noteq> None) (enumerate 0 xs)) =
      length (filter (\<lambda>i. map_of m i \<noteq> None) (map fst (enumerate 0 xs)))"
    by (simp only: filter_map length_map comp_def)
  also have "\<dots> = card (set (filter (\<lambda>i. map_of m i \<noteq> None) [0..<length xs]))"
    by (simp only: map_fst_enumerate add_0 distinct_card distinct_filter distinct_upt)
  also have "\<dots> \<le> card (fst ` set m)"
    by (rule card_mono) (auto simp: map_of_eq_None_iff)
  also have "\<dots> \<le> length m" by (metis card_length length_map list.set_map)
  finally show ?thesis .
qed

lemma ratio_bounds: "a \<le> b \<Longrightarrow> 0 \<le> d \<Longrightarrow> d \<le> 1 \<Longrightarrow> 0 \<le> ratio a b d \<and> ratio a b d \<le> 1"
  by (auto simp: ratio_def divide_le_eq_1)


subsection \<open>Properties\<close>

text \<open>C32: a passed release gate means every generated claim is supported. When the scoring of documents
  passes with the default thresholds, each generated entry is matched to a labelled entry of its own;
  the match is by id or by texts at least 55 percent alike; the entry is supported (its quote is in
  the cited segment, its subject, action and result are the labelled ones); none reverses an
  instruction; and at least nine in ten labelled entries were found.\<close>

theorem release_gate_sound:
  assumes "score repr gd pd td DEFAULT_THRESHOLDS = Inr res" "passed res"
  shows "\<exists>gold predicted segments keys m. read_list gd ''entries'' = Inr gold \<and> read_list pd ''entries'' = Inr predicted \<and>
    read_list td ''segments'' = Inr segments \<and> map_result (\<lambda>g. jitem g ''id'') segments = Inr keys \<and>
    one_to_one (length predicted) (length gold) m \<and> 9 * length gold \<le> 10 * length m \<and>
    (\<forall>i < length predicted. \<exists>j. map_of m i = Some j \<and> justified repr predicted gold (i, j) \<and>
       entry_supported repr keys segments (predicted ! i) (gold ! j) = Inr True \<and>
       is_reversed repr (predicted ! i) (gold ! j) \<noteq> Inr True)"
proof -
  from score_cases [OF assms(1)] obtain gold predicted segments keys m t unc total same where
    d: "read_list gd ''entries'' = Inr gold" "read_list pd ''entries'' = Inr predicted"
      "read_list td ''segments'' = Inr segments" "map_result (\<lambda>g. jitem g ''id'') segments = Inr keys"
    and m: "match_entries repr predicted gold = Inr m"
    and t: "fold_result (score_entry repr keys segments gold m) no_tally (enumerate 0 predicted) = Inr t"
    and ms: "score_metrics res = score_metrics_of gold predicted m t unc total same"
    and cs: "checks res = threshold_results (score_metrics res) DEFAULT_THRESHOLDS" "passed res = list_all snd (checks res)" .
  note ok = match_entries_ok [OF m]
  have pass: "9 / 10 \<le> ratio (length m) (length gold) 1" "ratio (t_unsupported t) (length predicted) 0 \<le> 0" "t_reversed t = 0"
    using assms(2) by (simp_all add: cs threshold_results_def DEFAULT_THRESHOLDS_def ms score_metrics_of_def)
  have "9 * length gold \<le> 10 * length m"
    using pass(1) by (auto simp: ratio_def field_simps split: if_splits)
  moreover have "predicted \<noteq> [] \<Longrightarrow> t_unsupported t = 0" using pass(2) by (auto simp: ratio_def divide_le_0_iff split: if_splits)
  then have "\<forall>p \<in> set (enumerate 0 predicted). entry_good repr keys segments gold m p \<and> \<not> entry_reversed repr gold m p"
    using score_fold [OF t] pass(3) by (cases "predicted = []") (auto simp: no_tally_def filter_empty_conv)
  then have g: "entry_good repr keys segments gold m (i, predicted ! i)" "\<not> entry_reversed repr gold m (i, predicted ! i)"
    if "i < length predicted" for i using that by (auto simp: in_set_enumerate_eq)
  have "\<exists>j. map_of m i = Some j \<and> justified repr predicted gold (i, j) \<and>
       entry_supported repr keys segments (predicted ! i) (gold ! j) = Inr True \<and>
       is_reversed repr (predicted ! i) (gold ! j) \<noteq> Inr True" if i: "i < length predicted" for i
  proof -
    from g(1) [OF i] obtain j where j: "map_of m i = Some j"
      "entry_supported repr keys segments (predicted ! i) (gold ! j) = Inr True" by (auto simp: entry_good_def)
    moreover have "justified repr predicted gold (i, j)" using ok map_of_SomeD [OF j(1)] by blast
    moreover have "is_reversed repr (predicted ! i) (gold ! j) \<noteq> Inr True" using g(2) [OF i] j(1) by (auto simp: entry_reversed_def)
    ultimately show ?thesis by blast
  qed
  ultimately show ?thesis using d ok by blast
qed

text \<open>A fixture with one entry, its perfect prediction, and the transcript.\<close>

definition demo_entry_json :: json where
  "demo_entry_json = JObj [(''id'', JStr ''e1''), (''topic'', JStr ''Breath''), (''exact_feedback'', JStr ''go low''),
     (''paraphrase'', JStr ''Breathe lower''), (''subject'', JStr ''lead''),
     (''action'', JObj [(''normalized'', JStr ''breathe_together''), (''critical'', JBool True)]),
     (''verification_state'', JStr ''VERIFIED''),
     (''evidence'', JObj [(''feedback'', JObj [(''segment_id'', JStr ''s1''), (''timestamp'', JInt 2)])])]"

definition demo_ledger :: json where
  "demo_ledger = JObj [(''transcript_revision'', JInt 1), (''entries'', JList [demo_entry_json])]"

definition demo_transcript :: json where
  "demo_transcript = JObj [(''segments'', JList [JObj [(''id'', JStr ''s1''), (''text'', JStr ''Now go low''),
     (''start'', JInt 1), (''end'', JInt 4)]])]"

lemma demo_score_passes: "(case score (\<lambda>_. []) demo_ledger demo_ledger demo_transcript DEFAULT_THRESHOLDS of
    Inr res \<Rightarrow> passed res | Inl _ \<Rightarrow> False) = True"
  by code_simp

lemma demo_score: obtains res where
  "score (\<lambda>_. []) demo_ledger demo_ledger demo_transcript DEFAULT_THRESHOLDS = Inr res" "passed res"
  using demo_score_passes by (auto split: sum.splits)

theorem release_gate_sound_witness:
  "\<exists>gold predicted m. read_list demo_ledger ''entries'' = Inr gold \<and> read_list demo_ledger ''entries'' = Inr predicted \<and>
     one_to_one (length predicted) (length gold) m \<and> 9 * length gold \<le> 10 * length m"
  using demo_score release_gate_sound by metis

text \<open>Every rate of the scoring is between 0 and 1.\<close>

theorem score_rates_bounded:
  assumes "score repr gd pd td th = Inr res"
  shows "\<forall>rate \<in> {intervention_recall, unsupported_claim_rate, attribution_accuracy, evidence_relevance,
      uncertainty_compliance, verification_state_accuracy, substantive_claim_evidence_rate, transcript_revision_accuracy}.
    0 \<le> rate (score_metrics res) \<and> rate (score_metrics res) \<le> 1"
proof -
  from score_cases [OF assms] obtain gold predicted segments keys m t unc total same where
    m: "match_entries repr predicted gold = Inr m" and unc: "unc \<le> total"
    and t: "fold_result (score_entry repr keys segments gold m) no_tally (enumerate 0 predicted) = Inr t"
    and ms: "score_metrics res = score_metrics_of gold predicted m t unc total same" .
  have o: "one_to_one (length predicted) (length gold) m" using match_entries_ok [OF m] by blast
  have "length m \<le> length gold"
  proof -
    have "card (set (map snd m)) = length m" using o by (metis distinct_card length_map one_to_one_def)
    moreover have "set (map snd m) \<subseteq> {..<length gold}" using o by (auto simp: one_to_one_def)
    ultimately show ?thesis by (metis card_lessThan card_mono finite_lessThan)
  qed
  moreover note one_to_one_matched_le [OF o, of predicted] score_fold [OF t]
  moreover have "length (filter (\<lambda>p. \<not> entry_good repr keys segments gold m p) (enumerate 0 predicted)) \<le> length predicted"
    by (metis length_enumerate length_filter_le)
  ultimately show ?thesis
    using unc by (auto simp: ms score_metrics_of_def no_tally_def one_if_def intro!: ratio_bounds [THEN conjunct1] ratio_bounds [THEN conjunct2])
qed


end
