(* ===== verification/Summary_Scoring.thy ===== *)
theory Summary_Scoring
  imports Scoring "HOL-Library.Char_ord" "HOL-Library.List_Lexorder"
begin

text \<open>
  The gate for summaries, \<^verbatim>\<open>eval/score_summary.py\<close>. The ids of the labelled ledger are texts; other
  ids there, and an object in place of a list of ids, are outside the model (\<open>Unmodelled\<close>). \<open>order\<close> is the order in which Python iterates over
  the set of ids.
\<close>

subsection \<open>Themes of an entry\<close>

definition text_id :: "json \<Rightarrow> (score_exc, string) result" where
  "text_id v = (case v of JStr s \<Rightarrow> Inr s | JList _ \<Rightarrow> Inl Type_error | JObj _ \<Rightarrow> Inl Type_error | _ \<Rightarrow> Inl Unmodelled)"

definition entry_ids_of :: "json \<Rightarrow> (score_exc, string list) result" where
  "entry_ids_of gold_ledger =
     rbind (read_list gold_ledger ''entries'') (\<lambda>entries.
     rbind (map_result (\<lambda>e. rbind (jitem e ''id'') text_id) entries) (\<lambda>ids. Inr (remdups ids)))"

definition theme_members :: "json \<Rightarrow> (score_exc, json list) result" where
  "theme_members theme =
     rbind (read_list theme ''ledger_entry_ids'') (\<lambda>ids. rbind (hash_all ids) (\<lambda>_. Inr ids))"

text \<open>\<^verbatim>\<open>entry_to_themes.get(eid, set())\<close>: only ids of the labelled ledger have themes.\<close>

definition themes_of :: "string list \<Rightarrow> json list list \<Rightarrow> json \<Rightarrow> nat list" where
  "themes_of ids members eid =
     (if \<exists>s \<in> set ids. eid = JStr s then filter (\<lambda>i. eid \<in> set (members ! i)) [0..<length members] else [])"

definition pair_ids :: "json \<Rightarrow> (score_exc, json list) result" where
  "pair_ids pair = rbind (jitem pair ''entry_ids'') (\<lambda>v.
     rbind (case v of JObj _ \<Rightarrow> Inl Unmodelled | _ \<Rightarrow> jiter v) (\<lambda>ids.
       if length ids < 2 then Inr ids else rbind (hash_all ids) (\<lambda>_. Inr ids)))"

text \<open>Whether the entries of a pair have a theme in common; \<open>None\<close> for fewer than two entries.\<close>

definition share_theme :: "string list \<Rightarrow> json list list \<Rightarrow> json list \<Rightarrow> bool option" where
  "share_theme ids members pair =
     (if length pair < 2 then None
      else Some (list_ex (\<lambda>i. list_all (\<lambda>e. i \<in> set (themes_of ids members e)) pair) [0..<length members]))"

subsection \<open>Pairs that must stay apart\<close>

fun pairs_of :: "'a list \<Rightarrow> ('a \<times> 'a) list" where
  "pairs_of [] = []"
| "pairs_of (x # xs) = map (Pair x) xs @ pairs_of xs"

definition permitted :: "json list list \<Rightarrow> string \<times> string \<Rightarrow> bool" where
  "permitted merge p = (case p of (a, b) \<Rightarrow>
     list_ex (\<lambda>ids. list_ex (\<lambda>(x, y). {x, y} = {JStr a, JStr b}) (pairs_of ids)) merge)"

definition distinct_pairs ::
  "json \<Rightarrow> string list \<Rightarrow> json list list \<Rightarrow> (score_exc, json list list) result" where
  "distinct_pairs gold_summary ids merge =
     rbind (jget gold_summary ''invert_distinct_default'' (JBool False)) (\<lambda>invert.
       if \<not> json_falsy invert
       then Inr (map (\<lambda>(a, b). [JStr a, JStr b]) (filter (\<lambda>p. \<not> permitted merge p) (pairs_of (sort ids))))
       else rbind (read_list gold_summary ''known_distinct_pairs'') (map_result pair_ids))"

definition in_range :: "json \<Rightarrow> nat \<Rightarrow> (score_exc, bool) result" where
  "in_range gold_summary n =
     rbind (jget gold_summary ''expected_theme_count_range'' (JList [JInt 5, JInt 15])) (\<lambda>r.
       case r of
         JList xs \<Rightarrow>
           (let elem = (\<lambda>i. if i < length xs
                          then (case jnumber (xs ! i) of Some q \<Rightarrow> Inr q
                                | None \<Rightarrow> Inl (if unbounded (xs ! i) then Unmodelled else Type_error))
                          else Inl Index_error)
            in rbind (elem 0) (\<lambda>lo. if of_nat n < lo then Inr False else rbind (elem 1) (\<lambda>hi. Inr (of_nat n \<le> hi))))
       | JObj _ \<Rightarrow> Inl (Key_error ''0'')
       | JStr [] \<Rightarrow> Inl Index_error
       | _ \<Rightarrow> Inl Type_error)"

subsection \<open>The score\<close>

record summary_metrics =
  theme_count :: nat
  count_in_range :: bool
  theme_recall :: rat
  orphan_entry_ids :: "string list"
  merge_correct :: nat
  merge_total :: nat
  distinct_correct :: nat
  distinct_total :: nat

record summary_result =
  summary_passed :: bool
  summary_scores :: summary_metrics

definition score_summary ::
  "(string list \<Rightarrow> string list) \<Rightarrow> json \<Rightarrow> json \<Rightarrow> json \<Rightarrow> (score_exc, summary_result) result" where
  "score_summary order gold_summary predicted_summary gold_ledger =
     rbind (read_list predicted_summary ''themes'') (\<lambda>themes.
     rbind (entry_ids_of gold_ledger) (\<lambda>ids.
     rbind (map_result theme_members themes) (\<lambda>members.
     rbind (rbind (read_list gold_summary ''known_merge_pairs'') (map_result pair_ids)) (\<lambda>merge.
     rbind (distinct_pairs gold_summary ids merge) (\<lambda>apart.
     rbind (in_range gold_summary (length themes)) (\<lambda>ranged.
       let orphan = (\<lambda>e. themes_of ids members (JStr e) = []);
           recall = ratio (length (filter (\<lambda>e. \<not> orphan e) ids)) (length ids) 1;
           orphans = filter orphan (order ids);
           merged = length (filter (\<lambda>p. share_theme ids members p \<noteq> Some False) merge);
           separate = length (filter (\<lambda>p. share_theme ids members p \<noteq> Some True) apart)
       in Inr \<lparr>summary_passed = (90 / 100 \<le> recall \<and> orphans = [] \<and> merged = length merge \<and>
                 separate = length apart \<and> ranged),
               summary_scores = \<lparr>theme_count = length themes, count_in_range = ranged, theme_recall = recall,
                 orphan_entry_ids = orphans, merge_correct = merged, merge_total = length merge,
                 distinct_correct = separate, distinct_total = length apart\<rparr>\<rparr>))))))"

lemma pairs_of_set: "distinct xs \<Longrightarrow> x \<in> set xs \<Longrightarrow> y \<in> set xs \<Longrightarrow> x \<noteq> y \<Longrightarrow> (x, y) \<in> set (pairs_of xs) \<or> (y, x) \<in> set (pairs_of xs)"
  by (induction xs) auto

lemma pairs_of_members: "(x, y) \<in> set (pairs_of xs) \<Longrightarrow> x \<in> set xs \<and> y \<in> set xs"
  by (induction xs) auto

lemma permitted_members: "permitted merge (a, b) \<Longrightarrow> \<exists>ids \<in> set merge. JStr a \<in> set ids \<and> JStr b \<in> set ids"
  unfolding permitted_def list_ex_iff using pairs_of_members by (fastforce simp: doubleton_eq_iff)

lemma share_theme_pair:
  assumes "a \<in> set ids" "b \<in> set ids" "theme \<in> set members" "JStr a \<in> set theme" "JStr b \<in> set theme"
  shows "share_theme ids members [JStr a, JStr b] = Some True"
proof -
  from assms(3) obtain i where "i < length members" "members ! i = theme" by (auto simp: in_set_conv_nth)
  then show ?thesis using assms by (auto simp: share_theme_def list_ex_iff themes_of_def)
qed

lemma filter_all_eq: "length (filter P xs) = length xs \<Longrightarrow> x \<in> set xs \<Longrightarrow> P x"
  by (metis filter_id_conv length_filter_less less_irrefl)

text \<open>C33: a passed gate means nothing was dropped and nothing was merged that should not be. Every entry
  of the labelled ledger is in some theme; the entries of every known merge pair share one; and when
  the fixture forbids merging by default, two entries that share a theme are named together in a
  known merge pair.\<close>

theorem summary_gate_sound:
  assumes "score_summary order gold_summary predicted gold_ledger = Inr res" "summary_passed res"
    and "iteration_order order"
  shows "\<exists>ids members merge. entry_ids_of gold_ledger = Inr ids \<and>
    rbind (read_list predicted ''themes'') (map_result theme_members) = Inr members \<and>
    rbind (read_list gold_summary ''known_merge_pairs'') (map_result pair_ids) = Inr merge \<and>
    (\<forall>e \<in> set ids. \<exists>theme \<in> set members. JStr e \<in> set theme) \<and>
    (\<forall>pair \<in> set merge. 2 \<le> length pair \<longrightarrow> (\<exists>theme \<in> set members. set pair \<subseteq> set theme)) \<and>
    ((\<exists>v. jget gold_summary ''invert_distinct_default'' (JBool False) = Inr v \<and> \<not> json_falsy v) \<longrightarrow>
      (\<forall>a \<in> set ids. \<forall>b \<in> set ids. \<forall>theme \<in> set members. a \<noteq> b \<and> JStr a \<in> set theme \<and> JStr b \<in> set theme \<longrightarrow>
         (\<exists>pair \<in> set merge. JStr a \<in> set pair \<and> JStr b \<in> set pair)))"
proof -
  from assms(1) obtain themes ids members merge apart ranged where
    r: "read_list predicted ''themes'' = Inr themes" "entry_ids_of gold_ledger = Inr ids"
      "map_result theme_members themes = Inr members"
      "rbind (read_list gold_summary ''known_merge_pairs'') (map_result pair_ids) = Inr merge"
      "distinct_pairs gold_summary ids merge = Inr apart"
    and p: "summary_passed res \<Longrightarrow> filter (\<lambda>e. themes_of ids members (JStr e) = []) (order ids) = [] \<and>
        length (filter (\<lambda>p. share_theme ids members p \<noteq> Some False) merge) = length merge \<and>
        length (filter (\<lambda>p. share_theme ids members p \<noteq> Some True) apart) = length apart"
    unfolding score_summary_def Let_def
    by (auto simp: rbind_eq_Inr simp del: filter_False)
  note pass = p [OF assms(2)]
  have d: "distinct ids" using r(2) by (auto simp: entry_ids_of_def)
  then have o: "set (order ids) = set ids" using assms(3) by (simp add: iteration_order_def)
  have a: "\<exists>theme \<in> set members. JStr e \<in> set theme" if "e \<in> set ids" for e
    using pass o that nth_mem by (fastforce simp: filter_empty_conv themes_of_def split: if_splits)
  have b: "\<exists>theme \<in> set members. set pair \<subseteq> set theme" if "pair \<in> set merge" "2 \<le> length pair" for pair
    using filter_all_eq [of "\<lambda>p. share_theme ids members p \<noteq> Some False" merge pair] pass that
    by (auto simp: share_theme_def list_ex_iff list_all_iff themes_of_def split: if_splits)
  have c: "\<exists>pair \<in> set merge. JStr x \<in> set pair \<and> JStr y \<in> set pair"
    if inv: "\<exists>v. jget gold_summary ''invert_distinct_default'' (JBool False) = Inr v \<and> \<not> json_falsy v"
      and xy: "x \<in> set ids" "y \<in> set ids" "x \<noteq> y" "theme \<in> set members" "JStr x \<in> set theme" "JStr y \<in> set theme" for x y theme
  proof -
    have ap: "apart = map (\<lambda>(a, b). [JStr a, JStr b]) (filter (\<lambda>p. \<not> permitted merge p) (pairs_of (sort ids)))"
      using r(5) inv by (auto simp: distinct_pairs_def)
    have "permitted merge (a, b)" if "(a, b) \<in> set (pairs_of (sort ids))" "{a, b} = {x, y}" for a b
    proof (rule ccontr)
      assume "\<not> permitted merge (a, b)"
      then have "[JStr a, JStr b] \<in> set apart" using ap that(1) by force
      then have "share_theme ids members [JStr a, JStr b] \<noteq> Some True"
        using filter_all_eq [of "\<lambda>p. share_theme ids members p \<noteq> Some True" apart "[JStr a, JStr b]"] pass by simp
      then show False using share_theme_pair [of a ids b theme members] xy that(2) by (auto simp: doubleton_eq_iff)
    qed
    moreover have "(x, y) \<in> set (pairs_of (sort ids)) \<or> (y, x) \<in> set (pairs_of (sort ids))"
      using pairs_of_set [of "sort ids" x y] d xy by simp
    ultimately have "permitted merge (x, y) \<or> permitted merge (y, x)" by (auto simp: insert_commute)
    then show ?thesis using permitted_members [of merge x y] permitted_members [of merge y x] by blast
  qed
  show ?thesis using r a b c by (intro exI [of _ ids] exI [of _ members] exI [of _ merge]) auto
qed


definition demo_gold_summary :: json where
  "demo_gold_summary = JObj [(''invert_distinct_default'', JBool True), (''expected_theme_count_range'', JList [JInt 1, JInt 3]),
     (''known_merge_pairs'', JList [JObj [(''entry_ids'', JList [JStr ''a'', JStr ''b''])]])]"

definition demo_summary :: json where
  "demo_summary = JObj [(''themes'', JList [JObj [(''ledger_entry_ids'', JList [JStr ''a'', JStr ''b''])],
     JObj [(''ledger_entry_ids'', JList [JStr ''c''])]])]"

definition demo_gold_ids :: json where
  "demo_gold_ids = JObj [(''entries'', JList [JObj [(''id'', JStr ''a'')], JObj [(''id'', JStr ''b'')], JObj [(''id'', JStr ''c'')]])]"

lemma demo_summary_passes:
  "(case score_summary id demo_gold_summary demo_summary demo_gold_ids of Inr res \<Rightarrow> summary_passed res | Inl _ \<Rightarrow> False) = True"
  by code_simp

theorem summary_gate_sound_witness:
  "\<exists>ids members. entry_ids_of demo_gold_ids = Inr ids \<and>
     rbind (read_list demo_summary ''themes'') (map_result theme_members) = Inr members \<and>
     (\<forall>e \<in> set ids. \<exists>theme \<in> set members. JStr e \<in> set theme)"
proof -
  obtain res where r: "score_summary id demo_gold_summary demo_summary demo_gold_ids = Inr res" "summary_passed res"
    using demo_summary_passes by (auto split: sum.splits)
  have "iteration_order id" by (simp add: iteration_order_def)
  from summary_gate_sound [OF r this] show ?thesis by blast
qed

end
