(* ===== verification/Migrations.thy ===== *)
theory Migrations
  imports Prelude
begin

text \<open>
  The schema migrations, \<^verbatim>\<open>evidence_api/migrations.py\<close>. A database is its tables with their columns, the
  applied migrations, and of its rows what the migrations write: the pending operations and versions
  of the sessions and the jobs. A column that is not there yet reads as \<open>None\<close>. Column types,
  constraints and the quoting of names are left out, and so is the lock that keeps two processes
  from migrating at once; the statements run in one transaction, which an error rolls back.
\<close>

subsection \<open>Tables\<close>

record session_row =
  sw_id :: string
  sw_pending_operation_id :: "string option"
  sw_version :: "int option"

record job_row =
  jw_session_id :: string
  jw_error_code :: "string option"
  jw_ambiguous_operation_id :: "string option"
  jw_version :: "int option"

record sql_db =
  sd_tables :: "(string \<times> string list) list"
  sd_applied :: "(nat \<times> string) list option"
  sd_sessions :: "session_row list"
  sd_jobs :: "job_row list"

text \<open>The tables of \<^verbatim>\<open>evidence_api/models.py\<close>.\<close>

definition MODEL_TABLES :: "(string \<times> string list) list" where
  "MODEL_TABLES =
    [(''coaching_session'', [''id'', ''title'', ''state'', ''recorded_at'', ''duration_ms'', ''notes'',
       ''original_filename'', ''media_path'', ''media_sha256'', ''media_size_bytes'', ''speakr_recording_id'',
       ''transcription_submitted_at'', ''pending_operation_kind'', ''pending_operation_id'',
       ''pending_operation_started_at'', ''current_transcript_revision_id'', ''last_reconciled_at'',
       ''last_error'', ''created_at'', ''updated_at'', ''version'']),
     (''evidence_job'', [''id'', ''session_id'', ''type'', ''status'', ''attempts'', ''max_attempts'',
       ''error_code'', ''error_message'', ''ambiguous_operation_id'', ''available_at'', ''created_at'',
       ''updated_at'', ''version'']),
     (''transcript_revision'', [''id'', ''session_id'', ''sha256'', ''segments'', ''source'', ''created_at'']),
     (''ledger_entry'', [''id'', ''session_id'', ''transcript_revision_id'', ''topic'', ''exact_coach_feedback'',
       ''interpretation'', ''applies_to'', ''song_passage_measure'', ''problem_heard_before'',
       ''exercise_or_requested_change'', ''observed_result'', ''next_action_and_owner'',
       ''unresolved_question'', ''confidence_millis'', ''evidence'', ''extraction_metadata'',
       ''verification_status'', ''verified_by'', ''verified_at'', ''created_at'', ''updated_at'']),
     (''session_summary'', [''id'', ''session_id'', ''transcript_revision_id'', ''themes'', ''entry_count'',
       ''source_updated_at'', ''generated_at'', ''created_at'', ''updated_at'']),
     (''ledger_verification'', [''id'', ''ledger_entry_id'', ''reviewer'', ''status'', ''note'', ''created_at'']),
     (''deletion_tombstone'', [''session_id'', ''requested_at'', ''compensated_recording_id'', ''compensated_at'']),
     (''deletion_compensation'', [''id'', ''session_id'', ''recording_id'', ''status'', ''attempts'', ''error_code'',
       ''error_message'', ''available_at'', ''completed_at'', ''created_at'', ''updated_at'']),
     (''provider_operation_resolution'', [''id'', ''session_id'', ''job_id'', ''operation_id'', ''operation_kind'',
       ''outcome'', ''remote_recording_id'', ''verification_method'', ''override_reason'', ''resolved_by'',
       ''resolved_at'']),
     (''webhook_delivery'', [''delivery_id'', ''session_id'', ''event_type'', ''payload_sha256'', ''payload'',
       ''received_at''])]"

definition columns :: "sql_db \<Rightarrow> string \<Rightarrow> string list option" where
  "columns db t = map_of (sd_tables db) t"

definition has_column :: "sql_db \<Rightarrow> string \<Rightarrow> string \<Rightarrow> bool" where
  "has_column db t c \<longleftrightarrow> (case columns db t of None \<Rightarrow> False | Some cs \<Rightarrow> c \<in> set cs)"

lemma has_column_iff: "has_column db t c \<longleftrightarrow> (\<exists>cs. columns db t = Some cs \<and> c \<in> set cs)"
  by (simp add: has_column_def split: option.splits)

subsection \<open>Statements\<close>

text \<open>\<^verbatim>\<open>create(connection, checkfirst=True)\<close> and \<^verbatim>\<open>create_all\<close>: only what is missing.\<close>

definition create_table :: "string \<Rightarrow> sql_db \<Rightarrow> sql_db" where
  "create_table t db =
     (if columns db t = None
      then db\<lparr>sd_tables := sd_tables db @ [(t, the (map_of MODEL_TABLES t))]\<rparr> else db)"

definition create_all :: "sql_db \<Rightarrow> sql_db" where
  "create_all db = foldl (\<lambda>db t. create_table t db) db (map fst MODEL_TABLES)"

definition add_column :: "string \<Rightarrow> string \<Rightarrow> sql_db \<Rightarrow> sql_db" where
  "add_column t c db =
     (case columns db t of
        None \<Rightarrow> db
      | Some cs \<Rightarrow>
          if c \<in> set cs then db
          else db\<lparr>sd_tables := map (\<lambda>(t', cs'). (t', if t' = t then cs' @ [c] else cs')) (sd_tables db)\<rparr>)"

datatype sql_error = No_such_column string string

definition need :: "sql_db \<Rightarrow> string \<Rightarrow> string \<Rightarrow> (sql_error, unit) result" where
  "need db t c = guard_else (has_column db t c) (No_such_column t c)"

text \<open>The \<^verbatim>\<open>UPDATE ... SET version = 1 WHERE version IS NULL\<close>. The new column has the default 1, so no row
  of the table is without a version after it.\<close>

definition or_one :: "int option \<Rightarrow> int option" where
  "or_one v = (case v of None \<Rightarrow> Some 1 | Some n \<Rightarrow> Some n)"

definition set_versions :: "string \<Rightarrow> sql_db \<Rightarrow> sql_db" where
  "set_versions t db =
     (if t = ''coaching_session''
      then db\<lparr>sd_sessions := map (\<lambda>r. r\<lparr>sw_version := or_one (sw_version r)\<rparr>) (sd_sessions db)\<rparr>
      else if t = ''evidence_job''
      then db\<lparr>sd_jobs := map (\<lambda>r. r\<lparr>jw_version := or_one (jw_version r)\<rparr>) (sd_jobs db)\<rparr>
      else db)"

definition add_version_column :: "string \<Rightarrow> sql_db \<Rightarrow> (sql_error, sql_db) result" where
  "add_version_column t db =
     (let db1 = add_column t ''version'' db in rbind (need db1 t ''version'') (\<lambda>_. Inr (set_versions t db1)))"

subsection \<open>Migrations\<close>

definition initial_schema :: "sql_db \<Rightarrow> (sql_error, sql_db) result" where
  "initial_schema db = Inr (create_all db)"

definition worker_safety_schema :: "sql_db \<Rightarrow> (sql_error, sql_db) result" where
  "worker_safety_schema db =
     (let db1 = add_column ''coaching_session'' ''pending_operation_started_at''
                  (add_column ''coaching_session'' ''pending_operation_id''
                    (add_column ''coaching_session'' ''pending_operation_kind'' db))
      in rbind (add_version_column ''coaching_session'' db1) (\<lambda>db2.
         rbind (add_version_column ''evidence_job'' db2) (\<lambda>db3.
           Inr (create_table ''deletion_compensation''
                 (add_column ''deletion_tombstone'' ''compensated_at''
                   (add_column ''deletion_tombstone'' ''compensated_recording_id''
                     (create_table ''deletion_tombstone'' db3)))))))"

text \<open>\<^verbatim>\<open>SELECT pending_operation_id FROM coaching_session WHERE id = session_id\<close>, as a scalar.\<close>

definition pending_of :: "session_row list \<Rightarrow> string \<Rightarrow> string option" where
  "pending_of sessions sid = (case filter (\<lambda>s. sw_id s = sid) sessions of [] \<Rightarrow> None | s # _ \<Rightarrow> sw_pending_operation_id s)"

definition backfill_job :: "session_row list \<Rightarrow> job_row \<Rightarrow> job_row" where
  "backfill_job sessions j =
     (if jw_error_code j = Some ''ambiguous_provider_operation'' \<and> jw_ambiguous_operation_id j = None
      then j\<lparr>jw_ambiguous_operation_id := pending_of sessions (jw_session_id j)\<rparr> else j)"

definition operation_resolution_schema :: "sql_db \<Rightarrow> (sql_error, sql_db) result" where
  "operation_resolution_schema db =
     (let db1 = create_table ''provider_operation_resolution'' (add_column ''evidence_job'' ''ambiguous_operation_id'' db)
      in rbind (need db1 ''evidence_job'' ''ambiguous_operation_id'') (\<lambda>_.
         rbind (need db1 ''evidence_job'' ''error_code'') (\<lambda>_.
         rbind (need db1 ''evidence_job'' ''session_id'') (\<lambda>_.
         rbind (need db1 ''coaching_session'' ''id'') (\<lambda>_.
         rbind (need db1 ''coaching_session'' ''pending_operation_id'') (\<lambda>_.
           Inr (db1\<lparr>sd_jobs := map (backfill_job (sd_sessions db1)) (sd_jobs db1)\<rparr>)))))))"

definition session_summary_schema :: "sql_db \<Rightarrow> (sql_error, sql_db) result" where
  "session_summary_schema db = Inr (create_table ''session_summary'' db)"

definition MIGRATIONS :: "(nat \<times> string \<times> (sql_db \<Rightarrow> (sql_error, sql_db) result)) list" where
  "MIGRATIONS = [(1, ''initial_schema'', initial_schema), (2, ''worker_safety_schema'', worker_safety_schema),
     (3, ''operation_resolution_audit'', operation_resolution_schema), (4, ''session_summary'', session_summary_schema)]"

definition record_applied :: "nat \<Rightarrow> string \<Rightarrow> sql_db \<Rightarrow> sql_db" where
  "record_applied version name db = db\<lparr>sd_applied := map_option (\<lambda>as. as @ [(version, name)]) (sd_applied db)\<rparr>"

definition create_migration_table :: "sql_db \<Rightarrow> sql_db" where
  "create_migration_table db = (if sd_applied db = None then db\<lparr>sd_applied := Some []\<rparr> else db)"

definition apply_migration ::
  "nat list \<Rightarrow> sql_db \<Rightarrow> nat \<times> string \<times> (sql_db \<Rightarrow> (sql_error, sql_db) result) \<Rightarrow> (sql_error, sql_db) result" where
  "apply_migration applied db m = (case m of (version, name, migration) \<Rightarrow>
     if version \<in> set applied then Inr db
     else rbind (migration db) (\<lambda>db'. Inr (record_applied version name db')))"

definition run_migrations :: "sql_db \<Rightarrow> (sql_error, unit) result \<times> sql_db" where
  "run_migrations db =
     (let db0 = create_migration_table db
      in case fold_result (apply_migration (map fst (the (sd_applied db0)))) db0 MIGRATIONS of
           Inl e \<Rightarrow> (Inl e, db)
         | Inr db' \<Rightarrow> (Inr (), db'))"


subsection \<open>Effects on the schema\<close>

definition table :: "sql_db \<Rightarrow> string \<Rightarrow> bool" where
  "table db t \<longleftrightarrow> columns db t \<noteq> None"

lemma columns_create: "columns (create_table t db) t' =
    (if columns db t = None \<and> t' = t then Some (the (map_of MODEL_TABLES t)) else columns db t')"
  by (auto simp: create_table_def columns_def map_add_def split: option.splits)

lemma map_of_append_column: "map_of (map (\<lambda>(t', cs). (t', if t' = t then cs @ [c] else cs)) ts) t' =
    map_option (\<lambda>cs. if t' = t then cs @ [c] else cs) (map_of ts t')"
  by (induction ts) auto

lemma columns_add: "columns (add_column t c db) t' =
    map_option (\<lambda>cs. if t' = t \<and> c \<notin> set cs then cs @ [c] else cs) (columns db t')"
proof (cases "columns db t")
  case None
  then show ?thesis by (cases "t' = t"; cases "columns db t'") (auto simp: add_column_def)
next
  case (Some cs)
  then show ?thesis
    by (cases "t' = t"; cases "columns db t'") (auto simp: add_column_def columns_def map_of_append_column)
qed

lemma columns_rows [simp]: "columns (set_versions t db) t' = columns db t'"
  "columns (db\<lparr>sd_jobs := js\<rparr>) t' = columns db t'" "columns (db\<lparr>sd_applied := a\<rparr>) t' = columns db t'"
  by (simp_all add: columns_def set_versions_def)

lemma columns_record [simp]: "columns (record_applied v n db) t = columns db t"
  "columns (create_migration_table db) t = columns db t"
  by (simp_all add: record_applied_def create_migration_table_def)

text \<open>Statements only ever add.\<close>

definition grows :: "sql_db \<Rightarrow> sql_db \<Rightarrow> bool" where
  "grows db db' \<longleftrightarrow> (\<forall>t cs. columns db t = Some cs \<longrightarrow> (\<exists>cs'. columns db' t = Some cs' \<and> set cs \<subseteq> set cs'))"

lemma grows_refl: "grows db db" and grows_trans: "grows a b \<Longrightarrow> grows b c \<Longrightarrow> grows a c"
  by (auto simp: grows_def) (metis subset_trans)

lemma grows_create: "grows db (create_table t db)"
  by (auto simp: grows_def columns_create)

lemma grows_add: "grows db (add_column t c db)"
  by (auto simp: grows_def columns_add)

lemma grows_table: "grows db db' \<Longrightarrow> table db t \<Longrightarrow> table db' t"
  by (fastforce simp: grows_def table_def)

lemma grows_has: "grows db db' \<Longrightarrow> has_column db t c \<Longrightarrow> has_column db' t c"
  by (fastforce simp: grows_def has_column_iff)

lemma add_column_has: "table db t \<Longrightarrow> has_column (add_column t c db) t c"
  by (cases "columns db t") (auto simp: table_def has_column_iff columns_add)

lemma create_table_table: "table (create_table t db) t"
  by (simp add: table_def columns_create)

lemma table_add [simp]: "table (add_column t c db) t' \<longleftrightarrow> table db t'"
  by (simp add: table_def columns_add)

text \<open>A table is complete when it has every column of its model.\<close>

definition model_columns :: "string \<Rightarrow> string set" where
  "model_columns t = (case map_of MODEL_TABLES t of None \<Rightarrow> {} | Some cs \<Rightarrow> set cs)"

text \<open>The state of a database that holds the schema of version \<open>v\<close>: what is still missing is what the
  later migrations add.\<close>

definition created_after :: "nat \<Rightarrow> string set" where
  "created_after v =
     (if v = 0 then fst ` set MODEL_TABLES
      else (if v < 2 then {''deletion_tombstone'', ''deletion_compensation''} else {}) \<union>
           (if v < 3 then {''provider_operation_resolution''} else {}) \<union> (if v < 4 then {''session_summary''} else {}))"

definition added_after :: "nat \<Rightarrow> (string \<times> string) set" where
  "added_after v =
     (if v < 2 then {(''coaching_session'', ''pending_operation_kind''), (''coaching_session'', ''pending_operation_id''),
        (''coaching_session'', ''pending_operation_started_at''), (''coaching_session'', ''version''),
        (''evidence_job'', ''version''), (''deletion_tombstone'', ''compensated_recording_id''),
        (''deletion_tombstone'', ''compensated_at'')} else {}) \<union>
     (if v < 3 then {(''evidence_job'', ''ambiguous_operation_id'')} else {})"

definition at_version :: "nat \<Rightarrow> sql_db \<Rightarrow> bool" where
  "at_version v db \<longleftrightarrow> (\<forall>t \<in> fst ` set MODEL_TABLES.
     (table db t \<or> t \<in> created_after v) \<and>
     (table db t \<longrightarrow> (\<forall>c \<in> model_columns t. has_column db t c \<or> (t, c) \<in> added_after v)))"

text \<open>One migration: the tables it creates and the columns it adds are there, everything else stays.\<close>

lemma at_version_step:
  assumes "at_version v db" "grows db db'"
    and "\<And>t. t \<in> fst ` set MODEL_TABLES \<Longrightarrow> t \<in> created_after v - created_after v' \<Longrightarrow> table db' t"
    and "\<And>t c. (t, c) \<in> added_after v - added_after v' \<Longrightarrow> table db' t \<Longrightarrow> has_column db' t c"
    and "\<And>t c. t \<in> fst ` set MODEL_TABLES \<Longrightarrow> \<not> table db t \<Longrightarrow> table db' t \<Longrightarrow> c \<in> model_columns t \<Longrightarrow> has_column db' t c"
  shows "at_version v' db'"
  unfolding at_version_def
proof (intro ballI conjI impI)
  fix t assume t: "t \<in> fst ` set MODEL_TABLES"
  show "table db' t \<or> t \<in> created_after v'"
    using assms(1) assms(3) [of t] t grows_table [OF assms(2), of t] unfolding at_version_def by blast
  fix c assume "table db' t" "c \<in> model_columns t"
  then show "has_column db' t c \<or> (t, c) \<in> added_after v'"
    using assms(1) assms(4,5) [of t c] t grows_has [OF assms(2), of t c] unfolding at_version_def by blast
qed

text \<open>A table that a statement creates has its model's columns.\<close>

definition complete_or_old :: "sql_db \<Rightarrow> sql_db \<Rightarrow> bool" where
  "complete_or_old db db' \<longleftrightarrow> grows db db' \<and>
     (\<forall>t \<in> fst ` set MODEL_TABLES. table db t \<or> \<not> table db' t \<or> (\<forall>c \<in> model_columns t. has_column db' t c))"

lemma complete_or_old_refl: "complete_or_old db db"
  by (auto simp: complete_or_old_def grows_refl)

lemma complete_or_old_add: "complete_or_old db db' \<Longrightarrow> complete_or_old db (add_column t c db')"
  unfolding complete_or_old_def table_add using grows_add grows_trans grows_has by blast

lemma complete_or_old_create: "complete_or_old db db' \<Longrightarrow> complete_or_old db (create_table t db')"
  unfolding complete_or_old_def
proof (intro conjI ballI)
  assume a: "grows db db' \<and> (\<forall>t \<in> fst ` set MODEL_TABLES. table db t \<or> \<not> table db' t \<or> (\<forall>c \<in> model_columns t. has_column db' t c))"
  then show "grows db (create_table t db')" using grows_create grows_trans by blast
  fix t' assume t': "t' \<in> fst ` set MODEL_TABLES"
  show "table db t' \<or> \<not> table (create_table t db') t' \<or> (\<forall>c \<in> model_columns t'. has_column (create_table t db') t' c)"
  proof (cases "table db' t'")
    case True
    then show ?thesis using a t' grows_has [OF grows_create] by blast
  next
    case False
    then have n: "columns db' t' = None" by (simp add: table_def)
    from t' obtain cs where "map_of MODEL_TABLES t' = Some cs" by (metis map_of_eq_None_iff not_Some_eq)
    then show ?thesis using n by (auto simp: columns_create table_def has_column_iff model_columns_def)
  qed
qed


lemma complete_or_old_cong: "(\<And>t. columns db'' t = columns db' t) \<Longrightarrow> complete_or_old db db' \<Longrightarrow> complete_or_old db db''"
  by (simp add: complete_or_old_def grows_def table_def has_column_iff)

lemma complete_or_old_versions: "complete_or_old db db' \<Longrightarrow> complete_or_old db (set_versions t db')"
  by (rule complete_or_old_cong) simp_all

lemmas complete_or_old_intros = complete_or_old_refl complete_or_old_add complete_or_old_create complete_or_old_versions

lemma at_version_complete:
  assumes "at_version v db" "complete_or_old db db'"
    and "\<And>t. t \<in> created_after v - created_after v' \<Longrightarrow> table db' t"
    and "\<And>t c. (t, c) \<in> added_after v - added_after v' \<Longrightarrow> table db' t \<Longrightarrow> has_column db' t c"
  shows "at_version v' db'"
proof (rule at_version_step [OF assms(1)])
  show "grows db db'" using assms(2) unfolding complete_or_old_def by blast
  show "\<And>t. t \<in> fst ` set MODEL_TABLES \<Longrightarrow> t \<in> created_after v - created_after v' \<Longrightarrow> table db' t"
    using assms(3) by blast
  show "\<And>t c. (t, c) \<in> added_after v - added_after v' \<Longrightarrow> table db' t \<Longrightarrow> has_column db' t c"
    using assms(4) by blast
  show "\<And>t c. t \<in> fst ` set MODEL_TABLES \<Longrightarrow> \<not> table db t \<Longrightarrow> table db' t \<Longrightarrow> c \<in> model_columns t \<Longrightarrow> has_column db' t c"
    using assms(2) unfolding complete_or_old_def by blast
qed

lemma at_version_cong: "(\<And>t. columns db' t = columns db t) \<Longrightarrow> at_version v db' = at_version v db"
  by (simp add: at_version_def table_def has_column_iff)

lemma table_create: "table db t' \<Longrightarrow> table (create_table t db) t'"
  using grows_table [OF grows_create] .

lemma table_rows [simp]: "table (set_versions t db) t' = table db t'" "has_column (set_versions t db) t' c = has_column db t' c"
  by (simp_all add: table_def has_column_iff)

lemma has_create: "has_column db t' c \<Longrightarrow> has_column (create_table t db) t' c"
  by (rule grows_has [OF grows_create])

lemma has_add: "has_column db t' c \<Longrightarrow> has_column (add_column t c' db) t' c"
  by (rule grows_has [OF grows_add])

lemma foldl_create:
  "complete_or_old db (foldl (\<lambda>db t. create_table t db) db ts) \<and> (\<forall>t \<in> set ts. table (foldl (\<lambda>db t. create_table t db) db ts) t)"
proof (induction ts rule: rev_induct)
  case (snoc t ts)
  then show ?case by (auto intro: complete_or_old_create create_table_table table_create)
qed (simp add: complete_or_old_refl)

lemma initial_schema_ok:
  assumes "at_version 0 db"
  shows "\<exists>db'. initial_schema db = Inr db' \<and> complete_or_old db db' \<and> at_version 1 db'"
proof -
  have c: "complete_or_old db (create_all db)" and t: "\<And>t. t \<in> fst ` set MODEL_TABLES \<Longrightarrow> table (create_all db) t"
    using foldl_create [of db "map fst MODEL_TABLES"] unfolding create_all_def set_map by blast+
  have "created_after 0 - created_after 1 \<subseteq> fst ` set MODEL_TABLES" "added_after 0 = added_after 1"
    unfolding created_after_def added_after_def by simp_all blast?
  then have "at_version 1 (create_all db)"
    using t by (intro at_version_complete [OF assms c]) blast+
  then show ?thesis using c unfolding initial_schema_def by blast
qed

lemma model_table: "''coaching_session'' \<in> fst ` set MODEL_TABLES" "''evidence_job'' \<in> fst ` set MODEL_TABLES"
  "''error_code'' \<in> model_columns ''evidence_job''" "''session_id'' \<in> model_columns ''evidence_job''"
  "''id'' \<in> model_columns ''coaching_session''" "''pending_operation_id'' \<in> model_columns ''coaching_session''"
  by code_simp+

lemma core_tables: "at_version v db \<Longrightarrow> 0 < v \<Longrightarrow> table db ''coaching_session'' \<and> table db ''evidence_job''"
  using model_table(1,2) by (auto simp: at_version_def created_after_def split: if_splits)

lemma has_old_column: "at_version v db \<Longrightarrow> t \<in> fst ` set MODEL_TABLES \<Longrightarrow> table db t \<Longrightarrow>
    c \<in> model_columns t \<Longrightarrow> (t, c) \<notin> added_after v \<Longrightarrow> has_column db t c"
  unfolding at_version_def by blast

lemma worker_safety_ok:
  assumes "at_version 1 db"
  shows "\<exists>db'. worker_safety_schema db = Inr db' \<and> complete_or_old db db' \<and> at_version 2 db'"
proof -
  let ?S = "''coaching_session''" and ?J = "''evidence_job''" and ?T = "''deletion_tombstone''"
  define db1 where "db1 = add_column ?S ''pending_operation_started_at'' (add_column ?S ''pending_operation_id'' (add_column ?S ''pending_operation_kind'' db))"
  define db2 where "db2 = set_versions ?S (add_column ?S ''version'' db1)"
  define db3 where "db3 = set_versions ?J (add_column ?J ''version'' db2)"
  define db4 where "db4 = create_table ''deletion_compensation'' (add_column ?T ''compensated_at''
     (add_column ?T ''compensated_recording_id'' (create_table ?T db3)))"
  have t: "table db ?S" "table db ?J" using core_tables [OF assms] by simp_all
  have "add_version_column ?S db1 = Inr db2" "add_version_column ?J db2 = Inr db3"
    using t by (simp_all add: add_version_column_def need_def add_column_has db1_def db2_def db3_def)
  then have r: "worker_safety_schema db = Inr db4"
    by (simp add: worker_safety_schema_def db1_def [symmetric] db4_def)
  have c: "complete_or_old db db4"
    unfolding db4_def db3_def db2_def db1_def by (intro complete_or_old_intros)
  have "table db4 ?T" "table db4 ''deletion_compensation''"
    unfolding db4_def by (simp_all add: create_table_table table_create)
  moreover have "has_column db4 ?S ''pending_operation_kind'' \<and> has_column db4 ?S ''pending_operation_id'' \<and>
      has_column db4 ?S ''pending_operation_started_at'' \<and> has_column db4 ?S ''version'' \<and> has_column db4 ?J ''version'' \<and>
      has_column db4 ?T ''compensated_recording_id'' \<and> has_column db4 ?T ''compensated_at''"
    unfolding db4_def db3_def db2_def db1_def using t
    by (simp add: has_create has_add add_column_has create_table_table)
  ultimately have "at_version 2 db4"
    by (intro at_version_complete [OF assms c]) (auto simp: created_after_def added_after_def)
  then show ?thesis using r c by blast
qed

lemma operation_resolution_ok:
  assumes "at_version 2 db"
  shows "\<exists>db'. operation_resolution_schema db = Inr db' \<and> complete_or_old db db' \<and> at_version 3 db'"
proof -
  let ?S = "''coaching_session''" and ?J = "''evidence_job''"
  define db1 where "db1 = create_table ''provider_operation_resolution'' (add_column ?J ''ambiguous_operation_id'' db)"
  define db2 where "db2 = db1\<lparr>sd_jobs := map (backfill_job (sd_sessions db1)) (sd_jobs db1)\<rparr>"
  have t: "table db ?S" "table db ?J" using core_tables [OF assms] by simp_all
  have "has_column db ?J ''error_code'' \<and> has_column db ?J ''session_id'' \<and> has_column db ?S ''id'' \<and> has_column db ?S ''pending_operation_id''"
    using t model_table by (intro conjI has_old_column [OF assms]) (simp_all add: added_after_def)
  then have h: "has_column db1 ?J ''error_code''" "has_column db1 ?J ''session_id''" "has_column db1 ?S ''id''"
      "has_column db1 ?S ''pending_operation_id''" "has_column db1 ?J ''ambiguous_operation_id''"
    using t by (simp_all add: db1_def has_create has_add add_column_has)
  have r: "operation_resolution_schema db = Inr db2"
    by (simp add: operation_resolution_schema_def db1_def [symmetric] need_def h db2_def)
  have c: "complete_or_old db db2"
    by (rule complete_or_old_cong [of _ db1]) (simp_all add: db2_def db1_def complete_or_old_intros)
  have "table db2 ''provider_operation_resolution''" "has_column db2 ?J ''ambiguous_operation_id''"
    using h(5) create_table_table [of "''provider_operation_resolution''"]
    by (simp_all add: table_def has_column_iff db2_def db1_def)
  then have "at_version 3 db2"
    by (intro at_version_complete [OF assms c]) (auto simp: created_after_def added_after_def)
  then show ?thesis using r c by blast
qed

lemma session_summary_ok:
  assumes "at_version 3 db"
  shows "\<exists>db'. session_summary_schema db = Inr db' \<and> complete_or_old db db' \<and> at_version 4 db'"
proof -
  have c: "complete_or_old db (create_table ''session_summary'' db)" by (intro complete_or_old_intros)
  have "at_version 4 (create_table ''session_summary'' db)"
    by (rule at_version_complete [OF assms c]) (auto simp: created_after_def added_after_def create_table_table)
  then show ?thesis using c by (simp add: session_summary_schema_def)
qed


subsection \<open>Effects on the rows\<close>

lemma rows_create [simp]: "sd_sessions (create_table t db) = sd_sessions db" "sd_jobs (create_table t db) = sd_jobs db"
  "sd_applied (create_table t db) = sd_applied db"
  by (simp_all add: create_table_def)

lemma rows_add [simp]: "sd_sessions (add_column t c db) = sd_sessions db" "sd_jobs (add_column t c db) = sd_jobs db"
  "sd_applied (add_column t c db) = sd_applied db"
  by (simp_all add: add_column_def split: option.splits)

lemma rows_create_all [simp]: "sd_sessions (create_all db) = sd_sessions db" "sd_jobs (create_all db) = sd_jobs db"
  "sd_applied (create_all db) = sd_applied db"
  by (simp_all add: create_all_def MODEL_TABLES_def)

lemma rows_versions [simp]: "sd_applied (set_versions t db) = sd_applied db"
  "sd_sessions (set_versions ''evidence_job'' db) = sd_sessions db"
  "sd_jobs (set_versions ''coaching_session'' db) = sd_jobs db"
  "sd_sessions (set_versions ''coaching_session'' db) = map (sw_version_update or_one) (sd_sessions db)"
  "sd_jobs (set_versions ''evidence_job'' db) = map (jw_version_update or_one) (sd_jobs db)"
  by (simp_all add: set_versions_def)

lemma rows_record [simp]: "sd_sessions (record_applied v n db) = sd_sessions db" "sd_jobs (record_applied v n db) = sd_jobs db"
  "sd_sessions (create_migration_table db) = sd_sessions db" "sd_jobs (create_migration_table db) = sd_jobs db"
  by (simp_all add: record_applied_def create_migration_table_def)

text \<open>What the migrations after version \<open>v\<close> make of a session and of a job.\<close>

definition migrated_session :: "nat \<Rightarrow> session_row \<Rightarrow> session_row" where
  "migrated_session v r = (if v < 2 then sw_version_update or_one r else r)"

definition migrated_job :: "nat \<Rightarrow> session_row list \<Rightarrow> job_row \<Rightarrow> job_row" where
  "migrated_job v sessions j =
     (let j1 = (if v < 2 then jw_version_update or_one j else j)
      in if v < 3 then backfill_job sessions j1 else j1)"

definition rows_migrated :: "nat \<Rightarrow> sql_db \<Rightarrow> sql_db \<Rightarrow> bool" where
  "rows_migrated v db db' \<longleftrightarrow> sd_sessions db' = map (migrated_session v) (sd_sessions db) \<and>
     sd_jobs db' = map (migrated_job v (sd_sessions db)) (sd_jobs db)"

text \<open>One migration, in the order of the list.\<close>

definition step_rows :: "nat \<Rightarrow> sql_db \<Rightarrow> sql_db \<Rightarrow> bool" where
  "step_rows v db db' \<longleftrightarrow> sd_applied db' = sd_applied db \<and>
     sd_sessions db' = (if v = 1 then map (sw_version_update or_one) (sd_sessions db) else sd_sessions db) \<and>
     sd_jobs db' = (if v = 1 then map (jw_version_update or_one) (sd_jobs db)
                    else if v = 2 then map (backfill_job (sd_sessions db)) (sd_jobs db) else sd_jobs db)"

lemma add_version_column_InrD: "add_version_column t db = Inr db' \<Longrightarrow> db' = set_versions t (add_column t ''version'' db)"
  by (auto simp: add_version_column_def Let_def need_def guard_else_def split: if_splits)

lemma initial_schema_rows: "initial_schema db = Inr db' \<Longrightarrow> step_rows 0 db db'"
  by (auto simp: initial_schema_def step_rows_def)

lemma worker_safety_rows: "worker_safety_schema db = Inr db' \<Longrightarrow> step_rows 1 db db'"
  by (auto simp: worker_safety_schema_def Let_def step_rows_def dest!: add_version_column_InrD)

lemma operation_resolution_rows: "operation_resolution_schema db = Inr db' \<Longrightarrow> step_rows 2 db db'"
  by (auto simp: operation_resolution_schema_def Let_def step_rows_def)

lemma session_summary_rows: "session_summary_schema db = Inr db' \<Longrightarrow> step_rows 3 db db'"
  by (auto simp: session_summary_schema_def step_rows_def)

definition migration_step :: "nat \<Rightarrow> (sql_db \<Rightarrow> (sql_error, sql_db) result) \<Rightarrow> bool" where
  "migration_step v f \<longleftrightarrow> (\<forall>db. at_version v db \<longrightarrow>
     (\<exists>db'. f db = Inr db' \<and> grows db db' \<and> at_version (Suc v) db' \<and> step_rows v db db'))"

lemma migration_stepI:
  assumes "\<And>db. at_version v db \<Longrightarrow> \<exists>db'. f db = Inr db' \<and> complete_or_old db db' \<and> at_version (Suc v) db'"
    and "\<And>db db'. f db = Inr db' \<Longrightarrow> step_rows v db db'"
  shows "migration_step v f"
  using assms unfolding migration_step_def complete_or_old_def by blast

lemma migration_steps: "migration_step 0 initial_schema" "migration_step 1 worker_safety_schema"
  "migration_step 2 operation_resolution_schema" "migration_step 3 session_summary_schema"
  using initial_schema_ok worker_safety_ok operation_resolution_ok session_summary_ok
    initial_schema_rows worker_safety_rows operation_resolution_rows session_summary_rows
  by (auto intro!: migration_stepI simp: numeral_2_eq_2 numeral_3_eq_3 eval_nat_numeral)

lemma pending_of_versions [simp]: "pending_of (map (sw_version_update f) ss) sid = pending_of ss sid"
  by (induction ss) (simp_all add: pending_of_def)

lemma backfill_job_versions [simp]: "backfill_job (map (sw_version_update f) ss) = backfill_job ss"
  by (rule ext) (simp add: backfill_job_def)

lemma rows_migrated_step:
  assumes "step_rows v db db1" "rows_migrated (Suc v) db1 db2"
  shows "rows_migrated v db db2"
proof -
  consider "v = 0" | "v = 1" | "v = 2" | "v > 2" by linarith
  then show ?thesis
    using assms by cases (auto simp: step_rows_def rows_migrated_def migrated_session_def migrated_job_def Let_def)
qed

lemma MIGRATIONS_nth: "v < 4 \<Longrightarrow> \<exists>n f. MIGRATIONS ! v = (Suc v, n, f) \<and> migration_step v f"
proof -
  assume "v < 4"
  then consider "v = 0" | "v = 1" | "v = 2" | "v = 3" by linarith
  then show ?thesis using migration_steps by cases (simp_all add: MIGRATIONS_def)
qed


text \<open>The whole run: the migrations up to \<open>v\<close> are skipped, the others are applied.\<close>

lemma fold_result_skip: "(\<And>x. x \<in> set xs \<Longrightarrow> f s x = Inr s) \<Longrightarrow> fold_result f s (xs @ ys) = fold_result f s ys"
  by (induction xs) simp_all

lemma applied_record [simp]: "sd_applied (record_applied v n db) = map_option (\<lambda>as. as @ [(v, n)]) (sd_applied db)"
  by (simp add: record_applied_def)

lemma at_version_record [simp]: "at_version k (record_applied v n db) = at_version k db"
  "at_version k (create_migration_table db) = at_version k db"
  by (rule at_version_cong, simp)+

lemma grows_record [simp]: "grows (record_applied v n db) db' = grows db db'"
  "grows (create_migration_table db) db' = grows db db'"
  by (simp_all add: grows_def)

definition upgraded :: "nat \<Rightarrow> sql_db \<Rightarrow> sql_db \<Rightarrow> bool" where
  "upgraded v db db' \<longleftrightarrow> grows db db' \<and> at_version 4 db' \<and> rows_migrated v db db' \<and>
     map_option (map fst) (sd_applied db') = map_option (\<lambda>as. map fst as @ [Suc v..<5]) (sd_applied db)"

lemma upgraded_step:
  assumes "grows db db1" "step_rows v db db1" "upgraded (Suc v) (record_applied (Suc v) n db1) db2" "v < 4"
  shows "upgraded v db db2"
proof -
  have "grows db1 db2" using assms(3) by (simp add: upgraded_def)
  then have "grows db db2" by (rule grows_trans [OF assms(1)])
  moreover have "rows_migrated (Suc v) db1 db2" using assms(3) by (simp add: upgraded_def rows_migrated_def)
  then have "rows_migrated v db db2" by (rule rows_migrated_step [OF assms(2)])
  moreover have "[Suc v..<5] = Suc v # [Suc (Suc v)..<5]" using assms(4) by (simp add: upt_conv_Cons)
  moreover have "sd_applied db1 = sd_applied db" using assms(2) by (simp add: step_rows_def)
  ultimately show ?thesis
    using assms(3) by (cases "sd_applied db") (simp_all add: upgraded_def)
qed

lemma rest_upgrades:
  assumes "at_version v db" "v \<le> 4" "set applied \<inter> {Suc v..4} = {}"
  shows "\<exists>db'. fold_result (apply_migration applied) db (drop v MIGRATIONS) = Inr db' \<and> upgraded v db db'"
  using assms(2,1,3)
proof (induction v arbitrary: db rule: inc_induct)
  case base
  then show ?case
    by (auto simp: upgraded_def grows_refl rows_migrated_def migrated_session_def migrated_job_def MIGRATIONS_def
        map_idI option.map_ident)
next
  case (step v)
  obtain n f where m: "MIGRATIONS ! v = (Suc v, n, f)" "migration_step v f" using MIGRATIONS_nth step(2) by blast
  then obtain db1 where db1: "f db = Inr db1" "grows db db1" "at_version (Suc v) db1" "step_rows v db db1"
    using step(4) unfolding migration_step_def by blast
  have "\<exists>db'. fold_result (apply_migration applied) (record_applied (Suc v) n db1) (drop (Suc v) MIGRATIONS) = Inr db' \<and>
      upgraded (Suc v) (record_applied (Suc v) n db1) db'"
    using step(5) db1(3) by (intro step.IH) auto
  then obtain db2 where db2: "fold_result (apply_migration applied) (record_applied (Suc v) n db1) (drop (Suc v) MIGRATIONS) = Inr db2"
    "upgraded (Suc v) (record_applied (Suc v) n db1) db2" by blast
  have "Suc v \<notin> set applied" using step(2,5) by auto
  then have "apply_migration applied db (MIGRATIONS ! v) = Inr (record_applied (Suc v) n db1)"
    by (simp add: apply_migration_def m(1) db1(1))
  moreover have "drop v MIGRATIONS = MIGRATIONS ! v # drop (Suc v) MIGRATIONS"
    using step(2) by (intro Cons_nth_drop_Suc [symmetric]) (simp add: MIGRATIONS_def)
  ultimately show ?case using db2(1) upgraded_step [OF db1(2,4) db2(2)] step(2) by auto
qed

lemma applied_skips: "x \<in> set (take v MIGRATIONS) \<Longrightarrow> v \<le> 4 \<Longrightarrow> set applied = {1..v} \<Longrightarrow> apply_migration applied db x = Inr db"
proof -
  assume a: "x \<in> set (take v MIGRATIONS)" "v \<le> 4" "set applied = {1..v}"
  then obtain i where i: "i < v" "x = MIGRATIONS ! i" by (auto simp: in_set_conv_nth)
  with a MIGRATIONS_nth [of i] obtain n f where "x = (Suc i, n, f)" by auto
  then show ?thesis using i a(3) by (simp add: apply_migration_def)
qed

lemma run_upgrades:
  assumes "at_version v db" "v \<le> 4" and applied: "set (map fst (the (sd_applied (create_migration_table db)))) = {1..v}"
  shows "\<exists>db'. run_migrations db = (Inr (), db') \<and> upgraded v (create_migration_table db) db'"
proof -
  define db0 applied where d: "db0 = create_migration_table db" "applied = map fst (the (sd_applied db0))"
  have a: "set applied = {1..v}" using applied by (simp only: d)
  have "fold_result (apply_migration applied) db0 (take v MIGRATIONS @ drop v MIGRATIONS) =
      fold_result (apply_migration applied) db0 (drop v MIGRATIONS)"
    by (rule fold_result_skip) (rule applied_skips [OF _ assms(2) a])
  moreover obtain db' where "fold_result (apply_migration applied) db0 (drop v MIGRATIONS) = Inr db'" "upgraded v db0 db'"
    using rest_upgrades [of v db0 applied] assms(1,2) a by (auto simp: d)
  ultimately show ?thesis by (simp add: run_migrations_def d)
qed


lemma at_version_4:
  assumes "at_version 4 db" "map_of MODEL_TABLES t = Some cs" "c \<in> set cs"
  shows "has_column db t c"
proof -
  have t: "t \<in> fst ` set MODEL_TABLES" using map_of_SomeD [OF assms(2)] by force
  have empty: "created_after 4 = {}" "added_after 4 = {}" by (simp_all add: created_after_def added_after_def)
  have "table db t" using assms(1) t empty unfolding at_version_def by blast
  then show ?thesis using has_old_column [OF assms(1) t] assms(2,3) empty by (simp add: model_columns_def)
qed

text \<open>
  C31: Migrating a database of any earlier schema version succeeds: afterwards every table of the models
  has every column of its model, no table or column is lost, migrations 1 to 4 are recorded as applied,
  every session and job has a version, and a job that stopped on an ambiguous provider operation
  carries the operation its session had pending.
\<close>

theorem run_migrations_upgrades:
  assumes "at_version v db" "v \<le> 4" "set (map fst (the (sd_applied (create_migration_table db)))) = {1..v}"
  shows "\<exists>db'. run_migrations db = (Inr (), db') \<and>
    (\<forall>t cs c. map_of MODEL_TABLES t = Some cs \<longrightarrow> c \<in> set cs \<longrightarrow> has_column db' t c) \<and>
    (\<forall>t c. has_column db t c \<longrightarrow> has_column db' t c) \<and>
    set (map fst (the (sd_applied db'))) = {1..4} \<and> rows_migrated v db db'"
proof -
  obtain db' where r: "run_migrations db = (Inr (), db')" and u: "upgraded v (create_migration_table db) db'"
    using run_upgrades [OF assms] by blast
  have a: "at_version 4 db'" and g: "grows db db'" and m: "rows_migrated v db db'" using u by (simp_all add: upgraded_def rows_migrated_def)
  have "has_column db' t c" if "map_of MODEL_TABLES t = Some cs" "c \<in> set cs" for t cs c
    using at_version_4 [OF a that] .
  moreover have "set (map fst (the (sd_applied db'))) = {1..4}"
  proof -
    have "sd_applied (create_migration_table db) \<noteq> None" by (simp add: create_migration_table_def)
    then obtain y a where ya: "sd_applied (create_migration_table db) = Some y" "sd_applied db' = Some a"
        "map fst a = map fst y @ [Suc v..<5]"
      using u by (auto simp: upgraded_def)
    then have "set (map fst a) = {1..v} \<union> {Suc v..<5}" using assms(3) by simp
    then show ?thesis using assms(2) ya(2) by auto
  qed
  ultimately show ?thesis using r m grows_has [OF g] by blast
qed

lemma fold_applies:
  assumes "fold_result (apply_migration applied) db ms = Inr db'" "sd_applied db = Some as"
    and "\<And>v n f d d'. (v, n, f) \<in> set ms \<Longrightarrow> f d = Inr d' \<Longrightarrow> sd_applied d' = sd_applied d"
  shows "\<exists>as'. sd_applied db' = Some as' \<and> set as \<subseteq> set as' \<and> fst ` set ms \<subseteq> set applied \<union> fst ` set as'"
  using assms
proof (induction ms arbitrary: db as)
  case (Cons m ms)
  obtain v n f where m: "m = (v, n, f)" by (cases m) auto
  obtain db1 where db1: "apply_migration applied db m = Inr db1" "fold_result (apply_migration applied) db1 ms = Inr db'"
    using Cons(2) by auto
  obtain as1 where as1: "sd_applied db1 = Some as1" "set as \<subseteq> set as1" "v \<in> set applied \<union> fst ` set as1"
  proof (cases "v \<in> set applied")
    case False
    then obtain d where "f db = Inr d" "db1 = record_applied v n d" using db1(1) by (auto simp: apply_migration_def m)
    then have "sd_applied db1 = Some (as @ [(v, n)])" using Cons(3) Cons(4) [of v n f db d] m by simp
    then show ?thesis by (intro that) auto
  qed (use db1(1) Cons(3) m in \<open>auto simp: apply_migration_def\<close>)
  obtain as' where "sd_applied db' = Some as'" "set as1 \<subseteq> set as'" "fst ` set ms \<subseteq> set applied \<union> fst ` set as'"
    using Cons(1) [OF db1(2) as1(1)] Cons(4) by (metis list.set_intros(2))
  then show ?case using as1(2,3) m by auto
qed auto


lemma migration_keeps_applied: "(v, n, f) \<in> set MIGRATIONS \<Longrightarrow> f d = Inr d' \<Longrightarrow> sd_applied d' = sd_applied d"
  by (auto simp: MIGRATIONS_def step_rows_def dest: initial_schema_rows worker_safety_rows operation_resolution_rows session_summary_rows)

lemma run_records_all:
  assumes "run_migrations db = (Inr (), db')"
  shows "\<exists>as. sd_applied db' = Some as \<and> fst ` set MIGRATIONS \<subseteq> fst ` set as"
proof -
  obtain as where as: "sd_applied (create_migration_table db) = Some as" by (cases "sd_applied db") (auto simp: create_migration_table_def)
  have r: "fold_result (apply_migration (map fst as)) (create_migration_table db) MIGRATIONS = Inr db'"
    using assms by (auto simp: run_migrations_def as split: sum.splits)
  have "\<exists>as'. sd_applied db' = Some as' \<and> set as \<subseteq> set as' \<and> fst ` set MIGRATIONS \<subseteq> set (map fst as) \<union> fst ` set as'"
    by (rule fold_applies [OF r as]) (erule (1) migration_keeps_applied)
  then obtain as' where as': "sd_applied db' = Some as'" "set as \<subseteq> set as'" "fst ` set MIGRATIONS \<subseteq> set (map fst as) \<union> fst ` set as'"
    by (elim exE conjE)
  have "set (map fst as) \<union> fst ` set as' = fst ` set as'" unfolding set_map by (rule Un_absorb1 [OF image_mono [OF as'(2)]])
  then show ?thesis using as'(1,3) by (intro exI [of _ as'] conjI) simp_all
qed

text \<open>
  Running the migrations again after a successful run, as every start of a service does, leaves the
  database exactly as it is.
\<close>

theorem run_migrations_idempotent:
  assumes "run_migrations db = (Inr (), db')"
  shows "run_migrations db' = (Inr (), db')"
proof -
  obtain as where as: "sd_applied db' = Some as" "fst ` set MIGRATIONS \<subseteq> fst ` set as"
    using run_records_all [OF assms] by blast
  then have c: "create_migration_table db' = db'" by (simp add: create_migration_table_def)
  have "fold_result (apply_migration (map fst as)) db' (MIGRATIONS @ []) = fold_result (apply_migration (map fst as)) db' []"
    using as(2) by (intro fold_result_skip) (force simp: apply_migration_def)
  then show ?thesis by (simp add: run_migrations_def c as(1))
qed

subsection \<open>A database of an earlier release\<close>

definition legacy_db :: sql_db where
  "legacy_db = \<lparr>sd_tables =
      filter (\<lambda>(t, cs). t \<notin> set [''provider_operation_resolution'', ''session_summary'', ''evidence_job'']) MODEL_TABLES @
      [(''evidence_job'', filter (\<lambda>c. c \<noteq> ''ambiguous_operation_id'') (the (map_of MODEL_TABLES ''evidence_job'')))],
    sd_applied = Some [(1, ''initial_schema''), (2, ''worker_safety_schema'')],
    sd_sessions = [\<lparr>sw_id = ''s1'', sw_pending_operation_id = Some ''op1'', sw_version = Some 3\<rparr>],
    sd_jobs = [\<lparr>jw_session_id = ''s1'', jw_error_code = Some ''ambiguous_provider_operation'',
      jw_ambiguous_operation_id = None, jw_version = Some 1\<rparr>]\<rparr>"

lemma legacy_at_version: "at_version 2 legacy_db"
  by code_simp

lemma legacy_applied: "set (map fst (the (sd_applied (create_migration_table legacy_db)))) = {1..2}"
  by (simp add: create_migration_table_def legacy_db_def) force

theorem run_migrations_upgrades_witness:
  "\<exists>db'. run_migrations legacy_db = (Inr (), db') \<and> has_column db' ''session_summary'' ''themes'' \<and>
     map jw_ambiguous_operation_id (sd_jobs db') = [Some ''op1'']"
proof -
  have "''themes'' \<in> set (the (map_of MODEL_TABLES ''session_summary''))" "map_of MODEL_TABLES ''session_summary'' \<noteq> None"
    by code_simp+
  moreover have "map jw_ambiguous_operation_id (map (migrated_job 2 (sd_sessions legacy_db)) (sd_jobs legacy_db)) = [Some ''op1'']"
    by (simp add: legacy_db_def migrated_job_def backfill_job_def pending_of_def)
  ultimately show ?thesis
    using run_migrations_upgrades [OF legacy_at_version _ legacy_applied] unfolding rows_migrated_def by fastforce
qed

end
