(* ===== verification/Heartbeat.thy ===== *)
theory Heartbeat
  imports Reachable
begin

text \<open>
  The heartbeat thread of the worker, \<^verbatim>\<open>_heartbeat_job_lease\<close>, which renews the lease of a job during
  a provider call. Each round waits; meanwhile other processes act on the database; then the stop
  event is set, or the renewal runs, or its transaction raises, which \<^verbatim>\<open>_renew_job_lease\<close> takes for a
  success. The thread is joined after the call, so that it must end once the stop event is set.
\<close>

subsection \<open>The thread\<close>

definition heartbeat_interval :: "int \<Rightarrow> rat" where
  "heartbeat_interval lease = min (max (of_int lease / 3) (1 / 20)) 5"

datatype beat = Stop_set | Renewal int | Renewal_raises

record tick =
  tk_others :: "db \<Rightarrow> db"
  tk_beat :: beat

text \<open>\<open>None\<close> is a thread that never returns.\<close>

partial_function (option) heartbeat_job_lease :: "(nat \<Rightarrow> tick) \<Rightarrow> string \<Rightarrow> nat \<Rightarrow> db \<Rightarrow> db option" where
  "heartbeat_job_lease ticks jid n d =
     (let d0 = tk_others (ticks n) d
      in case tk_beat (ticks n) of
           Stop_set \<Rightarrow> Some d0
         | Renewal_raises \<Rightarrow> heartbeat_job_lease ticks jid (Suc n) d0
         | Renewal now \<Rightarrow>
             (if \<not> fst (renew_job_lease now d0 jid) then Some (snd (renew_job_lease now d0 jid))
              else heartbeat_job_lease ticks jid (Suc n) (snd (renew_job_lease now d0 jid))))"

subsection \<open>It ends\<close>

text \<open>From any round on, the thread reaches the next round, in which it stops.\<close>

lemma heartbeat_from:
  assumes "tk_beat (ticks (n + k)) = Stop_set" and steps: "\<And>n d. db_step\<^sup>*\<^sup>* d (tk_others (ticks n) d)"
  shows "\<exists>d'. heartbeat_job_lease ticks jid n d = Some d' \<and> db_step\<^sup>*\<^sup>* d d'"
  using assms(1)
proof (induction k arbitrary: n d)
  case 0
  then show ?case using steps by (simp add: heartbeat_job_lease.simps [of ticks jid n d] Let_def)
next
  case (Suc k)
  define d0 where "d0 = tk_others (ticks n) d"
  have reach: "db_step\<^sup>*\<^sup>* d d0" unfolding d0_def by (rule steps)
  have rest: "\<exists>d'. heartbeat_job_lease ticks jid (Suc n) e = Some d' \<and> db_step\<^sup>*\<^sup>* e d'" for e
    using Suc by simp
  show ?case
  proof (cases "tk_beat (ticks n)")
    case Stop_set
    then show ?thesis using reach by (simp add: heartbeat_job_lease.simps [of ticks jid n d] d0_def)
  next
    case (Renewal now)
    have renewed: "db_step\<^sup>*\<^sup>* d (snd (renew_job_lease now d0 jid))"
      using reach w_heartbeat by (rule rtranclp.rtrancl_into_rtrancl)
    obtain d' where "heartbeat_job_lease ticks jid (Suc n) (snd (renew_job_lease now d0 jid)) = Some d'"
        "db_step\<^sup>*\<^sup>* (snd (renew_job_lease now d0 jid)) d'"
      using rest by blast
    then show ?thesis using renewed rtranclp_trans [OF renewed] Renewal
      by (cases "fst (renew_job_lease now d0 jid)")
        (simp_all add: heartbeat_job_lease.simps [of ticks jid n d] d0_def Let_def)
  next
    case Renewal_raises
    obtain d' where "heartbeat_job_lease ticks jid (Suc n) d0 = Some d'" "db_step\<^sup>*\<^sup>* d0 d'" using rest by blast
    then show ?thesis using rtranclp_trans [OF reach] Renewal_raises
      by (simp add: heartbeat_job_lease.simps [of ticks jid n d] d0_def Let_def)
  qed
qed


definition demo_ticks :: "nat \<Rightarrow> tick" where
  "demo_ticks n = \<lparr>tk_others = (\<lambda>d. d), tk_beat = (if n = 2 then Stop_set else Renewal_raises)\<rparr>"


subsection \<open>It keeps the lease\<close>

lemma interval_within_lease: "1 \<le> lease \<Longrightarrow> 3 * heartbeat_interval lease \<le> of_int lease"
  by (simp add: heartbeat_interval_def min_def max_def)

lemma renewed_job:
  assumes "get_job (snd (renew_job_lease now d jid)) jid = Some job" "j_status job = J_RUNNING"
  shows "j_updated_at job = now"
proof -
  have "job \<in> set (db_jobs (snd (renew_job_lease now d jid)))" "j_id job = jid"
    using assms(1) unfolding get_job_def tbl_get_def find_Some_iff by (auto simp: nth_mem)
  moreover obtain j where "job = (if j_id j = jid \<and> j_status j = J_RUNNING then j\<lparr>j_updated_at := now\<rparr> else j)"
    using calculation(1) unfolding renew_job_lease_def Let_def snd_conv JobRecord.simps by fastforce
  ultimately show ?thesis using assms(2) by (cases "j_id j = jid \<and> j_status j = J_RUNNING") auto
qed

text \<open>
  C29: The waits of the heartbeat are between a twentieth of a second and five seconds, and a renewal
  protects the job for three of them: as long as nobody else changed the row, a recovery sweep
  that runs within three intervals of it leaves the job to its worker, so that two lost renewals
  do no harm.
\<close>

theorem heartbeat_keeps_lease:
  assumes "1 \<le> ws_job_lease_seconds st"
    and "of_int (now' - now) \<le> 3 * heartbeat_interval (ws_job_lease_seconds st)"
    and "get_job d' jid = get_job (snd (renew_job_lease now d jid)) jid"
  shows "recover_one_abandoned_job st now' m d' jid (now' - ws_job_lease_seconds st) = Inr (False, d') \<and>
    1 / 20 \<le> heartbeat_interval (ws_job_lease_seconds st) \<and> heartbeat_interval (ws_job_lease_seconds st) \<le> 5"
proof -
  have "(of_int (now' - now) :: rat) \<le> of_int (ws_job_lease_seconds st)"
    using assms(2) interval_within_lease [OF assms(1)] by linarith
  then have "now' - ws_job_lease_seconds st \<le> now" by linarith
  moreover have "j_updated_at job = now" if "get_job d' jid = Some job" "j_status job = J_RUNNING" for job
    using renewed_job [of now d jid job] that assms(3) by simp
  ultimately show ?thesis
    by (auto simp: recover_one_abandoned_job_def heartbeat_interval_def split: option.splits)
qed

theorem heartbeat_keeps_lease_witness:
  "recover_one_abandoned_job demo_worker 110 [] (snd (renew_job_lease 100 demo_running ''j'')) ''j''
     (110 - ws_job_lease_seconds demo_worker) = Inr (False, snd (renew_job_lease 100 demo_running ''j''))"
  using heartbeat_keeps_lease [of demo_worker 110 100 "snd (renew_job_lease 100 demo_running ''j'')" "''j''" demo_running "[]"]
  by (simp add: demo_worker_def heartbeat_interval_def)

end
