(* ===== verification/Spec2Isabelle.thy ===== *)
theory Spec2Isabelle
  imports Gateway Accountable Run_Safety Retention Auth Openai Summary_Scoring Migrations Heartbeat
begin

text \<open>
  Verification of the AI coaching dashboard's services. A coach uploads a recorded session; the
  recording is transcribed by an external service (Speakr), a language model proposes ledger
  entries that cite the transcript, people review the entries, and the session is summarised. The
  promise of the program is that every stored claim is grounded in the transcript it cites, that
  nothing is called complete before people have reviewed it, and that recordings are neither
  uploaded twice nor left behind after a deletion. The development models the Python services under
  \<^verbatim>\<open>src/\<close> and proves these promises.

  \<^bold>\<open>Parts of the program and where they are modelled.\<close>
  \<^item> \<open>Prelude\<close>: the error monad, JSON values, Python's string and number functions.
  \<^item> \<open>Contracts\<close>: the shared Pydantic models of \<^verbatim>\<open>packages/contracts\<close> with their validators, and the
    exceptions of the services.
  \<^item> \<open>Store\<close>: the rows of \<^verbatim>\<open>evidence_api/models.py\<close> as records, the database as a record of tables, and
    the laws of a table of rows with a primary key as the locale \<open>row_table\<close>, interpreted for every
    table.
  \<^item> \<open>Session_State\<close>: the transition table of \<^verbatim>\<open>evidence_api/state.py\<close>.
  \<^item> \<open>Transcripts\<close>: normalisation of Speakr's segments, decimal arithmetic of times, canonical JSON and
    the transcript hash (\<^verbatim>\<open>evidence_api/transcripts.py\<close>).
  \<^item> \<open>Services\<close>: reconciliation of revisions, evidence validation, ledger entries, jobs, deletion intents
    (\<^verbatim>\<open>evidence_api/services.py\<close>).
  \<^item> \<open>Providers\<close>: the Speakr adapter (\<^verbatim>\<open>media_adapter\<close>) and the three clients of the gateway
    (\<^verbatim>\<open>extraction.py\<close>, \<^verbatim>\<open>summaries.py\<close>, \<^verbatim>\<open>consolidation.py\<close>) over an HTTP transport.
  \<^item> \<open>Gateway\<close>: the extraction gateway (\<^verbatim>\<open>extraction_gateway/app.py\<close> and \<^verbatim>\<open>config.py\<close>): windows over the
    transcript, filtering, lexical support and deduplication of the model's entries, consolidation
    and summaries. The two loops that claim entry ids share the locale \<open>claim_loop\<close>.
  \<^item> \<open>Api\<close>: the endpoints of \<^verbatim>\<open>evidence_api/app.py\<close>, each a transaction on the database.
  \<^item> \<open>Addresses\<close>, \<open>Auth\<close>: the settings and their validator (\<^verbatim>\<open>evidence_api/config.py\<close>), principals, roles
    and trusted networks (\<^verbatim>\<open>evidence_api/auth.py\<close>), with IP addresses as 32-bit and 128-bit words.
  \<^item> \<open>Worker\<close>: the transactions of \<^verbatim>\<open>evidence_worker/worker.py\<close>; \<open>Worker_Run\<close>: the control flow that
    strings them together, \<^verbatim>\<open>run_once\<close> and \<^verbatim>\<open>_process\<close>, with provider answers, exceptions and the
    interference of other processes.
  \<^item> \<open>Openai\<close>: the gateway's client of the language model (\<^verbatim>\<open>extraction_gateway/openai_client.py\<close>): the
    rewriting of schemas for strict mode, the request, the reading of the answer; and the prompts and
    endpoints of the gateway composed with it.
  \<^item> \<open>Heartbeat\<close>: the thread that renews a job's lease during a provider call.
  \<^item> \<open>Migrations\<close>: the schema migrations of \<^verbatim>\<open>evidence_api/migrations.py\<close> on tables, columns and the rows
    they write.
  \<^item> \<open>Scoring\<close>, \<open>Summary_Scoring\<close>: the release gates \<^verbatim>\<open>eval/score.py\<close> and \<^verbatim>\<open>eval/score_summary.py\<close> on
    arbitrary JSON documents.
  \<^item> \<open>Retention\<close>: the retention helper \<^verbatim>\<open>nix/retention-helper.py\<close> on a file system of inodes.

  \<^bold>\<open>How state and operations correspond.\<close> The database is one value \<open>db\<close>. A handler of the API, or a
  transaction of the worker, is a function from the database to a response and a new database; what
  raises before its commit leaves the database as it was. \<open>Reachable\<close> collects them as the inductive
  relation \<open>db_step\<close>; its reflexive transitive closure from the empty database are the interleavings
  of API requests and workers. \<open>Worker_Run\<close> refines this: a run loads rows, computes, and commits
  under optimistic locking, where rows that changed meanwhile raise \<^verbatim>\<open>StaleDataError\<close> as SQLAlchemy's
  \<^verbatim>\<open>version_id_col\<close> makes them; other processes act between any load and commit and between any two
  transactions. Reads happen at the load, the version check and the writes at the commit, and a
  single transaction is otherwise atomic.

  \<^bold>\<open>What is proved.\<close>
  \<^item> Invariants of every reachable database (\<open>System\<close>, \<open>Worker_Safety\<close>, \<open>Reachable\<close>): entries are grounded
    in their transcript, complete sessions are reviewed, verdicts belong to the current revision.
    The frame condition that most operations share is the locale \<open>core_frame\<close>.
  \<^item> Histories (\<open>Accountable\<close>): upload markers are not forgotten, audit rows are append-only.
  \<^item> Runs (\<open>Run_Safety\<close>): a whole run of the worker is a sequence of steps of the relation, so the
    invariants hold after it; uploads are written ahead; an undisturbed run settles its job; and
    which exceptions are not caught. Properties of the event log are the locale \<open>log_property\<close>.
  \<^item> Schema upgrades (\<open>Migrations\<close>): from every earlier version the run succeeds and ends in the schema of
    the models, and a second run changes nothing.
  \<^item> Release gates (\<open>Scoring\<close>, \<open>Summary_Scoring\<close>): what a passed gate says about the documents.
  \<^item> Each component: functional behaviour and error behaviour on every branch, bounds, round trips and
    equivalence with a plain specification.

  \<^bold>\<open>Bounds and fuel.\<close> Loops are structural or have a termination proof. The heartbeat thread may run
  forever and is a partial function, proved to return once its stop event is set. The purge of the quarantine
  takes the recursion limit of Python as fuel, and its theorem states that a tree within the limit is
  removed. Text is ASCII (see \<open>Prelude\<close>), integers are unbounded as in Python, finite floats are the
  rationals they print as, instants are whole seconds.

  \<^bold>\<open>Parameters.\<close> HTTP transport, the HMAC and SHA-256 functions, parsers of JSON text and of ISO
  timestamps, Pydantic's validation of model output, generated ids, the clock and the order of set
  iteration are arguments; what a theorem needs of them is a hypothesis, with a witness.

  \<^bold>\<open>Not modelled.\<close> Log messages and the texts of HTTP errors; the set-up of the database engine; column
  types and the lock of the migrations (SQL statements); the TypeScript client; the health endpoints;
  the polling loop, the command lines and the process start-up of the services; tests, among them
  \<^verbatim>\<open>nix/proxy-contract-test.py\<close>, and deployment. Scores are exact rationals where Python computes with
  floats.
\<close>

end
